(* ===== verification/Grail_Prelude.thy ===== *)
theory Grail_Prelude
  imports Main "HOL-Library.Word"
begin

unbundle bit_operations_syntax

text \<open>
  What every component shares: the C integer types at their width, little-endian byte
  encodings, the tracee's address space as a map from addresses to bytes, and the outcome
  type of the system-call handlers.

  \<^item> \<open>c_int\<close> reads the low 32 bits of a register as a C \<open>int\<close>; \<open>c_reg\<close> is the conversion of
    a signed result to the \<open>uint64_t\<close> that \<open>__set_reg\<close> takes (sign extension);
  \<^item> \<open>le_bytes\<close>/\<open>le_nat\<close> are the amd64 byte order, with their round trips;
  \<^item> \<open>fetch\<close>, \<open>store\<close> and \<open>mapped\<close> are byte-level accesses to an address space, the abstract
    view the word-wise ptrace copies are proved to implement;
  \<^item> an \<open>outcome\<close> is either a value with the next state, or the reason why the simulator
    process does not go on.
\<close>

named_theorems mem_simps "equations of fetch, store and mapped"
named_theorems keeps_intros "introduction rules for facts that survive an operation"

section \<open>Machine integers and pointers\<close>

type_synonym byte = "8 word"
type_synonym addr = "64 word"
type_synonym pid = int
type_synonym fd = int
type_synonym memory = "addr \<Rightarrow> byte option"

definition c_int :: "64 word \<Rightarrow> int" where
  "c_int r = sint (ucast r :: 32 word)"

definition c_uint :: "64 word \<Rightarrow> nat" where
  "c_uint r = unat (ucast r :: 32 word)"

definition c_reg :: "int \<Rightarrow> 64 word" where
  "c_reg i = word_of_int i"

lemma c_int_range: "- (2 ^ 31) \<le> c_int r \<and> c_int r < 2 ^ 31"
  unfolding c_int_def using sint_range_size [of "ucast r :: 32 word"] by (simp add: word_size)

lemma unat64_less [simp]: "unat (v :: 64 word) < 18446744073709551616"
  using unsigned_less [of v, where 'a = nat] by simp

lemma unat_of_nat64 [mem_simps]: "n < 2 ^ 64 \<Longrightarrow> unat (of_nat n :: 64 word) = n"
  by (simp add: unat_of_nat)

lemma ucast32_of_int [simp]: "(ucast (word_of_int i :: 64 word) :: 32 word) = word_of_int i"
  by transfer simp

lemma c_int_c_reg:
  assumes "- (2 ^ 31) \<le> i" and "i < 2 ^ 31"
  shows "c_int (c_reg i) = i"
  using assms unfolding c_int_def c_reg_def ucast32_of_int int_word_sint by simp

section \<open>Little-endian encodings\<close>

primrec le_bytes :: "nat \<Rightarrow> nat \<Rightarrow> byte list" where
  "le_bytes 0 n = []"
| "le_bytes (Suc k) n = of_nat (n mod 256) # le_bytes k (n div 256)"

primrec le_nat :: "byte list \<Rightarrow> nat" where
  "le_nat [] = 0"
| "le_nat (b # bs) = unat b + 256 * le_nat bs"

lemma length_le_bytes [simp]: "length (le_bytes k n) = k"
  by (induction k arbitrary: n) simp_all

lemma unat_byte_mod [simp]: "unat (of_nat (n mod 256) :: byte) = n mod 256"
  by (simp add: unat_of_nat)

lemma le_nat_le_bytes: "le_nat (le_bytes k n) = n mod 256 ^ k"
proof (induction k arbitrary: n)
  case 0
  then show ?case by simp
next
  case (Suc k)
  have "n mod 256 ^ Suc k = n mod 256 + 256 * ((n div 256) mod 256 ^ k)"
    by (simp add: mod_mult2_eq)
  then show ?case using Suc.IH [of "n div 256"] by simp
qed

lemma unat_byte_less [simp]: "unat (b :: byte) < 256"
  using unsigned_less [of b, where 'a = nat] by simp

lemma le_bytes_le_nat: "le_bytes (length bs) (le_nat bs) = bs"
proof (induction bs)
  case Nil
  then show ?case by simp
next
  case (Cons b bs)
  have "(unat b + 256 * le_nat bs) mod 256 = unat b"
    by simp
  moreover have "(unat b + 256 * le_nat bs) div 256 = le_nat bs"
    by simp
  ultimately show ?case using Cons.IH by simp
qed

lemma le_nat_bound: "le_nat bs < 256 ^ length bs"
proof (induction bs)
  case Nil
  then show ?case by simp
next
  case (Cons b bs)
  have "unat b < 256" by simp
  moreover from Cons.IH have "le_nat bs + 1 \<le> 256 ^ length bs" by simp
  then have "256 * le_nat bs + 256 \<le> 256 * 256 ^ length bs"
    by simp
  ultimately have "unat b + 256 * le_nat bs < 256 * 256 ^ length bs" by linarith
  then show ?case by simp
qed

text \<open>A word of the tracee is eight bytes.\<close>

definition word_bytes :: "64 word \<Rightarrow> byte list" where
  "word_bytes v = le_bytes 8 (unat v)"

definition bytes_word :: "byte list \<Rightarrow> 64 word" where
  "bytes_word bs = of_nat (le_nat bs)"

lemma length_word_bytes [simp]: "length (word_bytes v) = 8"
  by (simp add: word_bytes_def)

lemma word_bytes_bytes_word: "length bs = 8 \<Longrightarrow> word_bytes (bytes_word bs) = bs"
  using le_nat_bound [of bs] le_bytes_le_nat [of bs]
  by (simp add: word_bytes_def bytes_word_def unat_of_nat)

lemma bytes_word_word_bytes: "bytes_word (word_bytes v) = v"
  by (simp add: word_bytes_def bytes_word_def le_nat_le_bytes)

text \<open>C integers in memory.\<close>

definition le_int :: "byte list \<Rightarrow> int" where
  "le_int bs = sint (of_nat (le_nat bs) :: 32 word)"

definition int_bytes :: "nat \<Rightarrow> int \<Rightarrow> byte list" where
  "int_bytes k i = le_bytes k (nat (i mod 256 ^ k))"

lemma length_int_bytes [simp]: "length (int_bytes k i) = k"
  by (simp add: int_bytes_def)

lemma le_int_int_bytes:
  assumes "- (2 ^ 31) \<le> i" and "i < 2 ^ 31"
  shows "le_int (int_bytes 4 i) = i"
proof -
  have "le_nat (int_bytes 4 i) = nat (i mod 256 ^ 4)"
    by (simp add: int_bytes_def le_nat_le_bytes nat_mod_as_int)
  then have "int (le_nat (int_bytes 4 i)) = i mod 2 ^ 32" by simp
  moreover have "(of_nat (le_nat (int_bytes 4 i)) :: 32 word) = word_of_int (int (le_nat (int_bytes 4 i)))"
    by (rule of_int_of_nat_eq [symmetric])
  ultimately have "(of_nat (le_nat (int_bytes 4 i)) :: 32 word) = word_of_int (i mod 2 ^ 32)"
    by (simp only:)
  also have "\<dots> = word_of_int i" by transfer (simp add: take_bit_eq_mod)
  finally have w: "(of_nat (le_nat (int_bytes 4 i)) :: 32 word) = word_of_int i" .
  show ?thesis using assms unfolding le_int_def w int_word_sint by simp
qed

lemma le_nat_int_bytes: "le_nat (int_bytes k i) = nat (i mod 256 ^ k)"
  by (simp add: int_bytes_def le_nat_le_bytes nat_mod_as_int)

section \<open>The address space of the traced process\<close>

definition mapped :: "memory \<Rightarrow> addr \<Rightarrow> nat \<Rightarrow> bool" where
  "mapped m a n \<longleftrightarrow> list_all (\<lambda>i. m (a + of_nat i) \<noteq> None) [0..<n]"

definition fetch :: "memory \<Rightarrow> addr \<Rightarrow> nat \<Rightarrow> byte list" where
  "fetch m a n = map (\<lambda>i. the (m (a + of_nat i))) [0..<n]"

definition store :: "memory \<Rightarrow> addr \<Rightarrow> byte list \<Rightarrow> memory" where
  "store m a bs = (\<lambda>x. if unat (x - a) < length bs then Some (bs ! unat (x - a)) else m x)"

lemma mapped_iff: "mapped m a n \<longleftrightarrow> (\<forall>i<n. m (a + of_nat i) \<noteq> None)"
  by (auto simp: mapped_def list_all_iff)

lemma length_fetch [simp]: "length (fetch m a n) = n"
  by (simp add: fetch_def)

lemma nth_fetch [simp]: "i < n \<Longrightarrow> fetch m a n ! i = the (m (a + of_nat i))"
  by (simp add: fetch_def)

lemma store_Nil [simp]: "store m a [] = m"
  by (simp add: store_def)

lemma store_mapped_mono: "m x \<noteq> None \<Longrightarrow> store m a bs x \<noteq> None"
  by (simp add: store_def)

lemma mapped_store [mem_simps]: "mapped m b n \<Longrightarrow> mapped (store m a bs) b n"
  unfolding mapped_iff using store_mapped_mono by blast

lemma mapped_zero [simp]: "mapped m a 0"
  by (simp add: mapped_iff)

lemma mapped_add: "mapped m a (n + k) \<longleftrightarrow> mapped m a n \<and> mapped m (a + of_nat n) k"
proof
  assume L: "mapped m a (n + k)"
  have "m (a + of_nat n + of_nat i) \<noteq> None" if "i < k" for i
  proof -
    have "n + i < n + k" using that by simp
    then have "m (a + of_nat (n + i)) \<noteq> None" using L unfolding mapped_iff by blast
    moreover have "a + of_nat n + of_nat i = a + (of_nat (n + i) :: 64 word)"
      by (simp only: of_nat_add add.assoc)
    ultimately show ?thesis by (simp only:) simp
  qed
  then show "mapped m a n \<and> mapped m (a + of_nat n) k" using L unfolding mapped_iff by simp
next
  assume R: "mapped m a n \<and> mapped m (a + of_nat n) k"
  have "m (a + of_nat i) \<noteq> None" if "i < n + k" for i
  proof (cases "i < n")
    case True
    then show ?thesis using R unfolding mapped_iff by simp
  next
    case False
    then have "i - n < k" using that by simp
    then have "m (a + of_nat n + of_nat (i - n)) \<noteq> None" using R unfolding mapped_iff by simp
    moreover have "a + of_nat n + of_nat (i - n) = a + (of_nat (n + (i - n)) :: 64 word)"
      by (simp only: of_nat_add add.assoc)
    ultimately show ?thesis using False by simp
  qed
  then show "mapped m a (n + k)" unfolding mapped_iff by simp
qed

lemma mapped_le: "mapped m a n \<Longrightarrow> k \<le> n \<Longrightarrow> mapped m a k"
  by (auto simp: mapped_iff)

lemma unat_offset [mem_simps]: "i < 2 ^ 64 \<Longrightarrow> unat (a + of_nat i - a :: 64 word) = i"
  by (simp add: unat_of_nat64)

lemma store_at [mem_simps]:
  "i < length bs \<Longrightarrow> length bs \<le> 2 ^ 64 \<Longrightarrow> store m a bs (a + of_nat i) = Some (bs ! i)"
  by (simp add: store_def unat_of_nat64)

lemma store_outside [mem_simps]:
  "length bs \<le> unat (x - a) \<Longrightarrow> store m a bs x = m x"
  by (simp add: store_def)

lemma fetch_store:
  assumes "length bs \<le> 2 ^ 64"
  shows "fetch (store m a bs) a (length bs) = bs"
proof (rule nth_equalityI)
  fix i assume "i < length (fetch (store m a bs) a (length bs))"
  then have "i < length bs" by simp
  then show "fetch (store m a bs) a (length bs) ! i = bs ! i"
    using store_at [of i bs m a] assms by simp
qed simp

lemma store_append:
  assumes "length xs + length ys \<le> 2 ^ 64"
  shows "store (store m a xs) (a + of_nat (length xs)) ys = store m a (xs @ ys)"
proof
  fix x
  let ?d = "unat (x - a)" and ?e = "unat (x - (a + of_nat (length xs)))"
  have split: "x - (a + of_nat (length xs)) = (x - a) - of_nat (length xs)"
    by (simp add: algebra_simps)
  show "store (store m a xs) (a + of_nat (length xs)) ys x = store m a (xs @ ys) x"
  proof (cases "length xs \<le> ?d")
    case True
    then have "length xs < 2 ^ 64" by (rule le_less_trans) simp
    then have len: "unat (of_nat (length xs) :: 64 word) = length xs"
      by (rule unat_of_nat64)
    then have "of_nat (length xs) \<le> x - a" using True by (simp add: word_le_nat_alt)
    then have "?e = ?d - length xs"
      unfolding split by (simp add: unat_sub len)
    then show ?thesis using True by (auto simp: store_def nth_append)
  next
    case False
    have "\<not> ?e < length ys"
    proof
      assume e: "?e < length ys"
      have "x - a = of_nat ?e + of_nat (length xs)" by (simp add: algebra_simps)
      then have "x - a = of_nat (?e + length xs)" by simp
      moreover have "unat (of_nat (?e + length xs) :: 64 word) = ?e + length xs"
        by (rule unat_of_nat64) (use e assms in simp)
      ultimately have "?d = ?e + length xs" by (simp only:)
      with False show False by simp
    qed
    with False show ?thesis by (simp add: store_def nth_append)
  qed
qed

lemma store_fetch_overlay:
  assumes "mapped m a n" and "k \<le> n" and "length bs = k" and "n \<le> 2 ^ 64"
  shows "store m a (bs @ drop k (fetch m a n)) = store m a bs"
proof
  fix x
  let ?d = "unat (x - a)"
  have x: "x = a + of_nat ?d" by simp
  show "store m a (bs @ drop k (fetch m a n)) x = store m a bs x"
  proof (cases "k \<le> ?d \<and> ?d < n")
    case True
    then have "m (a + of_nat ?d) \<noteq> None" using assms(1) unfolding mapped_iff by blast
    then have "m x \<noteq> None" by simp
    then show ?thesis using True assms(2,3) by (auto simp: store_def nth_append)
  next
    case False
    then show ?thesis using assms(2,3) by (auto simp: store_def nth_append)
  qed
qed

lemma fetch_append:
  "fetch m a (n + k) = fetch m a n @ fetch m (a + of_nat n) k"
proof (rule nth_equalityI)
  fix i assume i: "i < length (fetch m a (n + k))"
  show "fetch m a (n + k) ! i = (fetch m a n @ fetch m (a + of_nat n) k) ! i"
  proof (cases "i < n")
    case True
    then show ?thesis using i by (simp add: nth_append)
  next
    case False
    then have "a + of_nat n + of_nat (i - n) = a + (of_nat (n + (i - n)) :: 64 word)"
      by (simp only: of_nat_add add.assoc)
    then show ?thesis using i False by (simp add: nth_append)
  qed
qed simp

lemma take_fetch: "k \<le> n \<Longrightarrow> take k (fetch m a n) = fetch m a k"
  by (rule nth_equalityI) simp_all

lemma fetch_store_parts:
  assumes "length xs + length ys \<le> 2 ^ 64"
  shows "fetch (store m a (xs @ ys)) a (length xs) = xs"
    and "fetch (store m a (xs @ ys)) (a + of_nat (length xs)) (length ys) = ys"
proof -
  have "fetch (store m a (xs @ ys)) a (length xs + length ys) = xs @ ys"
    using fetch_store [of "xs @ ys" m a] assms by simp
  then show "fetch (store m a (xs @ ys)) a (length xs) = xs"
    and "fetch (store m a (xs @ ys)) (a + of_nat (length xs)) (length ys) = ys"
    unfolding fetch_append by simp_all
qed

section \<open>Decimal text\<close>

text \<open>\<open>std::to_string\<close> of a non-negative number, and \<open>sprintf\<close>'s \<open>%d\<close>.\<close>

fun to_string :: "nat \<Rightarrow> string" where
  "to_string n = (if n < 10 then [char_of (48 + n)]
     else to_string (n div 10) @ [char_of (48 + n mod 10)])"

declare to_string.simps [simp del]

lemma to_string_digits: "c \<in> set (to_string n) \<Longrightarrow> \<exists>d::nat. d < 10 \<and> c = char_of (48 + d)"
proof (induction n rule: to_string.induct)
  case (1 n)
  show ?case
  proof (cases "n < 10")
    case True
    then show ?thesis using "1.prems" by (auto simp: to_string.simps [of n])
  next
    case False
    then consider "c \<in> set (to_string (n div 10))" | "c = char_of (48 + n mod 10)"
      using "1.prems" by (auto simp: to_string.simps [of n])
    then show ?thesis
    proof cases
      case 1
      then show ?thesis using "1.IH" False by blast
    next
      case 2
      then show ?thesis by (intro exI [of _ "n mod 10"]) simp
    qed
  qed
qed

definition digits_value :: "string \<Rightarrow> nat" where
  "digits_value s = foldl (\<lambda>a c. 10 * a + (of_char c - 48)) 0 s"

lemma digits_value_to_string [simp]: "digits_value (to_string n) = n"
proof (induction n rule: to_string.induct)
  case (1 n)
  have "n mod 10 < 10" by simp
  then show ?case
    using 1 by (cases "n < 10") (simp_all add: to_string.simps [of n] digits_value_def)
qed

lemma to_string_inject [simp]: "to_string m = to_string n \<longleftrightarrow> m = n"
  by (metis digits_value_to_string)

lemma to_string_ne [simp]: "to_string n \<noteq> []"
  by (subst to_string.simps) simp

section \<open>Outcomes of a handler\<close>

text \<open>
  Why the simulator stops inside a handler: \<open>exit(1)\<close>, a failed \<open>NS_ASSERT\<close> or \<open>assert\<close>, the
  uncaught \<open>std::out_of_range\<close> of \<open>std::map::at\<close>, a null pointer that is used, a call
  that never returns, and an access outside a buffer.
\<close>

datatype halt = ExitFailure | AssertFailure | OutOfRange | NullPointer | NoReturn | OutOfBounds

datatype ('a, 'w) outcome = Ret 'a 'w | Halt halt 'w

text \<open>\<open>holds P r\<close>: if the handler comes back, \<open>P\<close> holds of its value and state.\<close>

definition holds :: "('a \<Rightarrow> 'w \<Rightarrow> bool) \<Rightarrow> ('a, 'w) outcome \<Rightarrow> bool" where
  "holds P r = (case r of Ret a w \<Rightarrow> P a w | Halt h w \<Rightarrow> True)"

lemma holds_simps [simp]: "holds P (Ret a w) = P a w" "holds P (Halt h w)"
  by (simp_all add: holds_def)

lemma holdsD: "holds P (f w) \<Longrightarrow> f w = Ret a w' \<Longrightarrow> P a w'"
  by simp

definition and_then :: "('a, 'w) outcome \<Rightarrow> ('a \<Rightarrow> 'w \<Rightarrow> ('b, 'w) outcome) \<Rightarrow> ('b, 'w) outcome" where
  "and_then r k = (case r of Ret a w \<Rightarrow> k a w | Halt h w \<Rightarrow> Halt h w)"

lemma and_then_simps [simp]:
  "and_then (Ret a w) k = k a w" "and_then (Halt h w) k = Halt h w"
  by (simp_all add: and_then_def)

lemma holds_and_then [keeps_intros]:
  "holds (\<lambda>a w. holds P (k a w)) r \<Longrightarrow> holds P (and_then r k)"
  by (cases r) simp_all

end
