(* ===== verification/Ptrace_Utils.thy ===== *)
theory Ptrace_Utils
  imports Grail_Prelude
begin

text \<open>
  \<^verbatim>\<open>src/model/ptrace-utils.h\<close>: the status codes of the handlers, register access, the
  argument readers, the word-wise copies between the simulator and the traced process, and
  the loop that resumes the tracee until its next system-call stop.

  The tracee is a record of registers per thread, one address space (the threads of a traced
  process share it) and \<open>ext\<close>, everything outside the program: the kernel's and the
  simulation library's state. What a resumed tracee does until its next stop is the
  parameter \<open>k_wait\<close>; the amd64 word size and the bit layout of a wait status are the
  platform's.
\<close>

section \<open>Status codes and registers\<close>

datatype sysc = SYSC_SUCCESS | SYSC_ERROR | SYSC_SYSTEM_EXIT | SYSC_DELAYED | SYSC_FAILURE
  | SYSC_MANUAL

fun sysc_code :: "sysc \<Rightarrow> nat" where
  "sysc_code SYSC_SUCCESS = 0x1"
| "sysc_code SYSC_ERROR = 0x2"
| "sysc_code SYSC_SYSTEM_EXIT = 0x4"
| "sysc_code SYSC_DELAYED = 0x8"
| "sysc_code SYSC_FAILURE = 0x10"
| "sysc_code SYSC_MANUAL = 0x20"

datatype reg = RAX | ORIG_RAX | RDI | RSI | RDX | R10 | R8 | R9

record 'x tracee =
  regs :: "pid \<Rightarrow> reg \<Rightarrow> 64 word"
  mem :: memory
  ext :: 'x

definition get_reg :: "pid \<Rightarrow> reg \<Rightarrow> 'x tracee \<Rightarrow> 64 word" where
  "get_reg p r t = regs t p r"

definition set_reg :: "pid \<Rightarrow> reg \<Rightarrow> 64 word \<Rightarrow> 'x tracee \<Rightarrow> 'x tracee" where
  "set_reg p r v t = t\<lparr>regs := (regs t)(p := (regs t p)(r := v))\<rparr>"

lemma get_set_reg [simp]:
  "get_reg p r (set_reg q s v t) = (if p = q \<and> r = s then v else get_reg p r t)"
  by (simp add: get_reg_def set_reg_def)

lemma set_reg_frame [simp]: "mem (set_reg p r v t) = mem t" "ext (set_reg p r v t) = ext t"
  by (simp_all add: set_reg_def)

text \<open>
  \<open>read_args\<close> is a template over the argument position: position \<open>Ctx\<close> reads its register
  and recurses to \<open>Ctx + 1\<close>; beyond the sixth there is no instance.
\<close>

fun arg_reg :: "nat \<Rightarrow> reg option" where
  "arg_reg n = (if n = 1 then Some RDI else if n = 2 then Some RSI else if n = 3 then Some RDX
     else if n = 4 then Some R10 else if n = 5 then Some R8 else if n = 6 then Some R9 else None)"

fun ReadArgs :: "nat \<Rightarrow> nat \<Rightarrow> pid \<Rightarrow> 'x tracee \<Rightarrow> 64 word list option" where
  "ReadArgs ctx 0 p t = Some []"
| "ReadArgs ctx (Suc k) p t =
     (case arg_reg ctx of
        None \<Rightarrow> None
      | Some r \<Rightarrow> map_option ((#) (get_reg p r t)) (ReadArgs (Suc ctx) k p t))"

text \<open>The arguments the handlers read, one by one.\<close>

definition arg :: "nat \<Rightarrow> pid \<Rightarrow> 'x tracee \<Rightarrow> 64 word" where
  "arg n p t = (case arg_reg n of Some r \<Rightarrow> get_reg p r t | None \<Rightarrow> 0)"

lemma ReadArgs_arg:
  "ctx + k \<le> 7 \<Longrightarrow> 0 < ctx \<Longrightarrow>
   ReadArgs ctx k p t = Some (map (\<lambda>i. arg i p t) [ctx..<ctx + k])"
proof (induction k arbitrary: ctx)
  case 0
  then show ?case by simp
next
  case (Suc k)
  from Suc.prems have r: "arg_reg ctx \<noteq> None" by auto
  have "ReadArgs (Suc ctx) k p t = Some (map (\<lambda>i. arg i p t) [Suc ctx..<Suc ctx + k])"
    using Suc.prems by (intro Suc.IH) simp_all
  moreover have "[ctx..<ctx + Suc k] = ctx # [Suc ctx..<Suc ctx + k]"
    by (simp add: upt_conv_Cons)
  ultimately show ?case using r
    by (auto simp add: arg_def simp del: arg_reg.simps split: option.splits)
qed

section \<open>ALIGN\<close>

definition WORDSIZE :: nat where
  "WORDSIZE = 8"

definition ALIGN_SIZE :: "64 word \<Rightarrow> 64 word \<Rightarrow> 64 word" where
  "ALIGN_SIZE sizeToAlign PowerOfTwo = (sizeToAlign + PowerOfTwo - 1) AND NOT (PowerOfTwo - 1)"

definition ALIGN :: "64 word \<Rightarrow> 64 word" where
  "ALIGN sizeToAlign = ALIGN_SIZE sizeToAlign (of_nat WORDSIZE)"

definition IS_SIZE_ALIGNED :: "64 word \<Rightarrow> 64 word \<Rightarrow> bool" where
  "IS_SIZE_ALIGNED sizeToTest PowerOfTwo \<longleftrightarrow> sizeToTest AND (PowerOfTwo - 1) = 0"

text \<open>The same rounding on natural numbers.\<close>

definition round8 :: "nat \<Rightarrow> nat" where
  "round8 n = (n + 7) div 8 * 8"

lemma round8_bounds: "n \<le> round8 n" "round8 n < n + 8"
  unfolding round8_def by arith+

lemma round8_dvd: "8 dvd round8 n"
  by (simp add: round8_def)

lemma round8_fix: "8 dvd n \<Longrightarrow> round8 n = n"
  unfolding round8_def by presburger

lemma round8_step: "round8 (n + 8) = round8 n + 8"
  unfolding round8_def by arith

lemma and_not_7: "unat (x AND NOT 7 :: 64 word) = unat x div 8 * 8"
proof -
  have seven: "(7 :: 64 word) = mask 3"
    by (simp add: mask_eq_exp_minus_1)
  have "x AND NOT 7 = push_bit 3 (drop_bit 3 x)"
    unfolding seven by (rule bit_word_eqI) (auto simp add: bit_simps)
  then have "unat (x AND NOT 7) = unat (push_bit 3 (drop_bit 3 x))" by simp
  also have "\<dots> = push_bit 3 (drop_bit 3 (unat x))"
  proof -
    have "push_bit 3 (drop_bit 3 (unat x)) \<le> unat x"
      by (simp add: push_bit_eq_mult drop_bit_eq_div)
    then have "push_bit 3 (drop_bit 3 (unat x)) < 2 ^ 64"
      by (rule le_less_trans) simp
    then show ?thesis
      by (simp add: unsigned_push_bit_eq unsigned_drop_bit_eq take_bit_eq_mod)
  qed
  finally show ?thesis by (simp add: push_bit_eq_mult drop_bit_eq_div)
qed


lemma ALIGN_unfold: "ALIGN x = (x + 7) AND NOT 7"
  by (simp add: ALIGN_def ALIGN_SIZE_def WORDSIZE_def algebra_simps)

lemma unat_ALIGN:
  assumes "unat x \<le> 2 ^ 64 - 8"
  shows "unat (ALIGN x) = round8 (unat x)"
proof -
  have "unat (x + 7) = unat x + 7"
    using assms by (subst unat_word_ariths) simp
  then show ?thesis unfolding ALIGN_unfold and_not_7 round8_def by simp
qed

section \<open>Peeking and poking words\<close>

text \<open>
  \<open>PTRACE_PEEKDATA\<close> and \<open>PTRACE_POKEDATA\<close> transfer one word; \<open>None\<close> is the failure that
  sets \<open>errno\<close>, for which \<open>ptrace\<close> returns -1.
\<close>

definition PEEKDATA :: "memory \<Rightarrow> addr \<Rightarrow> 64 word option" where
  "PEEKDATA m a = (if mapped m a WORDSIZE then Some (bytes_word (fetch m a WORDSIZE)) else None)"

definition POKEDATA :: "memory \<Rightarrow> addr \<Rightarrow> 64 word \<Rightarrow> memory option" where
  "POKEDATA m a v = (if mapped m a WORDSIZE then Some (store m a (word_bytes v)) else None)"

definition peek_result :: "64 word option \<Rightarrow> 64 word" where
  "peek_result r = (case r of Some v \<Rightarrow> v | None \<Rightarrow> - 1)"

section \<open>MemcpyFromTracee\<close>

text \<open>
  The buffer is filled from its start, so it is the list of the bytes written so far. The
  result of the peek is used without a look at \<open>errno\<close>.
\<close>

function MemcpyFromTracee_loop ::
  "memory \<Rightarrow> addr \<Rightarrow> nat \<Rightarrow> nat \<Rightarrow> byte list \<Rightarrow> byte list \<times> nat" where
  "MemcpyFromTracee_loop m src len i to =
     (if i < len then
        let tmp = peek_result (PEEKDATA m (src + of_nat i)) in
        MemcpyFromTracee_loop m src len (i + WORDSIZE)
          (to @ (if i + WORDSIZE \<le> len then word_bytes tmp
                 else take (len mod WORDSIZE) (word_bytes tmp)))
      else (to, i))"
  by pat_completeness auto
termination
  by (relation "measure (\<lambda>(m, src, len, i, to). len - i)") (auto simp: WORDSIZE_def)

declare MemcpyFromTracee_loop.simps [simp del]

definition MemcpyFromTracee :: "memory \<Rightarrow> addr \<Rightarrow> nat \<Rightarrow> byte list \<times> nat" where
  "MemcpyFromTracee m src len = MemcpyFromTracee_loop m src len 0 []"

abbreviation copy_in :: "memory \<Rightarrow> addr \<Rightarrow> nat \<Rightarrow> byte list" where
  "copy_in m src len \<equiv> fst (MemcpyFromTracee m src len)"

lemma div8_eq: "8 * k \<le> n \<Longrightarrow> n < 8 * Suc k \<Longrightarrow> n div 8 = (k::nat)"
  by (intro div_nat_eqI) (simp_all add: mult.commute)

lemma len_mod_tail:
  assumes "8 dvd i" and "i < len" and "\<not> i + 8 \<le> len"
  shows "len mod 8 = len - (i::nat)"
proof -
  from assms(1) obtain k where k: "i = 8 * k" by (elim dvdE)
  then have "len div 8 = k" using assms by (intro div8_eq) simp_all
  then show ?thesis using k by (simp add: modulo_nat_def mult.commute)
qed

lemma round8_tail:
  assumes "8 dvd i" and "i < len" and "\<not> i + 8 \<le> len"
  shows "round8 len = i + (8::nat)"
proof -
  from assms(1) obtain k where k: "i = 8 * k" by (elim dvdE)
  then have "(len + 7) div 8 = Suc k" using assms by (intro div8_eq) simp_all
  then show ?thesis using k by (simp add: round8_def)
qed

lemma round8_ge_word:
  assumes "8 dvd i" and "i < len"
  shows "i + 8 \<le> round8 (len::nat)"
proof -
  from assms(1) obtain k where k: "i = 8 * k" by (elim dvdE)
  then have "Suc k \<le> (len + 7) div 8"
    using assms by (subst less_eq_div_iff_mult_less_eq) simp_all
  then have "Suc k * 8 \<le> (len + 7) div 8 * 8" by (rule mult_le_mono1)
  then show ?thesis using k by (simp add: round8_def)
qed

lemma round8_le:
  assumes "8 dvd i" and "len \<le> i"
  shows "round8 (len::nat) \<le> i"
proof -
  from assms(1) obtain k where k: "i = 8 * k" by (elim dvdE)
  then have "(len + 7) div 8 < Suc k"
    using assms by (subst div_less_iff_less_mult) simp_all
  then have "(len + 7) div 8 * 8 \<le> k * 8" by (intro mult_le_mono1) simp
  then show ?thesis using k by (simp add: round8_def)
qed

lemma MemcpyFromTracee_loop_mapped:
  assumes "8 dvd i" and "mapped m src (round8 len)"
  shows "MemcpyFromTracee_loop m src len i to = (to @ drop i (fetch m src len), max i (round8 len))"
  using assms
proof (induction m src len i to rule: MemcpyFromTracee_loop.induct)
  case (1 m src len i to)
  show ?case
  proof (cases "i < len")
    case False
    then have "round8 len \<le> i" using "1.prems"(1) by (simp add: round8_le)
    then show ?thesis using False by (simp add: MemcpyFromTracee_loop.simps [of m src len i to])
  next
    case True
    let ?rest = "fetch m (src + of_nat i) 8"
    define chunk where "chunk = (if i + 8 \<le> len then ?rest else take (len mod 8) ?rest)"
    have ge: "i + 8 \<le> round8 len" using "1.prems"(1) True by (rule round8_ge_word)
    then have mp: "mapped m (src + of_nat i) 8"
      using "1.prems"(2) mapped_le mapped_add by metis
    then have tmp: "word_bytes (peek_result (PEEKDATA m (src + of_nat i))) = ?rest"
      by (simp add: PEEKDATA_def peek_result_def WORDSIZE_def word_bytes_bytes_word)
    have split: "drop i (fetch m src len) = chunk @ drop (i + 8) (fetch m src len)"
    proof (cases "i + 8 \<le> len")
      case True
      then have "fetch m src len = fetch m src i @ ?rest @ fetch m (src + of_nat (i + 8)) (len - (i + 8))"
        using fetch_append [of m src i "8 + (len - (i + 8))"]
          fetch_append [of m "src + of_nat i" 8 "len - (i + 8)"]
        by (simp add: add.assoc)
      then show ?thesis using True by (simp add: chunk_def)
    next
      case False
      then have k: "len mod 8 = len - i" using "1.prems"(1) \<open>i < len\<close> by (intro len_mod_tail)
      have "fetch m src len = fetch m src i @ fetch m (src + of_nat i) (len - i)"
        using fetch_append [of m src i "len - i"] \<open>i < len\<close> by simp
      then show ?thesis using False k by (simp add: take_fetch chunk_def)
    qed
    have "MemcpyFromTracee_loop m src len i to = MemcpyFromTracee_loop m src len (i + 8) (to @ chunk)"
      using True tmp
      by (simp add: MemcpyFromTracee_loop.simps [of m src len i to] Let_def WORDSIZE_def chunk_def)
    also have "\<dots> = ((to @ chunk) @ drop (i + 8) (fetch m src len), max (i + 8) (round8 len))"
      using "1.IH" [OF True refl, unfolded tmp WORDSIZE_def, folded chunk_def] "1.prems" by simp
    finally show ?thesis using ge unfolding split by simp
  qed
qed

lemma MemcpyFromTracee_mapped:
  "mapped m src (round8 len) \<Longrightarrow> MemcpyFromTracee m src len = (fetch m src len, round8 len)"
  by (simp add: MemcpyFromTracee_def MemcpyFromTracee_loop_mapped)


text \<open>An unmapped word reads as -1: the copy goes on with bytes of value 255.\<close>

lemma word_bytes_minus_one: "word_bytes (- 1) = replicate 8 255"
proof -
  have "replicate 8 (255 :: byte) = [255, 255, 255, 255, 255, 255, 255, 255]"
    by (simp add: eval_nat_numeral)
  then have "le_nat (replicate 8 255) = 2 ^ 64 - 1" by simp
  then have "bytes_word (replicate 8 255) = - 1" by (simp add: bytes_word_def)
  then show ?thesis by (metis length_replicate word_bytes_bytes_word)
qed

section \<open>MemcpyToTracee\<close>

text \<open>
  \<open>None\<close> is the \<open>exit(1)\<close> of the error branches. The last, partial word is read, overlaid
  and written back.
\<close>

function MemcpyToTracee_loop :: "memory \<Rightarrow> addr \<Rightarrow> byte list \<Rightarrow> nat \<Rightarrow> (memory \<times> nat) option" where
  "MemcpyToTracee_loop m to bs i =
     (if i < length bs then
        if i + WORDSIZE \<le> length bs then
          (case POKEDATA m (to + of_nat i) (bytes_word (take WORDSIZE (drop i bs))) of
             None \<Rightarrow> None
           | Some m' \<Rightarrow> MemcpyToTracee_loop m' to bs (i + WORDSIZE))
        else
          (case PEEKDATA m (to + of_nat i) of
             None \<Rightarrow> None
           | Some tmp \<Rightarrow>
               (case POKEDATA m (to + of_nat i)
                       (bytes_word (take (length bs mod WORDSIZE) (drop i bs)
                          @ drop (length bs mod WORDSIZE) (word_bytes tmp))) of
                  None \<Rightarrow> None
                | Some m' \<Rightarrow> MemcpyToTracee_loop m' to bs (i + WORDSIZE)))
      else Some (m, i))"
  by pat_completeness auto
termination
  by (relation "measure (\<lambda>(m, to, bs, i). length bs - i)") (auto simp: WORDSIZE_def)

declare MemcpyToTracee_loop.simps [simp del]

definition MemcpyToTracee :: "memory \<Rightarrow> addr \<Rightarrow> byte list \<Rightarrow> (memory \<times> nat) option" where
  "MemcpyToTracee m to bs = MemcpyToTracee_loop m to bs 0"

definition copy_out :: "memory \<Rightarrow> addr \<Rightarrow> byte list \<Rightarrow> memory option" where
  "copy_out m to bs = map_option fst (MemcpyToTracee m to bs)"

lemma store_None_iff:
  assumes "mapped m a (length bs)"
  shows "store m a bs x = None \<longleftrightarrow> m x = None"
proof (cases "unat (x - a) < length bs")
  case True
  then have "m (a + of_nat (unat (x - a))) \<noteq> None" using assms unfolding mapped_iff by blast
  then have "m x \<noteq> None" by simp
  then show ?thesis using True by (simp add: store_def)
qed (simp add: store_def)

lemma mapped_store_iff: "mapped m a (length bs) \<Longrightarrow> mapped (store m a bs) b n = mapped m b n"
  by (simp add: mapped_iff store_None_iff)

lemma POKE_overlay:
  assumes "mapped m a 8" and "length bs = k" and "k \<le> 8"
  shows "POKEDATA m a (bytes_word (bs @ drop k (word_bytes (bytes_word (fetch m a 8)))))
    = Some (store m a bs)"
  using assms store_fetch_overlay [of m a 8 k bs]
  by (simp add: POKEDATA_def WORDSIZE_def word_bytes_bytes_word)

lemma take_drop_split: "take k (drop i xs) @ drop (i + k) xs = drop i xs"
  by (metis add.commute append_take_drop_id drop_drop)

text \<open>A whole word of the buffer, and the partial word at its end.\<close>

lemma POKE_word:
  "mapped m a 8 \<Longrightarrow> length c = 8 \<Longrightarrow> POKEDATA m a (bytes_word c) = Some (store m a c)"
  by (simp add: POKEDATA_def WORDSIZE_def word_bytes_bytes_word)

lemma store_word_rest:
  assumes "i + 8 \<le> length bs" and "length bs < 2 ^ 63"
  shows "store (store m (to + of_nat i) (take 8 (drop i bs))) (to + of_nat (i + 8)) (drop (i + 8) bs)
    = store m (to + of_nat i) (drop i bs)"
  using store_append [of "take 8 (drop i bs)" "drop (i + 8) bs" m "to + of_nat i"] assms
  by (simp add: add.assoc take_drop_split)

lemma MemcpyToTracee_tail:
  assumes "8 dvd i" and "i < length bs" and "\<not> i + 8 \<le> length bs" and "mapped m (to + of_nat i) 8"
  shows "MemcpyToTracee_loop m to bs i = Some (store m (to + of_nat i) (drop i bs), i + 8)"
proof -
  let ?a = "to + of_nat i" and ?k = "length bs mod 8"
  let ?tmp = "bytes_word (fetch m ?a 8)"
  have k: "?k = length bs - i" using assms(1-3) by (rule len_mod_tail)
  then have c: "take ?k (drop i bs) = drop i bs" by simp
  have peek: "PEEKDATA m ?a = Some ?tmp" using assms(4) by (simp add: PEEKDATA_def WORDSIZE_def)
  have poke: "POKEDATA m ?a (bytes_word (take ?k (drop i bs) @ drop ?k (word_bytes ?tmp)))
      = Some (store m ?a (drop i bs))"
    unfolding c using POKE_overlay [OF assms(4), of "drop i bs" ?k] k assms(2,3) by simp
  have "MemcpyToTracee_loop m to bs i = MemcpyToTracee_loop (store m ?a (drop i bs)) to bs (i + 8)"
    using assms(2,3) peek poke by (simp add: MemcpyToTracee_loop.simps [of m to bs i] WORDSIZE_def)
  also have "\<dots> = Some (store m ?a (drop i bs), i + 8)"
    using assms(3) by (simp add: MemcpyToTracee_loop.simps)
  finally show ?thesis .
qed

lemma MemcpyToTracee_loop_eq:
  assumes "8 dvd i" and "i \<le> round8 (length bs)" and "length bs < 2 ^ 63"
  shows "MemcpyToTracee_loop m to bs i =
    (if mapped m (to + of_nat i) (round8 (length bs) - i)
     then Some (store m (to + of_nat i) (drop i bs), round8 (length bs)) else None)"
  using assms
proof (induction m to bs i rule: MemcpyToTracee_loop.induct)
  case (1 m to bs i)
  let ?a = "to + of_nat i" and ?n = "round8 (length bs)" and ?c = "take 8 (drop i bs)"
  consider (finished) "\<not> i < length bs" | (unmapped) "i < length bs" "\<not> mapped m ?a 8"
    | (word) "i + 8 \<le> length bs" "mapped m ?a 8"
    | (tail) "i < length bs" "\<not> i + 8 \<le> length bs" "mapped m ?a 8" by linarith
  then show ?case
  proof cases
    case finished
    then have "?n \<le> i" using "1.prems"(1) by (intro round8_le) simp_all
    with "1.prems"(2) have "?n = i" by simp
    then show ?thesis using finished by (simp add: MemcpyToTracee_loop.simps [of m to bs i])
  next
    case unmapped
    have "i + 8 \<le> ?n" using "1.prems"(1) unmapped(1) by (rule round8_ge_word)
    then have "8 \<le> ?n - i" by simp
    then have "\<not> mapped m ?a (?n - i)" using unmapped(2) mapped_le by blast
    then show ?thesis using unmapped
      by (simp add: MemcpyToTracee_loop.simps [of m to bs i] PEEKDATA_def POKEDATA_def WORDSIZE_def)
  next
    case word
    then have i: "i < length bs" and len: "length ?c = 8" by simp_all
    have ge: "i + 8 \<le> ?n" using "1.prems"(1) i by (rule round8_ge_word)
    have poke: "POKEDATA m ?a (bytes_word ?c) = Some (store m ?a ?c)" using word(2) len by (rule POKE_word)
    have dvd: "8 dvd i + 8" using "1.prems"(1) by simp
    have a8: "?a + of_nat 8 = to + of_nat (i + 8)" by (simp add: add.assoc)
    have "mapped m ?a (8 + (?n - (i + 8))) = mapped m (to + of_nat (i + 8)) (?n - (i + 8))"
      unfolding mapped_add a8 using word(2) by simp
    then have mp: "mapped m ?a (?n - i) = mapped (store m ?a ?c) (to + of_nat (i + 8)) (?n - (i + 8))"
      using ge word(2) len by (simp add: mapped_store_iff)
    have "MemcpyToTracee_loop m to bs i = MemcpyToTracee_loop (store m ?a ?c) to bs (i + 8)"
      using i word(1) poke by (simp add: MemcpyToTracee_loop.simps [of m to bs i] WORDSIZE_def)
    also have "\<dots> = (if mapped (store m ?a ?c) (to + of_nat (i + 8)) (?n - (i + 8))
        then Some (store (store m ?a ?c) (to + of_nat (i + 8)) (drop (i + 8) bs), ?n) else None)"
      by (rule "1.IH"(1) [OF i, unfolded WORDSIZE_def, OF word(1) poke dvd ge "1.prems"(3)])
    finally show ?thesis unfolding mp store_word_rest [OF word(1) "1.prems"(3)] .
  next
    case tail
    have "?n = i + 8" using "1.prems"(1) tail(1,2) by (rule round8_tail)
    then show ?thesis using MemcpyToTracee_tail [OF "1.prems"(1) tail] tail(3) by simp
  qed
qed

lemma MemcpyToTracee_eq:
  "length bs < 2 ^ 63 \<Longrightarrow> MemcpyToTracee m to bs =
    (if mapped m to (round8 (length bs)) then Some (store m to bs, round8 (length bs)) else None)"
  unfolding MemcpyToTracee_def by (subst MemcpyToTracee_loop_eq) simp_all

lemma copy_out_eq:
  "length bs < 2 ^ 63 \<Longrightarrow> copy_out m to bs =
    (if mapped m to (round8 (length bs)) then Some (store m to bs) else None)"
  by (simp add: copy_out_def MemcpyToTracee_eq)


section \<open>The copy interface\<close>

text \<open>
  What the users of the two copies rely on, as laws over the byte view: reading a mapped
  region returns its bytes, writing overlays exactly the given bytes, and fails when a word
  of the region is not mapped. Everything a handler needs of its results follows once, here.
\<close>

definition apart :: "addr \<Rightarrow> nat \<Rightarrow> addr \<Rightarrow> nat \<Rightarrow> bool" where
  "apart a k b n \<longleftrightarrow> list_all (\<lambda>i. k \<le> unat (b + of_nat i - a)) [0..<n]"

locale tracee_copy =
  fixes cin :: "memory \<Rightarrow> addr \<Rightarrow> nat \<Rightarrow> byte list"
    and cout :: "memory \<Rightarrow> addr \<Rightarrow> byte list \<Rightarrow> memory option"
  assumes cin_mapped: "mapped m a (round8 n) \<Longrightarrow> cin m a n = fetch m a n"
    and cout_spec: "length bs < 2 ^ 63 \<Longrightarrow>
      cout m a bs = (if mapped m a (round8 (length bs)) then Some (store m a bs) else None)"
begin

lemma cout_SomeD:
  assumes "length bs < 2 ^ 63" and "cout m a bs = Some m'"
  shows "mapped m a (round8 (length bs))" and "m' = store m a bs"
  using assms by (auto simp: cout_spec split: if_splits)

lemma mapped_region:
  assumes "length bs < 2 ^ 63" and "cout m a bs = Some m'"
  shows "mapped m a (length bs)"
  using cout_SomeD(1) [OF assms] mapped_le round8_bounds(1) by blast

lemma keeps_mapped:
  assumes "length bs < 2 ^ 63" and "cout m a bs = Some m'"
  shows "mapped m' b n = mapped m b n"
  using mapped_store_iff [OF mapped_region [OF assms]] cout_SomeD(2) [OF assms] by simp

lemma round_trip:
  assumes "length bs < 2 ^ 63" and "cout m a bs = Some m'"
  shows "cin m' a (length bs) = bs"
proof -
  have "mapped m' a (round8 (length bs))"
    using keeps_mapped [OF assms] cout_SomeD(1) [OF assms] by simp
  then have "cin m' a (length bs) = fetch (store m a bs) a (length bs)"
    using cin_mapped cout_SomeD(2) [OF assms] by simp
  then show ?thesis using fetch_store assms(1) by simp
qed

lemma outside:
  assumes "length bs < 2 ^ 63" and "cout m a bs = Some m'" and "length bs \<le> unat (x - a)"
  shows "m' x = m x"
  using assms(3) cout_SomeD(2) [OF assms(1,2)] by (simp add: store_outside)

lemma other_region:
  assumes "length bs < 2 ^ 63" and "cout m a bs = Some m'"
    and "mapped m b (round8 n)" and "apart a (length bs) b n"
  shows "cin m' b n = cin m b n"
proof -
  have "mapped m' b (round8 n)" using keeps_mapped [OF assms(1,2)] assms(3) by simp
  then have "cin m' b n = fetch m' b n" by (rule cin_mapped)
  also have "\<dots> = fetch m b n"
  proof (rule nth_equalityI)
    fix i assume "i < length (fetch m' b n)"
    then have i: "i < n" by simp
    then have "length bs \<le> unat (b + of_nat i - a)"
      using assms(4) unfolding apart_def list_all_iff by simp
    then have "m' (b + of_nat i) = m (b + of_nat i)" by (rule outside [OF assms(1,2)])
    with i show "fetch m' b n ! i = fetch m b n ! i" by simp
  qed simp
  finally show ?thesis using cin_mapped [OF assms(3)] by simp
qed

text \<open>Two results written one after the other are both there afterwards.\<close>

lemma two_writes:
  assumes "length xs < 2 ^ 63" and "length ys < 2 ^ 63"
    and "cout m a xs = Some m1" and "cout m1 b ys = Some m2"
    and "apart b (length ys) a (length xs)"
  shows "cin m2 a (length xs) = xs \<and> cin m2 b (length ys) = ys"
proof
  have "mapped m1 a (round8 (length xs))"
    using cout_SomeD(1) [OF assms(1,3)] keeps_mapped [OF assms(1,3)] by simp
  then have "cin m2 a (length xs) = cin m1 a (length xs)"
    using other_region [OF assms(2,4)] assms(5) by blast
  then show "cin m2 a (length xs) = xs" using round_trip [OF assms(1,3)] by simp
  show "cin m2 b (length ys) = ys" by (rule round_trip [OF assms(2,4)])
qed

end

interpretation tc: tracee_copy copy_in copy_out
  by unfold_locales (simp_all add: MemcpyFromTracee_mapped copy_out_eq)

text \<open>\<open>LoadFromTracee\<close> and \<open>StoreToTracee\<close> do nothing on a null pointer.\<close>

definition LoadFromTracee :: "memory \<Rightarrow> byte list \<Rightarrow> addr \<Rightarrow> byte list" where
  "LoadFromTracee m to src = (if src = 0 then to else copy_in m src (length to))"

definition StoreToTracee :: "memory \<Rightarrow> byte list \<Rightarrow> addr \<Rightarrow> memory option" where
  "StoreToTracee m src to = (if to = 0 then Some m else copy_out m to src)"

section \<open>Waiting for the next system-call stop\<close>

definition WIFSTOPPED :: "32 word \<Rightarrow> bool" where
  "WIFSTOPPED st \<longleftrightarrow> st AND 0xff = 0x7f"

definition WSTOPSIG :: "32 word \<Rightarrow> 32 word" where
  "WSTOPSIG st = drop_bit 8 st AND 0xff"

definition WIFEXITED :: "32 word \<Rightarrow> bool" where
  "WIFEXITED st \<longleftrightarrow> st AND 0x7f = 0"

text \<open>\<open>SIGTRAP | 0x80\<close>: the stop signal that \<open>PTRACE_O_TRACESYSGOOD\<close> gives system-call stops.\<close>

definition syscall_stop :: "32 word \<Rightarrow> bool" where
  "syscall_stop st \<longleftrightarrow> WIFSTOPPED st \<and> WSTOPSIG st = 0x85"

text \<open>
  \<open>k_wait p t\<close>: \<open>ptrace(PTRACE_SYSCALL, p, 0, 0)\<close> followed by \<open>waitpid(p, &status, 0)\<close>, the
  tracee having run up to its next stop; \<open>None\<close> is a failing \<open>waitpid\<close>, which leaves
  \<open>status\<close> as it was. \<open>k_junk\<close> is the content of the uninitialised \<open>status\<close>.
\<close>

record 'x kernel =
  k_wait :: "pid \<Rightarrow> 'x tracee \<Rightarrow> 32 word option \<times> 'x tracee"
  k_junk :: "32 word"

definition wait_once :: "('x, 'm) kernel_scheme \<Rightarrow> pid \<Rightarrow> 32 word \<times> 'x tracee \<Rightarrow> 32 word \<times> 'x tracee" where
  "wait_once K p s =
     (case k_wait K p (snd s) of (r, t) \<Rightarrow> (case r of None \<Rightarrow> fst s | Some v \<Rightarrow> v, t))"

text \<open>The \<open>while (1)\<close> loop: \<open>None\<close> if it never returns.\<close>

partial_function (option) wait_loop ::
  "('x, 'm) kernel_scheme \<Rightarrow> pid \<Rightarrow> 32 word \<times> 'x tracee \<Rightarrow> (nat \<times> 'x tracee) option" where
  "wait_loop K p s =
     (let s' = wait_once K p s in
      if syscall_stop (fst s') then Some (0, snd s')
      else if WIFEXITED (fst s') then Some (1, snd s')
      else wait_loop K p s')"

definition WaitForSyscall ::
  "('x, 'm) kernel_scheme \<Rightarrow> pid \<Rightarrow> 'x tracee \<Rightarrow> (nat \<times> 'x tracee) option" where
  "WaitForSyscall K p t = wait_loop K p (k_junk K, t)"

definition wait_done :: "32 word \<Rightarrow> bool" where
  "wait_done st \<longleftrightarrow> syscall_stop st \<or> WIFEXITED st"

lemma wait_loop_done:
  "wait_done (fst (wait_once K p s)) \<Longrightarrow>
   wait_loop K p s = Some (if syscall_stop (fst (wait_once K p s)) then 0 else 1, snd (wait_once K p s))"
  by (auto simp: wait_loop.simps [of K p s] wait_done_def Let_def)

lemma wait_loop_again:
  "\<not> wait_done (fst (wait_once K p s)) \<Longrightarrow> wait_loop K p s = wait_loop K p (wait_once K p s)"
  by (auto simp: wait_loop.simps [of K p s] wait_done_def Let_def)

lemma wait_loop_after:
  "(\<forall>i<n. \<not> wait_done (fst ((wait_once K p ^^ Suc i) s))) \<Longrightarrow>
   wait_loop K p s = wait_loop K p ((wait_once K p ^^ n) s)"
proof (induction n)
  case 0
  then show ?case by simp
next
  case (Suc n)
  then have "wait_loop K p s = wait_loop K p ((wait_once K p ^^ n) s)" by simp
  also have "\<dots> = wait_loop K p (wait_once K p ((wait_once K p ^^ n) s))"
    using Suc.prems by (intro wait_loop_again) (simp add: funpow_swap1)
  finally show ?case by simp
qed

lemma wait_loop_Some:
  fixes K :: "('x, 'm) kernel_scheme"
  assumes "wait_loop K p s = Some r"
  shows "\<exists>n. wait_done (fst ((wait_once K p ^^ Suc n) s))"
proof (rule wait_loop.raw_induct
    [where P = "\<lambda>K p s r. \<exists>n. wait_done (fst ((wait_once K p ^^ Suc n) s))", OF _ assms])
  fix f :: "('x, 'm) kernel_scheme \<Rightarrow> pid \<Rightarrow> 32 word \<times> 'x tracee \<Rightarrow> (nat \<times> 'x tracee) option"
    and K :: "('x, 'm) kernel_scheme" and p s r
  assume IH: "\<And>K p s r. f K p s = Some r \<Longrightarrow> \<exists>n. wait_done (fst ((wait_once K p ^^ Suc n) s))"
    and eq: "(let s' = wait_once K p s in
      if syscall_stop (fst s') then Some (0, snd s')
      else if WIFEXITED (fst s') then Some (1, snd s') else f K p s') = Some r"
  show "\<exists>n. wait_done (fst ((wait_once K p ^^ Suc n) s))"
  proof (cases "wait_done (fst (wait_once K p s))")
    case True
    then have "wait_done (fst ((wait_once K p ^^ Suc 0) s))" by simp
    then show ?thesis by (rule exI)
  next
    case False
    with eq have "f K p (wait_once K p s) = Some r" by (auto simp: Let_def wait_done_def)
    then obtain n where "wait_done (fst ((wait_once K p ^^ Suc n) (wait_once K p s)))"
      using IH by blast
    then have "wait_done (fst ((wait_once K p ^^ Suc (Suc n)) s))" by (simp add: funpow_swap1)
    then show ?thesis by (rule exI)
  qed
qed


text \<open>
  The loop returns exactly when, after some stops that are neither, there is a system-call
  stop or an exit; then it returns 0 or 1 for that one.
\<close>

lemma wait_loop_returns_iff:
  "wait_loop K p s \<noteq> None \<longleftrightarrow> (\<exists>n. wait_done (fst ((wait_once K p ^^ Suc n) s)))"
proof
  assume "wait_loop K p s \<noteq> None"
  then show "\<exists>n. wait_done (fst ((wait_once K p ^^ Suc n) s))" using wait_loop_Some by blast
next
  assume "\<exists>n. wait_done (fst ((wait_once K p ^^ Suc n) s))"
  then obtain n where n: "wait_done (fst ((wait_once K p ^^ Suc n) s))"
    and least: "\<And>i. i < n \<Longrightarrow> \<not> wait_done (fst ((wait_once K p ^^ Suc i) s))"
    using exists_least_iff [of "\<lambda>n. wait_done (fst ((wait_once K p ^^ Suc n) s))"] by blast
  from least have "wait_loop K p s = wait_loop K p ((wait_once K p ^^ n) s)"
    by (intro wait_loop_after) blast
  then show "wait_loop K p s \<noteq> None" using n by (simp add: wait_loop_done funpow_swap1)
qed

lemma wait_loop_result:
  assumes "wait_loop K p s = Some (r, t)"
  shows "\<exists>n st. (wait_once K p ^^ Suc n) s = (st, t) \<and> wait_done st \<and>
    r = (if syscall_stop st then 0 else 1) \<and>
    (\<forall>i<n. \<not> wait_done (fst ((wait_once K p ^^ Suc i) s)))"
proof -
  have "\<exists>n. wait_done (fst ((wait_once K p ^^ Suc n) s))"
    using assms wait_loop_Some by blast
  then obtain n where n: "wait_done (fst ((wait_once K p ^^ Suc n) s))"
    and least: "\<And>i. i < n \<Longrightarrow> \<not> wait_done (fst ((wait_once K p ^^ Suc i) s))"
    using exists_least_iff [of "\<lambda>n. wait_done (fst ((wait_once K p ^^ Suc n) s))"] by blast
  let ?e = "(wait_once K p ^^ Suc n) s"
  from least have "wait_loop K p s = wait_loop K p ((wait_once K p ^^ n) s)"
    by (intro wait_loop_after) blast
  also have "\<dots> = Some (if syscall_stop (fst ?e) then 0 else 1, snd ?e)"
    using n wait_loop_done [of K p "(wait_once K p ^^ n) s"] by simp
  finally have "r = (if syscall_stop (fst ?e) then 0 else 1)" and "t = snd ?e"
    using assms by simp_all
  then show ?thesis using n least by (intro exI [of _ n] exI [of _ "fst ?e"]) auto
qed

text \<open>The exit code of the status is not looked at, and the tracee's registers are not touched.\<close>

lemma WaitForSyscall_range: "WaitForSyscall K p t = Some (r, t') \<Longrightarrow> r = 0 \<or> r = 1"
  unfolding WaitForSyscall_def by (drule wait_loop_result) (auto split: if_splits)


section \<open>Properties\<close>

text \<open>A scripted kernel for concrete runs: the statuses of the coming stops, one by one.\<close>

definition script_kernel :: "32 word list kernel" where
  "script_kernel = \<lparr>k_wait = (\<lambda>p t. case ext t of
     [] \<Rightarrow> (None, t) | s # ss \<Rightarrow> (Some s, t\<lparr>ext := ss\<rparr>)), k_junk = 0x7f\<rparr>"

definition demo_mem :: memory where
  "demo_mem = (\<lambda>x. if x < 64 then Some 0 else None)"

definition demo_tracee :: "32 word list \<Rightarrow> 32 word list tracee" where
  "demo_tracee ss = \<lparr>regs = (\<lambda>_ _. 0), mem = demo_mem, ext = ss\<rparr>"

text \<open>
  (C10) The word-wise copy into the tracee, partial last word included, is the byte-wise
  overlay of the buffer; it succeeds exactly when every word it touches is mapped, and then
  reports the length rounded up to whole words.
\<close>

theorem MemcpyToTracee_refines_store:
  assumes "length bs < 2 ^ 63"
  shows "MemcpyToTracee m to bs =
    (if mapped m to (round8 (length bs)) then Some (store m to bs, round8 (length bs)) else None)"
  using assms by (rule MemcpyToTracee_eq)

theorem MemcpyToTracee_refines_store_witness:
  "MemcpyToTracee demo_mem 8 [1, 2, 3] = Some (store demo_mem 8 [1, 2, 3], 8) \<and>
   MemcpyToTracee demo_mem 60 [1, 2, 3] = None"
  using MemcpyToTracee_refines_store [of "[1, 2, 3]" demo_mem 8]
    MemcpyToTracee_refines_store [of "[1, 2, 3]" demo_mem 60]
  by (simp add: round8_def mapped_def demo_mem_def upt_rec)

text \<open>
  Round trip of the copies: what was written is what a read of the same region returns,
  and no byte outside the written range has changed.
\<close>

theorem MemcpyToTracee_round_trip:
  assumes "length bs < 2 ^ 63" and "MemcpyToTracee m to bs = Some (m', n)"
  shows "fst (MemcpyFromTracee m' to (length bs)) = bs \<and>
    (\<forall>x. length bs \<le> unat (x - to) \<longrightarrow> m' x = m x)"
proof
  from assms(2) have out: "copy_out m to bs = Some m'" by (simp add: copy_out_def)
  show "copy_in m' to (length bs) = bs" by (rule tc.round_trip [OF assms(1) out])
  show "\<forall>x. length bs \<le> unat (x - to) \<longrightarrow> m' x = m x"
    using tc.outside [OF assms(1) out] by blast
qed

theorem MemcpyToTracee_round_trip_witness:
  "fst (MemcpyFromTracee (store demo_mem 8 [1, 2, 3]) 8 (length [1, 2, 3 :: byte])) = [1, 2, 3]"
proof -
  have out: "MemcpyToTracee demo_mem 8 [1, 2, 3] = Some (store demo_mem 8 [1, 2, 3], 8)"
    by (simp add: MemcpyToTracee_eq round8_def mapped_def demo_mem_def upt_rec)
  have "length [1, 2, 3 :: byte] < 2 ^ 63" by simp
  from MemcpyToTracee_round_trip [OF this out] show ?thesis by (rule conjunct1)
qed

text \<open>
  A read whose words are all unmapped does not fail: every byte of the buffer becomes
  255, the -1 of the failed peek.
\<close>

theorem MemcpyFromTracee_unmapped:
  assumes "\<forall>i<len. \<not> mapped m (src + of_nat i) 8"
  shows "fst (MemcpyFromTracee m src len) = replicate len 255"
proof -
  have "fst (MemcpyFromTracee_loop m src len i to) = to @ replicate (len - i) 255"
    if "8 dvd i" for i to
    using assms that
  proof (induction m src len i to rule: MemcpyFromTracee_loop.induct)
    case (1 m src len i to)
    show ?case
    proof (cases "i < len")
      case False
      then show ?thesis by (simp add: MemcpyFromTracee_loop.simps [of m src len i to])
    next
      case True
      define chunk :: "byte list" where "chunk = replicate (min 8 (len - i)) 255"
      have tmp: "word_bytes (peek_result (PEEKDATA m (src + of_nat i))) = replicate 8 255"
        using "1.prems" True
        by (simp add: PEEKDATA_def peek_result_def WORDSIZE_def word_bytes_minus_one)
      have c: "(if i + 8 \<le> len then replicate 8 255 else take (len mod 8) (replicate 8 255)) = chunk"
        using len_mod_tail [OF "1.prems"(2) True] by (auto simp: chunk_def min_def)
      have "chunk @ replicate (len - (i + 8)) 255 = replicate (len - i) 255"
        by (simp add: chunk_def min_def flip: replicate_add)
      moreover have "MemcpyFromTracee_loop m src len i to
          = MemcpyFromTracee_loop m src len (i + 8) (to @ chunk)"
        by (simp only: MemcpyFromTracee_loop.simps [of m src len i to] Let_def WORDSIZE_def
            True if_True tmp c)
      ultimately show ?thesis
        using "1.IH" [OF True refl, unfolded tmp WORDSIZE_def c] "1.prems" by simp
    qed
  qed
  then show ?thesis by (simp add: MemcpyFromTracee_def)
qed

theorem MemcpyFromTracee_unmapped_witness:
  "fst (MemcpyFromTracee demo_mem 100 2) = [255, 255]"
proof -
  have "\<forall>i<2. \<not> mapped demo_mem (100 + of_nat i) 8"
    by (auto simp: mapped_def demo_mem_def upt_rec less_2_cases_iff)
  from MemcpyFromTracee_unmapped [OF this] show ?thesis by (simp add: eval_nat_numeral)
qed

definition nth_stop ::
  "('x, 'm) kernel_scheme \<Rightarrow> pid \<Rightarrow> 'x tracee \<Rightarrow> nat \<Rightarrow> 32 word \<times> 'x tracee" where
  "nth_stop K p t n = (wait_once K p ^^ Suc n) (k_junk K, t)"

text \<open>
  (C20) \<open>WaitForSyscall\<close> ignores every stop that is neither a system-call stop nor an exit
  (signals among them) and returns at the first that is one: 0 for a system-call stop, 1 for
  an exit. It returns if and only if such a stop comes.
\<close>

theorem WaitForSyscall_first_stop:
  "(\<exists>r. WaitForSyscall K p t = Some r) = (\<exists>n. wait_done (fst (nth_stop K p t n))) \<and>
    (case WaitForSyscall K p t of
       None \<Rightarrow> True
     | Some (r, t') \<Rightarrow> \<exists>n st. nth_stop K p t n = (st, t') \<and> wait_done st \<and>
         r = (if syscall_stop st then 0 else 1) \<and> (\<forall>i<n. \<not> wait_done (fst (nth_stop K p t i))))"
proof
  show "(\<exists>r. WaitForSyscall K p t = Some r) = (\<exists>n. wait_done (fst (nth_stop K p t n)))"
    unfolding nth_stop_def WaitForSyscall_def
    using wait_loop_returns_iff [of K p "(k_junk K, t)"] by (simp only: not_None_eq)
  show "case WaitForSyscall K p t of None \<Rightarrow> True
     | Some (r, t') \<Rightarrow> \<exists>n st. nth_stop K p t n = (st, t') \<and> wait_done st \<and>
         r = (if syscall_stop st then 0 else 1) \<and> (\<forall>i<n. \<not> wait_done (fst (nth_stop K p t i)))"
  proof (cases "WaitForSyscall K p t")
    case (Some a)
    moreover obtain r t' where a: "a = (r, t')" by (cases a)
    ultimately have "wait_loop K p (k_junk K, t) = Some (r, t')" by (simp add: WaitForSyscall_def)
    then show ?thesis unfolding Some a nth_stop_def option.case prod.case by (rule wait_loop_result)
  qed simp
qed

theorem WaitForSyscall_first_stop_witness:
  "\<exists>r. WaitForSyscall script_kernel 1 (demo_tracee [0x137f, 0x857f]) = Some r"
proof -
  have "wait_done (fst (nth_stop script_kernel 1 (demo_tracee [0x137f, 0x857f]) 1))"
    by (simp add: nth_stop_def wait_once_def script_kernel_def demo_tracee_def wait_done_def
        syscall_stop_def WIFSTOPPED_def WSTOPSIG_def)
  then show ?thesis
    using WaitForSyscall_first_stop [of script_kernel 1 "demo_tracee [0x137f, 0x857f]"] by blast
qed

text \<open>
  (C39) A tracee that is killed by a signal: \<open>waitpid\<close> reports it once, and from then on fails.
  The status is neither a stop nor an exit, it is not overwritten any more, and the loop
  never returns: the simulator hangs.
\<close>

theorem WaitForSyscall_killed_hangs:
  assumes "k_wait K p t = (Some st, u')" and "\<not> wait_done st"
    and "u' \<in> dead" and "\<forall>u\<in>dead. fst (k_wait K p u) = None \<and> snd (k_wait K p u) \<in> dead"
  shows "WaitForSyscall K p t = None"
proof -
  let ?s = "(wait_once K p ^^ Suc 0) (k_junk K, t)"
  have stay: "fst ((wait_once K p ^^ Suc n) (k_junk K, t)) = st \<and>
      snd ((wait_once K p ^^ Suc n) (k_junk K, t)) \<in> dead" for n
  proof (induction n)
    case 0
    then show ?case using assms(1,3) by (simp add: wait_once_def)
  next
    case (Suc n)
    then show ?case using assms(4) by (auto simp: wait_once_def split: prod.splits)
  qed
  have "\<not> (\<exists>n. wait_done (fst ((wait_once K p ^^ Suc n) (k_junk K, t))))"
    using stay assms(2) by metis
  then show ?thesis
    unfolding WaitForSyscall_def using wait_loop_returns_iff [of K p "(k_junk K, t)"] by blast
qed

theorem WaitForSyscall_killed_hangs_witness:
  "WaitForSyscall script_kernel 1 (demo_tracee [0x000b]) = None"
  by (rule WaitForSyscall_killed_hangs [where st = "0x000b" and u' = "demo_tracee []"
        and dead = "{demo_tracee []}"])
    (simp_all add: script_kernel_def demo_tracee_def wait_done_def syscall_stop_def WIFSTOPPED_def
      WIFEXITED_def)

end
