(* ===== verification/Platform.thy ===== *)
theory Platform
  imports Grail_Prelude
begin

text \<open>
  The constants of the Linux/amd64 platform that the program names (the program refuses to
  compile elsewhere): system-call numbers, error numbers, and the option, flag and request
  values of the socket, file, \<open>ioctl\<close> and netlink interfaces.
\<close>

section \<open>System-call numbers\<close>

abbreviation (input) SYS_read :: int where "SYS_read \<equiv> 0"
abbreviation (input) SYS_write :: int where "SYS_write \<equiv> 1"
abbreviation (input) SYS_open :: int where "SYS_open \<equiv> 2"
abbreviation (input) SYS_close :: int where "SYS_close \<equiv> 3"
abbreviation (input) SYS_stat :: int where "SYS_stat \<equiv> 4"
abbreviation (input) SYS_fstat :: int where "SYS_fstat \<equiv> 5"
abbreviation (input) SYS_poll :: int where "SYS_poll \<equiv> 7"
abbreviation (input) SYS_lseek :: int where "SYS_lseek \<equiv> 8"
abbreviation (input) SYS_mmap :: int where "SYS_mmap \<equiv> 9"
abbreviation (input) SYS_mprotect :: int where "SYS_mprotect \<equiv> 10"
abbreviation (input) SYS_munmap :: int where "SYS_munmap \<equiv> 11"
abbreviation (input) SYS_brk :: int where "SYS_brk \<equiv> 12"
abbreviation (input) SYS_rt_sigaction :: int where "SYS_rt_sigaction \<equiv> 13"
abbreviation (input) SYS_rt_sigprocmask :: int where "SYS_rt_sigprocmask \<equiv> 14"
abbreviation (input) SYS_ioctl :: int where "SYS_ioctl \<equiv> 16"
abbreviation (input) SYS_access :: int where "SYS_access \<equiv> 21"
abbreviation (input) SYS_select :: int where "SYS_select \<equiv> 23"
abbreviation (input) SYS_madvise :: int where "SYS_madvise \<equiv> 28"
abbreviation (input) SYS_dup :: int where "SYS_dup \<equiv> 32"
abbreviation (input) SYS_nanosleep :: int where "SYS_nanosleep \<equiv> 35"
abbreviation (input) SYS_alarm :: int where "SYS_alarm \<equiv> 37"
abbreviation (input) SYS_getpid :: int where "SYS_getpid \<equiv> 39"
abbreviation (input) SYS_socket :: int where "SYS_socket \<equiv> 41"
abbreviation (input) SYS_connect :: int where "SYS_connect \<equiv> 42"
abbreviation (input) SYS_accept :: int where "SYS_accept \<equiv> 43"
abbreviation (input) SYS_sendto :: int where "SYS_sendto \<equiv> 44"
abbreviation (input) SYS_recvfrom :: int where "SYS_recvfrom \<equiv> 45"
abbreviation (input) SYS_sendmsg :: int where "SYS_sendmsg \<equiv> 46"
abbreviation (input) SYS_recvmsg :: int where "SYS_recvmsg \<equiv> 47"
abbreviation (input) SYS_bind :: int where "SYS_bind \<equiv> 49"
abbreviation (input) SYS_listen :: int where "SYS_listen \<equiv> 50"
abbreviation (input) SYS_getsockname :: int where "SYS_getsockname \<equiv> 51"
abbreviation (input) SYS_getpeername :: int where "SYS_getpeername \<equiv> 52"
abbreviation (input) SYS_setsockopt :: int where "SYS_setsockopt \<equiv> 54"
abbreviation (input) SYS_getsockopt :: int where "SYS_getsockopt \<equiv> 55"
abbreviation (input) SYS_clone :: int where "SYS_clone \<equiv> 56"
abbreviation (input) SYS_execve :: int where "SYS_execve \<equiv> 59"
abbreviation (input) SYS_exit :: int where "SYS_exit \<equiv> 60"
abbreviation (input) SYS_uname :: int where "SYS_uname \<equiv> 63"
abbreviation (input) SYS_fcntl :: int where "SYS_fcntl \<equiv> 72"
abbreviation (input) SYS_ftruncate :: int where "SYS_ftruncate \<equiv> 77"
abbreviation (input) SYS_getcwd :: int where "SYS_getcwd \<equiv> 79"
abbreviation (input) SYS_unlink :: int where "SYS_unlink \<equiv> 87"
abbreviation (input) SYS_readlink :: int where "SYS_readlink \<equiv> 89"
abbreviation (input) SYS_umask :: int where "SYS_umask \<equiv> 95"
abbreviation (input) SYS_gettimeofday :: int where "SYS_gettimeofday \<equiv> 96"
abbreviation (input) SYS_getrlimit :: int where "SYS_getrlimit \<equiv> 97"
abbreviation (input) SYS_getrusage :: int where "SYS_getrusage \<equiv> 98"
abbreviation (input) SYS_getuid :: int where "SYS_getuid \<equiv> 102"
abbreviation (input) SYS_getgid :: int where "SYS_getgid \<equiv> 104"
abbreviation (input) SYS_geteuid :: int where "SYS_geteuid \<equiv> 107"
abbreviation (input) SYS_getegid :: int where "SYS_getegid \<equiv> 108"
abbreviation (input) SYS_arch_prctl :: int where "SYS_arch_prctl \<equiv> 158"
abbreviation (input) SYS_gettid :: int where "SYS_gettid \<equiv> 186"
abbreviation (input) SYS_readahead :: int where "SYS_readahead \<equiv> 187"
abbreviation (input) SYS_time :: int where "SYS_time \<equiv> 201"
abbreviation (input) SYS_futex :: int where "SYS_futex \<equiv> 202"
abbreviation (input) SYS_set_tid_address :: int where "SYS_set_tid_address \<equiv> 218"
abbreviation (input) SYS_clock_gettime :: int where "SYS_clock_gettime \<equiv> 228"
abbreviation (input) SYS_clock_getres :: int where "SYS_clock_getres \<equiv> 229"
abbreviation (input) SYS_exit_group :: int where "SYS_exit_group \<equiv> 231"
abbreviation (input) SYS_tgkill :: int where "SYS_tgkill \<equiv> 234"
abbreviation (input) SYS_openat :: int where "SYS_openat \<equiv> 257"
abbreviation (input) SYS_set_robust_list :: int where "SYS_set_robust_list \<equiv> 273"
abbreviation (input) SYS_get_robust_list :: int where "SYS_get_robust_list \<equiv> 274"
abbreviation (input) SYS_pipe2 :: int where "SYS_pipe2 \<equiv> 293"
abbreviation (input) SYS_prlimit64 :: int where "SYS_prlimit64 \<equiv> 302"
abbreviation (input) SYS_getrandom :: int where "SYS_getrandom \<equiv> 318"

section \<open>Error numbers\<close>

abbreviation (input) EWOULDBLOCK :: int where "EWOULDBLOCK \<equiv> 11"
abbreviation (input) EPROTOTYPE :: int where "EPROTOTYPE \<equiv> 91"
abbreviation (input) ENOPROTOOPT :: int where "ENOPROTOOPT \<equiv> 92"
abbreviation (input) EPROTONOSUPPORT :: int where "EPROTONOSUPPORT \<equiv> 93"
abbreviation (input) EOPNOTSUPP :: int where "EOPNOTSUPP \<equiv> 95"
abbreviation (input) EAFNOSUPPORT :: int where "EAFNOSUPPORT \<equiv> 97"

section \<open>Sockets, files and clocks\<close>

abbreviation (input) AF_INET :: int where "AF_INET \<equiv> 2"
abbreviation (input) AF_NETLINK :: int where "AF_NETLINK \<equiv> 16"
abbreviation (input) SOCK_STREAM :: int where "SOCK_STREAM \<equiv> 1"
abbreviation (input) SOCK_DGRAM :: int where "SOCK_DGRAM \<equiv> 2"
abbreviation (input) SOCK_RAW :: int where "SOCK_RAW \<equiv> 3"
abbreviation (input) NETLINK_ROUTE :: int where "NETLINK_ROUTE \<equiv> 0"
abbreviation (input) SOL_SOCKET :: int where "SOL_SOCKET \<equiv> 1"
abbreviation (input) IPPROTO_IP :: int where "IPPROTO_IP \<equiv> 0"
abbreviation (input) IPPROTO_TCP :: int where "IPPROTO_TCP \<equiv> 6"
abbreviation (input) SO_REUSEADDR :: int where "SO_REUSEADDR \<equiv> 2"
abbreviation (input) SO_BROADCAST :: int where "SO_BROADCAST \<equiv> 6"
abbreviation (input) SO_SNDBUF :: int where "SO_SNDBUF \<equiv> 7"
abbreviation (input) SO_RCVBUF :: int where "SO_RCVBUF \<equiv> 8"
abbreviation (input) SO_PRIORITY :: int where "SO_PRIORITY \<equiv> 12"
abbreviation (input) SO_BINDTODEVICE :: int where "SO_BINDTODEVICE \<equiv> 25"
abbreviation (input) IP_TOS :: int where "IP_TOS \<equiv> 1"
abbreviation (input) TCP_MAXSEG :: int where "TCP_MAXSEG \<equiv> 2"
abbreviation (input) TCP_INFO :: int where "TCP_INFO \<equiv> 11"
abbreviation (input) TCP_CONGESTION :: int where "TCP_CONGESTION \<equiv> 13"
abbreviation (input) MSG_DONTROUTE :: int where "MSG_DONTROUTE \<equiv> 4"
abbreviation (input) F_GETFL :: int where "F_GETFL \<equiv> 3"
abbreviation (input) F_SETFL :: int where "F_SETFL \<equiv> 4"
abbreviation (input) O_NONBLOCK :: int where "O_NONBLOCK \<equiv> 2048"
abbreviation (input) CLOCK_PROCESS_CPUTIME_ID :: int where "CLOCK_PROCESS_CPUTIME_ID \<equiv> 2"
abbreviation (input) CLOCK_THREAD_CPUTIME_ID :: int where "CLOCK_THREAD_CPUTIME_ID \<equiv> 3"
abbreviation (input) FUTEX_WAIT :: int where "FUTEX_WAIT \<equiv> 0"
abbreviation (input) FUTEX_WAIT_PRIVATE :: int where "FUTEX_WAIT_PRIVATE \<equiv> 128"
abbreviation (input) GRND_NONBLOCK :: "32 word" where "GRND_NONBLOCK \<equiv> 1"
abbreviation (input) GRND_RANDOM :: "32 word" where "GRND_RANDOM \<equiv> 2"
abbreviation (input) CLONE_PTRACE :: "64 word" where "CLONE_PTRACE \<equiv> 0x2000"

section \<open>Netlink\<close>

abbreviation (input) RTM_NEWLINK :: nat where "RTM_NEWLINK \<equiv> 16"
abbreviation (input) RTM_GETLINK :: nat where "RTM_GETLINK \<equiv> 18"
abbreviation (input) RTM_NEWADDR :: nat where "RTM_NEWADDR \<equiv> 20"
abbreviation (input) RTM_GETADDR :: nat where "RTM_GETADDR \<equiv> 22"
abbreviation (input) RTM_NEWROUTE :: nat where "RTM_NEWROUTE \<equiv> 24"
abbreviation (input) RTM_DELROUTE :: nat where "RTM_DELROUTE \<equiv> 25"
abbreviation (input) NLMSG_ERROR :: nat where "NLMSG_ERROR \<equiv> 2"
abbreviation (input) NLMSG_DONE :: nat where "NLMSG_DONE \<equiv> 3"
abbreviation (input) NLM_F_MULTI :: nat where "NLM_F_MULTI \<equiv> 2"
abbreviation (input) NLM_F_ACK :: nat where "NLM_F_ACK \<equiv> 4"
abbreviation (input) IFLA_IFNAME :: nat where "IFLA_IFNAME \<equiv> 3"
abbreviation (input) IFA_ADDRESS :: nat where "IFA_ADDRESS \<equiv> 1"
abbreviation (input) RT_SCOPE_HOST :: nat where "RT_SCOPE_HOST \<equiv> 254"
abbreviation (input) RTA_DST :: nat where "RTA_DST \<equiv> 1"
abbreviation (input) RTA_SRC :: nat where "RTA_SRC \<equiv> 2"
abbreviation (input) RTA_IIF :: nat where "RTA_IIF \<equiv> 3"
abbreviation (input) RTA_OIF :: nat where "RTA_OIF \<equiv> 4"
abbreviation (input) RTA_GATEWAY :: nat where "RTA_GATEWAY \<equiv> 5"
abbreviation (input) RTA_PRIORITY :: nat where "RTA_PRIORITY \<equiv> 6"
abbreviation (input) NLM_F_ROOT :: "32 word" where "NLM_F_ROOT \<equiv> 256"
abbreviation (input) RTM_F_NOTIFY :: "32 word" where "RTM_F_NOTIFY \<equiv> 256"

end
