(* ===== verification/Poll_Detector.thy ===== *)
theory Poll_Detector
  imports Platform
begin

text \<open>
  \<^verbatim>\<open>src/model/poll-detector.h\<close>: the heuristic that finds polling loops and the delay it puts
  between their system calls. \<open>PollLoopDetector\<close> is a template over a detection and a
  backoff strategy: its contract with the two is the locale \<open>poll_loop\<close>, interpreted on the
  strategies the program instantiates it with. Times are in nanoseconds.
\<close>

section \<open>The two strategies\<close>

definition qualifies :: "int \<Rightarrow> bool" where
  "qualifies syscall \<longleftrightarrow>
     (if syscall = SYS_gettimeofday then True
      else if syscall = SYS_select then True
      else if syscall = SYS_futex then True
      else False)"

text \<open>\<open>SimpleGettimeofdaySelectLoopDetector\<close>: its state is \<open>previousCallQualified\<close>.\<close>

definition detect :: "bool \<Rightarrow> pid \<Rightarrow> int \<Rightarrow> bool \<times> bool" where
  "detect previousCallQualified p syscall =
     (let thisCallQualifies = qualifies syscall
      in (previousCallQualified \<and> thisCallQualifies, thisCallQualifies))"

text \<open>\<open>ExponentialBackoffStrategy\<close>: its state is the 32-bit counter \<open>pollSteps\<close>.\<close>

definition backoff_GetDelay :: "32 word \<Rightarrow> nat" where
  "backoff_GetDelay pollSteps =
     (if pollSteps = 0 then 0 else max 1 (min (2 ^ unat pollSteps) 10000) * 100)"

definition backoff :: "32 word \<Rightarrow> bool \<Rightarrow> nat \<times> 32 word" where
  "backoff pollSteps inLoop =
     (if \<not> inLoop then (backoff_GetDelay 0, 0)
      else (backoff_GetDelay (pollSteps + 1), pollSteps + 1))"

section \<open>PollLoopDetector\<close>

definition HandleSystemCall ::
  "('d \<Rightarrow> pid \<Rightarrow> int \<Rightarrow> bool \<times> 'd) \<Rightarrow> ('s \<Rightarrow> bool \<Rightarrow> nat \<times> 's) \<Rightarrow> 'd \<times> 's \<Rightarrow> pid \<Rightarrow> int
   \<Rightarrow> nat \<times> ('d \<times> 's)" where
  "HandleSystemCall detector strategy st p syscall =
     (case detector (fst st) p syscall of (isInPollLoop, d) \<Rightarrow>
        (case strategy (snd st) isInPollLoop of (delay, s) \<Rightarrow> (delay, (d, s))))"

fun HandleSystemCalls ::
  "('d \<Rightarrow> pid \<Rightarrow> int \<Rightarrow> bool \<times> 'd) \<Rightarrow> ('s \<Rightarrow> bool \<Rightarrow> nat \<times> 's) \<Rightarrow> 'd \<times> 's \<Rightarrow> (pid \<times> int) list
   \<Rightarrow> 'd \<times> 's" where
  "HandleSystemCalls detector strategy st [] = st"
| "HandleSystemCalls detector strategy st ((p, c) # cs) =
     HandleSystemCalls detector strategy (snd (HandleSystemCall detector strategy st p c)) cs"

text \<open>
  The contract: the backoff reports its own \<open>GetDelay\<close>, is zero outside loops and never
  exceeds its maximum; the detector says \<open>loop\<close> only for two qualifying calls in a row.
\<close>

locale poll_loop =
  fixes detector :: "'d \<Rightarrow> pid \<Rightarrow> int \<Rightarrow> bool \<times> 'd"
    and strategy :: "'s \<Rightarrow> bool \<Rightarrow> nat \<times> 's"
    and delay_of :: "'s \<Rightarrow> nat"
    and polls :: "int \<Rightarrow> bool"
    and limit :: nat
  assumes reports: "fst (strategy s b) = delay_of (snd (strategy s b))"
    and calm: "fst (strategy s False) = 0"
    and bounded: "delay_of s \<le> limit"
    and not_polling: "\<not> polls c \<Longrightarrow> \<not> fst (detector d p c)"
    and after_calm: "\<not> polls c \<Longrightarrow> \<not> fst (detector (snd (detector d p c)) q c')"
begin

lemma delay_reported:
  "fst (HandleSystemCall detector strategy st p c) =
   delay_of (snd (snd (HandleSystemCall detector strategy st p c)))"
  by (simp add: HandleSystemCall_def reports split: prod.splits) (metis fst_conv reports snd_conv)

lemma delay_bounded: "fst (HandleSystemCall detector strategy st p c) \<le> limit"
  unfolding delay_reported by (rule bounded)

lemma no_delay_outside_polls:
  assumes "\<not> polls c"
  shows "fst (HandleSystemCall detector strategy st p c) = 0"
  using not_polling [OF assms, of "fst st" p] calm
  by (auto simp: HandleSystemCall_def split: prod.splits) (metis fst_conv)

lemma no_delay_after_calm:
  assumes "\<not> polls c"
  shows "fst (HandleSystemCall detector strategy
    (snd (HandleSystemCall detector strategy st p c)) q c') = 0"
proof -
  have "fst (snd (HandleSystemCall detector strategy st p c)) = snd (detector (fst st) p c)"
    by (simp add: HandleSystemCall_def split: prod.splits)
  then have "\<not> fst (detector (fst (snd (HandleSystemCall detector strategy st p c))) q c')"
    using after_calm [OF assms] by simp
  then show ?thesis using calm
    by (auto simp: HandleSystemCall_def [of detector strategy "snd _"] split: prod.splits)
      (metis fst_conv)
qed

end

lemma backoff_bounded: "backoff_GetDelay s \<le> 1000000"
  by (simp add: backoff_GetDelay_def)

interpretation pd: poll_loop detect backoff backoff_GetDelay qualifies 1000000
  by unfold_locales
    (auto simp: backoff_def detect_def Let_def backoff_bounded backoff_GetDelay_def)

text \<open>The detector the program declares: \<open>PollLoopDetector\<close> over these two.\<close>

type_synonym poll_state = "bool \<times> 32 word"

abbreviation poll_handle :: "poll_state \<Rightarrow> pid \<Rightarrow> int \<Rightarrow> nat \<times> poll_state" where
  "poll_handle \<equiv> HandleSystemCall detect backoff"

abbreviation poll_run :: "poll_state \<Rightarrow> (pid \<times> int) list \<Rightarrow> poll_state" where
  "poll_run \<equiv> HandleSystemCalls detect backoff"

definition poll_init :: poll_state where
  "poll_init = (False, 0)"

definition PollLoopDetector_GetDelay :: "poll_state \<Rightarrow> nat" where
  "PollLoopDetector_GetDelay st = backoff_GetDelay (snd st)"

section \<open>Runs\<close>

lemma poll_run_append: "poll_run st (xs @ ys) = poll_run (poll_run st xs) ys"
proof (induction xs arbitrary: st)
  case (Cons x xs)
  then show ?case by (cases x) simp
qed simp

lemma poll_handle_state: "snd (poll_handle st p c) =
    (qualifies c, if fst st \<and> qualifies c then snd st + 1 else 0)"
  by (cases st) (simp add: HandleSystemCall_def detect_def backoff_def Let_def)

lemma poll_run_polls:
  "list_all (\<lambda>(p, c). qualifies c) cs \<Longrightarrow>
   poll_run (True, s) cs = (True, s + of_nat (length cs))"
proof (induction cs arbitrary: s)
  case Nil
  then show ?case by simp
next
  case (Cons pc cs)
  obtain p c where pc: "pc = (p, c)" by (cases pc)
  with Cons.prems have "qualifies c" "list_all (\<lambda>(p, c). qualifies c) cs" by simp_all
  then show ?case using Cons.IH [of "s + 1"] by (simp add: pc poll_handle_state algebra_simps)
qed

lemma poll_run_step: "poll_run st [(p, c)] = snd (poll_handle st p c)"
  by simp

lemma backoff_closed_form:
  assumes "n < 2 ^ 32"
  shows "backoff_GetDelay (of_nat n) = (if n = 0 then 0 else min (2 ^ n) 10000 * 100)"
proof -
  have u: "unat (of_nat n :: 32 word) = n" using assms by (simp add: unat_of_nat)
  then have "(of_nat n :: 32 word) = 0 \<longleftrightarrow> n = 0"
    using unsigned_eq_0_iff [of "of_nat n :: 32 word", where 'a = nat] by (simp only: u)
  moreover have "max 1 (min (2 ^ n) 10000) = min (2 ^ n) (10000 :: nat)"
    by (simp add: max_def min_def)
  ultimately show ?thesis by (simp add: backoff_GetDelay_def u)
qed

section \<open>Properties\<close>



text \<open>
  Whatever the calls, the delay is at most one millisecond, equals what the last call
  was given, and is zero after a call that does not poll.
\<close>

theorem poll_delay_bounds:
  "PollLoopDetector_GetDelay (poll_run st cs) \<le> 1000000 \<and>
   PollLoopDetector_GetDelay (snd (poll_handle st p c)) = fst (poll_handle st p c) \<and>
   (qualifies c \<or> fst (poll_handle st p c) = 0)"
  using pd.delay_reported [of st p c] pd.no_delay_outside_polls [of c st p]
  by (cases "qualifies c") (simp_all add: PollLoopDetector_GetDelay_def backoff_bounded)

text \<open>
  (C34) The step counter has 32 bits: with 2^32 polls after the first one, without a break,
  it is zero again, and the delay falls from one millisecond to nothing.
\<close>

theorem poll_counter_wraps:
  assumes "list_all (\<lambda>(p, c). qualifies c) polls" and "length polls = 2 ^ 32"
  shows "PollLoopDetector_GetDelay (poll_run (True, 0) (butlast polls)) = 1000000 \<and>
    PollLoopDetector_GetDelay (poll_run (True, 0) polls) = 0"
proof -
  have "list_all (\<lambda>(p, c). qualifies c) (butlast polls)"
    using assms(1) by (auto simp: list_all_iff dest: in_set_butlastD)
  then have last: "poll_run (True, 0) (butlast polls) = (True, - 1)"
    using assms(2) by (simp add: poll_run_polls)
  have wrap: "poll_run (True, 0) polls = (True, 0)"
    using poll_run_polls [OF assms(1), of 0] assms(2) by simp
  have "(14::nat) \<le> unat (- 1 :: 32 word)"
    by (simp add: unsigned_minus_1_eq_mask mask_eq_exp_minus_1)
  then have "(2::nat) ^ 14 \<le> 2 ^ unat (- 1 :: 32 word)"
    by (rule power_increasing) simp
  then have "min (2 ^ unat (- 1 :: 32 word)) (10000 :: nat) = 10000" by (simp add: min_def)
  then show ?thesis
    unfolding last wrap by (simp add: PollLoopDetector_GetDelay_def backoff_GetDelay_def)
qed

theorem poll_counter_wraps_witness:
  "PollLoopDetector_GetDelay (poll_run (True, 0) (replicate (2 ^ 32) (1, SYS_select))) = 0"
  using poll_counter_wraps [of "replicate (2 ^ 32) (1, SYS_select)"]
  by (simp add: qualifies_def list_all_iff)

end
