(* ===== verification/Route.thy ===== *)
theory Route
  imports Grail_Prelude
begin

text \<open>
  \<^verbatim>\<open>src/model/route.h\<close> and \<^verbatim>\<open>src/model/route.cc\<close>: the routing table of the application and
  the routing decisions taken from it. The simulator's address classes and its IPv4 stack are
  parameters: \<open>net\<close> holds the mask constructor and \<open>IsMatch\<close>, \<open>ipv4\<close> the interfaces.

  The table keeps at most one entry per destination and prefix length; \<open>route_table\<close> is the
  contract of its two updates as operations on a finite map, which the lemmas about whole
  sequences of updates need.
\<close>

type_synonym ip = "32 word"

section \<open>RtEntry\<close>

record rt_entry =
  rt_dst :: ip
  rt_len :: "8 word"
  rt_gw :: ip

definition RtEntry :: "ip \<Rightarrow> 8 word \<Rightarrow> ip \<Rightarrow> rt_entry" where
  "RtEntry dst len gw = \<lparr>rt_dst = dst, rt_len = len, rt_gw = gw\<rparr>"

text \<open>\<open>operator==\<close>: the gateway does not count.\<close>

definition rt_equal :: "rt_entry \<Rightarrow> rt_entry \<Rightarrow> bool" where
  "rt_equal a b \<longleftrightarrow> rt_dst a = rt_dst b \<and> rt_len a = rt_len b"

section \<open>AddRoute and DelRoute\<close>

text \<open>\<open>std::find\<close> and \<open>erase\<close>: the first equal entry goes, if there is one.\<close>

fun find_erase :: "rt_entry \<Rightarrow> rt_entry list \<Rightarrow> rt_entry list" where
  "find_erase entry [] = []"
| "find_erase entry (e # es) = (if rt_equal e entry then es else e # find_erase entry es)"

definition AddRoute :: "ip \<Rightarrow> 8 word \<Rightarrow> ip \<Rightarrow> rt_entry list \<Rightarrow> rt_entry list" where
  "AddRoute dst len gw m_entries =
     (let entry = RtEntry dst len gw in find_erase entry m_entries @ [entry])"

definition DelRoute :: "ip \<Rightarrow> 8 word \<Rightarrow> ip \<Rightarrow> rt_entry list \<Rightarrow> rt_entry list" where
  "DelRoute dst len gw m_entries = (let entry = RtEntry dst len gw in find_erase entry m_entries)"

subsection \<open>The table as a map\<close>

definition rt_key :: "rt_entry \<Rightarrow> ip \<times> 8 word" where
  "rt_key e = (rt_dst e, rt_len e)"

definition rt_inv :: "rt_entry list \<Rightarrow> bool" where
  "rt_inv es \<longleftrightarrow> distinct (map rt_key es)"

definition rt_map :: "rt_entry list \<Rightarrow> (ip \<times> 8 word) \<rightharpoonup> ip" where
  "rt_map es = map_of (map (\<lambda>e. (rt_key e, rt_gw e)) es)"

lemma rt_equal_key: "rt_equal a b \<longleftrightarrow> rt_key a = rt_key b"
  by (auto simp: rt_equal_def rt_key_def)

lemma rt_key_RtEntry [simp]: "rt_key (RtEntry d l g) = (d, l)"
  and rt_gw_RtEntry [simp]: "rt_gw (RtEntry d l g) = g"
  by (simp_all add: rt_key_def RtEntry_def)

lemma set_find_erase: "set (find_erase e es) \<subseteq> set es"
  by (induction es) auto

lemma find_erase_filter:
  "rt_inv es \<Longrightarrow> find_erase e es = filter (\<lambda>x. rt_key x \<noteq> rt_key e) es"
proof (induction es)
  case Nil
  then show ?case by simp
next
  case (Cons a es)
  then have IH: "find_erase e es = filter (\<lambda>x. rt_key x \<noteq> rt_key e) es"
    by (simp add: rt_inv_def)
  show ?case
  proof (cases "rt_key a = rt_key e")
    case True
    then have "rt_key e \<notin> rt_key ` set es" using Cons.prems by (simp add: rt_inv_def)
    then have "\<forall>x\<in>set es. rt_key x \<noteq> rt_key e" by (metis image_eqI)
    then have "filter (\<lambda>x. rt_key x \<noteq> rt_key e) es = es" by (rule filter_True)
    then show ?thesis using True by (simp add: rt_equal_key)
  next
    case False
    then show ?thesis using IH by (simp add: rt_equal_key)
  qed
qed

lemma rt_inv_find_erase: "rt_inv es \<Longrightarrow> rt_inv (find_erase e es)"
  by (simp add: find_erase_filter) (simp add: rt_inv_def distinct_map_filter)

lemma rt_map_filter:
  "rt_map (filter (\<lambda>x. rt_key x \<noteq> k) es) = (rt_map es)(k := None)"
  by (induction es) (auto simp: rt_map_def)

lemma rt_map_append: "rt_map (xs @ ys) = rt_map ys ++ rt_map xs"
  by (simp add: rt_map_def)

lemma rt_map_single: "rt_map [RtEntry d l g] = [(d, l) \<mapsto> g]"
  by (simp add: rt_map_def)

lemma AddRoute_inv: "rt_inv es \<Longrightarrow> rt_inv (AddRoute d l g es)"
  unfolding AddRoute_def Let_def
  using rt_inv_find_erase [of es "RtEntry d l g"]
  by (auto simp: rt_inv_def find_erase_filter [unfolded rt_inv_def])

lemma AddRoute_map: "rt_inv es \<Longrightarrow> rt_map (AddRoute d l g es) = (rt_map es)((d, l) \<mapsto> g)"
  by (auto simp: AddRoute_def Let_def find_erase_filter rt_map_append rt_map_filter rt_map_single
      map_add_def fun_eq_iff split: option.splits)

lemma DelRoute_inv: "rt_inv es \<Longrightarrow> rt_inv (DelRoute d l g es)"
  by (simp add: DelRoute_def Let_def rt_inv_find_erase)

lemma DelRoute_map: "rt_inv es \<Longrightarrow> rt_map (DelRoute d l g es) = (rt_map es)((d, l) := None)"
  by (simp add: DelRoute_def Let_def find_erase_filter rt_map_filter)

section \<open>The update interface\<close>

datatype rt_op = OpAdd ip "8 word" ip | OpDel ip "8 word" ip

fun op_map :: "rt_op \<Rightarrow> ((ip \<times> 8 word) \<rightharpoonup> ip) \<Rightarrow> ((ip \<times> 8 word) \<rightharpoonup> ip)" where
  "op_map (OpAdd d l g) m = m((d, l) \<mapsto> g)"
| "op_map (OpDel d l g) m = m((d, l) := None)"

fun rt_apply :: "(ip \<Rightarrow> 8 word \<Rightarrow> ip \<Rightarrow> 't \<Rightarrow> 't) \<Rightarrow> (ip \<Rightarrow> 8 word \<Rightarrow> ip \<Rightarrow> 't \<Rightarrow> 't) \<Rightarrow> rt_op \<Rightarrow> 't \<Rightarrow> 't" where
  "rt_apply add del (OpAdd d l g) t = add d l g t"
| "rt_apply add del (OpDel d l g) t = del d l g t"

locale route_table =
  fixes empty :: 't
    and add :: "ip \<Rightarrow> 8 word \<Rightarrow> ip \<Rightarrow> 't \<Rightarrow> 't"
    and del :: "ip \<Rightarrow> 8 word \<Rightarrow> ip \<Rightarrow> 't \<Rightarrow> 't"
    and lookup :: "'t \<Rightarrow> (ip \<times> 8 word) \<rightharpoonup> ip"
    and inv :: "'t \<Rightarrow> bool"
  assumes inv_empty: "inv empty" and lookup_empty: "lookup empty = Map.empty"
    and inv_add: "inv t \<Longrightarrow> inv (add d l g t)"
    and lookup_add: "inv t \<Longrightarrow> lookup (add d l g t) = (lookup t)((d, l) \<mapsto> g)"
    and inv_del: "inv t \<Longrightarrow> inv (del d l g t)"
    and lookup_del: "inv t \<Longrightarrow> lookup (del d l g t) = (lookup t)((d, l) := None)"
begin

lemma apply_op: "inv t \<Longrightarrow> inv (rt_apply add del p t) \<and>
    lookup (rt_apply add del p t) = op_map p (lookup t)"
  by (cases p) (simp_all add: inv_add lookup_add inv_del lookup_del)

lemma apply_ops: "inv t \<Longrightarrow> inv (fold (rt_apply add del) ps t) \<and>
    lookup (fold (rt_apply add del) ps t) = fold op_map ps (lookup t)"
  by (induction ps arbitrary: t) (simp_all add: apply_op)

lemma ops_from_empty: "inv (fold (rt_apply add del) ps empty) \<and>
    lookup (fold (rt_apply add del) ps empty) = fold op_map ps Map.empty"
  using apply_ops [OF inv_empty, of ps] by (simp add: lookup_empty)

end

interpretation rt: route_table "[]" AddRoute DelRoute rt_map rt_inv
  by unfold_locales
    (simp_all add: AddRoute_inv AddRoute_map DelRoute_inv DelRoute_map, simp_all add: rt_inv_def rt_map_def)


section \<open>Routing decisions\<close>

record net =
  n_Ipv4Mask :: "string \<Rightarrow> 32 word"
  n_IsMatch :: "32 word \<Rightarrow> ip \<Rightarrow> ip \<Rightarrow> bool"

record ipv4 =
  GetNInterfaces :: nat
  GetNAddresses :: "nat \<Rightarrow> nat"
  GetLocal :: "nat \<Rightarrow> nat \<Rightarrow> ip"
  GetMask :: "nat \<Rightarrow> nat \<Rightarrow> 32 word"
  GetNetDevice :: "nat \<Rightarrow> nat"

record ipv4_route =
  r_destination :: ip
  r_gateway :: ip
  r_source :: ip
  r_device :: nat

definition rt_matches :: "net \<Rightarrow> ip \<Rightarrow> rt_entry \<Rightarrow> bool" where
  "rt_matches N dst rt =
     n_IsMatch N (n_Ipv4Mask N (''/'' @ to_string (unat (rt_len rt)))) (rt_dst rt) dst"

text \<open>The loop over the table: \<open>bestLen\<close> and \<open>finalRt\<close>.\<close>

fun best_entry :: "net \<Rightarrow> ip \<Rightarrow> rt_entry list \<Rightarrow> int \<Rightarrow> rt_entry \<Rightarrow> int \<times> rt_entry" where
  "best_entry N dst [] bestLen finalRt = (bestLen, finalRt)"
| "best_entry N dst (rt # rts) bestLen finalRt =
     (if rt_matches N dst rt then
        if uint (rt_len rt) > bestLen then best_entry N dst rts (uint (rt_len rt)) rt
        else best_entry N dst rts bestLen finalRt
      else best_entry N dst rts bestLen finalRt)"

text \<open>The two nested loops over interfaces and addresses, ended by the first match.\<close>

function addr_loop :: "net \<Rightarrow> ipv4 \<Rightarrow> ip \<Rightarrow> nat \<Rightarrow> nat \<Rightarrow> nat option" where
  "addr_loop N I gw if_idx addr_idx =
     (if addr_idx < GetNAddresses I if_idx then
        if n_IsMatch N (GetMask I if_idx addr_idx) (GetLocal I if_idx addr_idx) gw
        then Some addr_idx
        else addr_loop N I gw if_idx (Suc addr_idx)
      else None)"
  by pat_completeness auto
termination
  by (relation "measure (\<lambda>(N, I, gw, i, a). GetNAddresses I i - a)") auto

function iface_loop :: "net \<Rightarrow> ipv4 \<Rightarrow> ip \<Rightarrow> nat \<Rightarrow> (nat \<times> nat) option" where
  "iface_loop N I gw if_idx =
     (if if_idx < GetNInterfaces I then
        case addr_loop N I gw if_idx 0 of
          Some addr_idx \<Rightarrow> Some (if_idx, addr_idx)
        | None \<Rightarrow> iface_loop N I gw (Suc if_idx)
      else None)"
  by pat_completeness auto
termination
  by (relation "measure (\<lambda>(N, I, gw, i). GetNInterfaces I - i)") auto

declare addr_loop.simps [simp del] iface_loop.simps [simp del]

definition make_route :: "ipv4 \<Rightarrow> ip \<Rightarrow> ip \<Rightarrow> nat \<times> nat \<Rightarrow> ipv4_route" where
  "make_route I dst gw ia = \<lparr>r_destination = dst, r_gateway = gw,
     r_source = GetLocal I (fst ia) (snd ia), r_device = GetNetDevice I (fst ia)\<rparr>"

definition no_entry :: rt_entry where
  "no_entry = RtEntry 0 0 0"

definition RouteOutput :: "net \<Rightarrow> ipv4 \<Rightarrow> rt_entry list \<Rightarrow> ip \<Rightarrow> ipv4_route option" where
  "RouteOutput N I m_entries dst =
     (case best_entry N dst m_entries (- 1) no_entry of (bestLen, finalRt) \<Rightarrow>
        if bestLen \<ge> 0 then
          map_option (make_route I dst (rt_gw finalRt)) (iface_loop N I (rt_gw finalRt) 0)
        else None)"

text \<open>
  \<open>RouteInput\<close> returns a bool and calls at most one callback: local delivery or unicast
  forwarding. \<open>iif\<close> is what \<open>GetInterfaceForDevice\<close> gives, \<open>local_dst\<close> what
  \<open>IsDestinationAddress\<close> says, \<open>has_lcb\<close> whether the local-delivery callback is set.
\<close>

datatype route_input = InLocal nat | InForward ipv4_route | InNotMine | InAssert

definition RouteInput ::
  "net \<Rightarrow> ipv4 \<Rightarrow> rt_entry list \<Rightarrow> int \<Rightarrow> (ip \<Rightarrow> nat \<Rightarrow> bool) \<Rightarrow> bool \<Rightarrow> ip \<Rightarrow> route_input" where
  "RouteInput N I m_entries iif local_dst has_lcb dst =
     (if \<not> iif \<ge> 0 then InAssert
      else if local_dst dst (nat iif) then
        (if has_lcb then InLocal (nat iif) else InNotMine)
      else
        (case best_entry N dst m_entries (- 1) no_entry of (bestLen, finalRt) \<Rightarrow>
           if bestLen \<ge> 0 then
             (case iface_loop N I (rt_gw finalRt) 0 of
                Some ia \<Rightarrow> InForward (make_route I dst (rt_gw finalRt) ia)
              | None \<Rightarrow> InAssert)
           else InNotMine))"

subsection \<open>What the loops compute\<close>

text \<open>The chosen entry is the first of the longest matching ones.\<close>

definition is_best :: "net \<Rightarrow> ip \<Rightarrow> rt_entry list \<Rightarrow> rt_entry \<Rightarrow> bool" where
  "is_best N dst es e \<longleftrightarrow> (\<exists>xs ys. es = xs @ e # ys \<and> rt_matches N dst e \<and>
     (\<forall>x\<in>set xs. rt_matches N dst x \<longrightarrow> rt_len x < rt_len e) \<and>
     (\<forall>y\<in>set ys. rt_matches N dst y \<longrightarrow> rt_len y \<le> rt_len e))"

lemma best_entry_no_better:
  "(\<forall>y\<in>set es. rt_matches N dst y \<longrightarrow> uint (rt_len y) \<le> b) \<Longrightarrow> best_entry N dst es b f = (b, f)"
  by (induction es) auto

lemma best_entry_split:
  "rt_matches N dst e \<Longrightarrow> \<forall>x\<in>set xs. rt_matches N dst x \<longrightarrow> rt_len x < rt_len e \<Longrightarrow>
   \<forall>y\<in>set ys. rt_matches N dst y \<longrightarrow> rt_len y \<le> rt_len e \<Longrightarrow> b < uint (rt_len e) \<Longrightarrow>
   best_entry N dst (xs @ e # ys) b f = (uint (rt_len e), e)"
proof (induction xs arbitrary: b f)
  case Nil
  then show ?case by (simp add: best_entry_no_better word_le_def)
next
  case (Cons x xs)
  then show ?case by (auto simp: word_less_def)
qed

lemma is_best_exists:
  "\<exists>x\<in>set es. rt_matches N dst x \<Longrightarrow> \<exists>e. is_best N dst es e"
proof (induction es)
  case Nil
  then show ?case by simp
next
  case (Cons a es)
  show ?case
  proof (cases "\<exists>x\<in>set es. rt_matches N dst x")
    case False
    with Cons.prems have "is_best N dst (a # es) a"
      unfolding is_best_def by (intro exI [of _ "[]"] exI [of _ es]) auto
    then show ?thesis by blast
  next
    case True
    then obtain e xs ys where e: "es = xs @ e # ys" "rt_matches N dst e"
      "\<forall>x\<in>set xs. rt_matches N dst x \<longrightarrow> rt_len x < rt_len e"
      "\<forall>y\<in>set ys. rt_matches N dst y \<longrightarrow> rt_len y \<le> rt_len e"
      using Cons.IH unfolding is_best_def by blast
    show ?thesis
    proof (cases "rt_matches N dst a \<and> \<not> rt_len a < rt_len e")
      case True
      have "rt_len y \<le> rt_len a" if "y \<in> set es" and "rt_matches N dst y" for y
        using that e True by (auto intro: order_trans less_imp_le)
      then have "is_best N dst (a # es) a"
        using True unfolding is_best_def by (intro exI [of _ "[]"] exI [of _ es]) auto
      then show ?thesis by blast
    next
      case False
      then have "is_best N dst (a # es) e"
        using e unfolding is_best_def by (intro exI [of _ "a # xs"] exI [of _ ys]) auto
      then show ?thesis by blast
    qed
  qed
qed

lemma best_entry_is_best:
  "is_best N dst es e \<Longrightarrow> best_entry N dst es (- 1) f = (uint (rt_len e), e)"
proof -
  assume "is_best N dst es e"
  then obtain xs ys where "es = xs @ e # ys" "rt_matches N dst e"
    "\<forall>x\<in>set xs. rt_matches N dst x \<longrightarrow> rt_len x < rt_len e"
    "\<forall>y\<in>set ys. rt_matches N dst y \<longrightarrow> rt_len y \<le> rt_len e"
    unfolding is_best_def by blast
  moreover have "- 1 < uint (rt_len e)" by (rule less_le_trans [of _ 0]) simp_all
  ultimately show ?thesis by (simp only: best_entry_split)
qed

lemma best_entry_none:
  "\<not> (\<exists>x\<in>set es. rt_matches N dst x) \<Longrightarrow> best_entry N dst es b f = (b, f)"
  by (intro best_entry_no_better) blast

lemma addr_loop_Some:
  "addr_loop N I gw i a = Some b \<Longrightarrow> a \<le> b \<and> b < GetNAddresses I i \<and>
    n_IsMatch N (GetMask I i b) (GetLocal I i b) gw"
proof (induction N I gw i a rule: addr_loop.induct)
  case (1 N I gw i a)
  then show ?case by (auto simp: addr_loop.simps [of N I gw i a] split: if_splits)
qed

lemma addr_loop_None:
  "addr_loop N I gw i a = None \<Longrightarrow> a \<le> b \<Longrightarrow> b < GetNAddresses I i \<Longrightarrow>
    \<not> n_IsMatch N (GetMask I i b) (GetLocal I i b) gw"
proof (induction N I gw i a rule: addr_loop.induct)
  case (1 N I gw i a)
  then show ?case
    by (cases "a = b")
      (auto simp: addr_loop.simps [of N I gw i a] addr_loop.simps [of N I gw i b] split: if_splits)
qed

definition on_link :: "net \<Rightarrow> ipv4 \<Rightarrow> ip \<Rightarrow> nat \<times> nat \<Rightarrow> bool" where
  "on_link N I gw ia \<longleftrightarrow> fst ia < GetNInterfaces I \<and> snd ia < GetNAddresses I (fst ia) \<and>
     n_IsMatch N (GetMask I (fst ia) (snd ia)) (GetLocal I (fst ia) (snd ia)) gw"

lemma iface_loop_Some: "iface_loop N I gw i = Some ia \<Longrightarrow> on_link N I gw ia"
proof (induction N I gw i rule: iface_loop.induct)
  case (1 N I gw i)
  then show ?case
    by (auto simp: on_link_def iface_loop.simps [of N I gw i]
        dest: addr_loop_Some split: if_splits option.splits)
qed

lemma iface_loop_None:
  "iface_loop N I gw i = None \<Longrightarrow> i \<le> fst ia \<Longrightarrow> \<not> on_link N I gw ia"
proof (induction N I gw i rule: iface_loop.induct)
  case (1 N I gw i)
  show ?case
  proof (cases "i < GetNInterfaces I")
    case False
    with "1.prems" show ?thesis by (simp add: on_link_def)
  next
    case True
    with "1.prems"(1) have a: "addr_loop N I gw i 0 = None" and r: "iface_loop N I gw (Suc i) = None"
      by (auto simp: iface_loop.simps [of N I gw i] split: option.splits)
    show ?thesis
    proof (cases "fst ia = i")
      case True
      then show ?thesis using addr_loop_None [OF a] by (auto simp: on_link_def)
    next
      case False
      then show ?thesis using "1.IH" [OF True a r] "1.prems"(2) by simp
    qed
  qed
qed

lemma iface_loop_None_iff: "iface_loop N I gw 0 = None \<longleftrightarrow> (\<nexists>ia. on_link N I gw ia)"
  using iface_loop_None [of N I gw 0] iface_loop_Some [of N I gw 0]
  by (metis le0 not_None_eq)


section \<open>Properties\<close>

text \<open>A small network for the witnesses: one interface 10.0.0.1/24.\<close>

definition demo_net :: net where
  "demo_net = \<lparr>n_Ipv4Mask = (\<lambda>s. if s = ''/8'' then 0xff000000 else 0xffff0000),
      n_IsMatch = (\<lambda>m a b. a AND m = b AND m)\<rparr>"

definition demo_ipv4 :: ipv4 where
  "demo_ipv4 = \<lparr>GetNInterfaces = 1, GetNAddresses = (\<lambda>_. 1), GetLocal = (\<lambda>_ _. 0x0a000001),
      GetMask = (\<lambda>_ _. 0xffffff00), GetNetDevice = (\<lambda>i. i)\<rparr>"

lemma to_string_digit: "to_string 8 = ''8''" "to_string 16 = ''16''"
  by code_simp+

lemmas demo_route_eval = RouteOutput_def rt_matches_def demo_net_def demo_ipv4_def RtEntry_def
  to_string_digit iface_loop.simps addr_loop.simps make_route_def

text \<open>
  (C11) Any sequence of route additions and deletions, from the empty table, does to the
  table what updates and deletions do to a map from destination and prefix length to
  gateway; in particular no destination and length occurs twice.
\<close>

theorem route_table_refines_map:
  "rt_inv (fold (rt_apply AddRoute DelRoute) ops []) \<and>
   rt_map (fold (rt_apply AddRoute DelRoute) ops []) = fold op_map ops Map.empty"
  by (rule rt.ops_from_empty)



text \<open>
  (C29) Forwarding agrees with local output: a packet that is not for this node is forwarded
  exactly over the route that \<open>RouteOutput\<close> gives for its destination. Where the two differ is
  the best entry whose gateway is on no link: output has no route, input fails its assertion.
\<close>

theorem RouteInput_agrees_with_RouteOutput:
  assumes "iif \<ge> 0" and "\<not> local_dst dst (nat iif)"
  shows "RouteInput N I es iif local_dst has_lcb dst =
    (case RouteOutput N I es dst of
       Some r \<Rightarrow> InForward r
     | None \<Rightarrow> if \<exists>e\<in>set es. rt_matches N dst e then InAssert else InNotMine)"
proof (cases "\<exists>e\<in>set es. rt_matches N dst e")
  case True
  then obtain e where e: "is_best N dst es e" using is_best_exists by blast
  show ?thesis
    using assms True
    by (simp add: RouteInput_def RouteOutput_def best_entry_is_best [OF e] split: option.splits)
next
  case False
  then show ?thesis
    using assms by (simp add: RouteInput_def RouteOutput_def best_entry_none)
qed

theorem RouteInput_agrees_with_RouteOutput_witness:
  "RouteInput demo_net demo_ipv4 [RtEntry 0x0a000000 8 0x0b000002] 0 (\<lambda>_ _. False) True 0x0a010203
    = InAssert"
proof -
  have "rt_matches demo_net 0x0a010203 (RtEntry 0x0a000000 8 0x0b000002)"
    by (simp add: demo_route_eval)
  moreover have "RouteOutput demo_net demo_ipv4 [RtEntry 0x0a000000 8 0x0b000002] 0x0a010203 = None"
    by (simp add: demo_route_eval)
  ultimately show ?thesis
    using RouteInput_agrees_with_RouteOutput [of 0 "\<lambda>_ _. False" "0x0a010203" demo_net demo_ipv4
        "[RtEntry 0x0a000000 8 0x0b000002]" True] by simp
qed

end
