(* ===== verification/Grail_State.thy ===== *)
theory Grail_State
  imports Ptrace_Utils Poll_Detector Route
begin

text \<open>
  The state of \<^verbatim>\<open>src/model/grail.cc\<close>: \<open>struct Priv\<close> with the attributes of the application,
  the closures it hands to the simulator, and the operations every handler is built from.

  \<^item> \<open>env\<close>: the code that is not in the repository, as functions of its hidden state \<open>'x\<close>: the
    kernel (extending \<open>kernel\<close>), the simulator's sockets, devices, clock and random numbers,
    and libnl.
  \<^item> \<open>grail\<close>: the program's state. A C++ closure is a constructor with what it captures; the
    callback slots of a simulator socket and the scheduled events are recorded as they are
    registered. The \<open>shared_ptr\<close> cells that several closures share are stores with explicit
    identities.
  \<^item> assertions are compiled in, as in the simulator's default build.
\<close>

section \<open>Types of the environment\<close>

type_synonym sockid = nat

datatype address = InetSocketAddress ip "16 word" | OtherAddress

datatype device = WifiNetDevice | PointToPointNetDevice | LoopbackNetDevice | OtherDevice

text \<open>A netlink message under construction: the calls that build it.\<close>

datatype nl_part = NlAppend "byte list" | NlAttr nat "byte list"

record nl_msg =
  nm_type :: nat
  nm_flags :: nat
  nm_parts :: "nl_part list"

record 'x env = "'x kernel" +
  e_Now :: "'x \<Rightarrow> nat"
  e_CreateSocket :: "bool \<Rightarrow> 'x \<Rightarrow> sockid \<times> 'x"
  e_Close :: "sockid \<Rightarrow> 'x \<Rightarrow> 'x"
  e_GetRxAvailable :: "sockid \<Rightarrow> 'x \<Rightarrow> nat"
  e_GetTxAvailable :: "sockid \<Rightarrow> 'x \<Rightarrow> nat"
  e_Recv :: "sockid \<Rightarrow> nat \<Rightarrow> 'x \<Rightarrow> (int \<times> byte list) \<times> 'x"
  e_RecvFrom :: "sockid \<Rightarrow> nat \<Rightarrow> int \<Rightarrow> 'x \<Rightarrow> (int \<times> byte list \<times> address) \<times> 'x"
  e_Send :: "sockid \<Rightarrow> byte list \<Rightarrow> 'x \<Rightarrow> int \<times> 'x"
  e_SendTo :: "sockid \<Rightarrow> byte list \<Rightarrow> int \<Rightarrow> address \<Rightarrow> 'x \<Rightarrow> int \<times> 'x"
  e_Bind :: "sockid \<Rightarrow> address \<Rightarrow> 'x \<Rightarrow> int \<times> 'x"
  e_Listen :: "sockid \<Rightarrow> 'x \<Rightarrow> int \<times> 'x"
  e_Connect :: "sockid \<Rightarrow> address \<Rightarrow> 'x \<Rightarrow> 'x"
  e_GetSockName :: "sockid \<Rightarrow> 'x \<Rightarrow> int \<times> address"
  e_GetPeerName :: "sockid \<Rightarrow> 'x \<Rightarrow> int \<times> address"
  e_SetAllowBroadcast :: "sockid \<Rightarrow> bool \<Rightarrow> 'x \<Rightarrow> 'x"
  e_GetAllowBroadcast :: "sockid \<Rightarrow> 'x \<Rightarrow> bool"
  e_GetAttribute :: "sockid \<Rightarrow> string \<Rightarrow> 'x \<Rightarrow> nat option"
  e_IsTcp :: "sockid \<Rightarrow> 'x \<Rightarrow> bool"
  e_Random :: "'x \<Rightarrow> nat \<times> 'x"
  e_NDevices :: "'x \<Rightarrow> nat"
  e_Device :: "nat \<Rightarrow> 'x \<Rightarrow> device"
  e_IsLinkUp :: "nat \<Rightarrow> 'x \<Rightarrow> bool"
  e_IsBroadcast :: "nat \<Rightarrow> 'x \<Rightarrow> bool"
  e_IsMulticast :: "nat \<Rightarrow> 'x \<Rightarrow> bool"
  e_IsPointToPoint :: "nat \<Rightarrow> 'x \<Rightarrow> bool"
  e_GetMtu :: "nat \<Rightarrow> 'x \<Rightarrow> nat"
  e_InterfaceForDevice :: "nat \<Rightarrow> 'x \<Rightarrow> nat"
  e_ifLocal :: "nat \<Rightarrow> 'x \<Rightarrow> ip"
  e_ifBroadcast :: "nat \<Rightarrow> 'x \<Rightarrow> ip"
  e_ifMask :: "nat \<Rightarrow> 'x \<Rightarrow> 32 word"
  e_PrefixLength :: "32 word \<Rightarrow> nat"
  e_Ipv4Address :: "string \<Rightarrow> ip"
  e_Print :: "ip \<Rightarrow> string"
  e_nlmsg_ok :: "nat \<Rightarrow> int \<Rightarrow> bool"
  e_nlmsg_next :: "nat \<Rightarrow> int \<Rightarrow> nat \<times> int"
  e_nlmsg_hdr :: "nl_msg \<Rightarrow> byte list"
  e_junk :: "nat \<Rightarrow> byte list"
  e_reno :: "64 word"

section \<open>Closures and events\<close>

text \<open>What the callbacks of one \<open>select\<close> capture.\<close>

record select_capture =
  sc_id :: nat
  sc_fd :: fd
  sc_readfds :: addr
  sc_writefds :: addr
  sc_exceptfds :: addr
  sc_pid :: pid

datatype recv_cb = RecvRead pid addr nat | RecvRecvFrom pid addr nat int addr addr
  | RecvSelect select_capture

datatype send_cb = SendBlockedWrite pid | SendSelect select_capture

datatype accept_cb = AcceptFake fd | AcceptSelect select_capture | AcceptBlocked fd addr addr pid

datatype connect_cb = ConnectBlocked fd pid

datatype event = EvHandleSyscallBefore pid | EvRemoveClosedSocket sockid | EvNanoSleep pid
  | EvSelectTimeout nat pid

record sim_event =
  ev_uid :: nat
  ev_time :: int
  ev_do :: event

section \<open>The state\<close>

record netlink_socket =
  nl_owner :: pid
  nl_pid :: "32 word"
  nl_groups :: "32 word"
  nl_protocol :: int
  reply_queue :: "nl_msg list"
  recv_callback :: "select_capture option"
  has_recv_callback :: bool

record 'x grail =
  tr :: "'x tracee"
  cur_pid :: pid
  app_pid :: pid
  fake_pid :: int
  gid :: nat
  egid :: nat
  uid :: nat
  euid :: nat
  tid_vector :: "int list"
  m_sockets :: "fd \<rightharpoonup> sockid"
  m_fakeAcceptedSockets :: "fd \<rightharpoonup> sockid \<times> address"
  m_tcpSockets :: "fd set"
  m_connectedSockets :: "fd set"
  m_isListenTcpSocket :: "fd set"
  m_nonblocking_sockets :: "fd set"
  m_random_fds :: "fd set"
  m_netlinks :: "fd \<rightharpoonup> nat"
  availableFDs :: "fd set"
  pollLoopDetector :: poll_state
  m_printStdout :: bool
  m_mayQuit :: bool
  m_syscallProcessingTime :: nat
  m_pollLoopDetection :: bool
  rt_entries :: "rt_entry list"
  nl_objs :: "nat \<Rightarrow> netlink_socket option"
  nl_next :: nat
  already_handled :: "nat \<Rightarrow> bool"
  timeout_event :: "nat \<Rightarrow> nat option"
  sel_next :: nat
  cb_recv :: "sockid \<Rightarrow> recv_cb option"
  cb_send :: "sockid \<Rightarrow> send_cb option"
  cb_accept :: "sockid \<Rightarrow> accept_cb option"
  cb_connect :: "sockid \<Rightarrow> connect_cb option"
  events :: "sim_event list"
  ev_next :: nat
  stdout :: "byte list"

text \<open>Shorthands for the parts of the tracee.\<close>

definition argv :: "nat \<Rightarrow> 'x grail \<Rightarrow> 64 word" where
  "argv n w = arg n (cur_pid w) (tr w)"

abbreviation xt :: "'x grail \<Rightarrow> 'x" where
  "xt w \<equiv> ext (tr w)"

abbreviation memory_of :: "'x grail \<Rightarrow> memory" where
  "memory_of w \<equiv> mem (tr w)"

definition set_ext :: "'x \<Rightarrow> 'x grail \<Rightarrow> 'x grail" where
  "set_ext x w = w\<lparr>tr := (tr w)\<lparr>ext := x\<rparr>\<rparr>"

definition set_mem :: "memory \<Rightarrow> 'x grail \<Rightarrow> 'x grail" where
  "set_mem m w = w\<lparr>tr := (tr w)\<lparr>mem := m\<rparr>\<rparr>"

section \<open>The constructor\<close>

definition MAX_NUM_FDS :: int where
  "MAX_NUM_FDS = 100"

fun insert_fds :: "nat \<Rightarrow> int \<Rightarrow> fd set \<Rightarrow> fd set" where
  "insert_fds 0 i s = s"
| "insert_fds (Suc n) i s = insert_fds n (i + 1) (insert i s)"

text \<open>
  \<open>GrailApplication::GrailApplication\<close>, with the tracee and the attribute values it is run
  with; \<open>global_process_pids\<close> is the static counter before the call.
\<close>

definition GrailApplication ::
  "'x tracee \<Rightarrow> bool \<Rightarrow> bool \<Rightarrow> nat \<Rightarrow> bool \<Rightarrow> int \<Rightarrow> 'x grail \<times> int" where
  "GrailApplication t printStdout mayQuit procTime pollDetection global_process_pids =
     (\<lparr>tr = t, cur_pid = 0, app_pid = 0, fake_pid = global_process_pids + 1,
       gid = 0, egid = 0, uid = 0, euid = 0, tid_vector = [],
       m_sockets = Map.empty, m_fakeAcceptedSockets = Map.empty, m_tcpSockets = {},
       m_connectedSockets = {}, m_isListenTcpSocket = {}, m_nonblocking_sockets = {},
       m_random_fds = {}, m_netlinks = Map.empty,
       availableFDs = insert_fds (nat MAX_NUM_FDS) 100 {},
       pollLoopDetector = poll_init,
       m_printStdout = printStdout, m_mayQuit = mayQuit, m_syscallProcessingTime = procTime,
       m_pollLoopDetection = pollDetection,
       rt_entries = [], nl_objs = (\<lambda>_. None), nl_next = 0,
       already_handled = (\<lambda>_. False), timeout_event = (\<lambda>_. None), sel_next = 0,
       cb_recv = (\<lambda>_. None), cb_send = (\<lambda>_. None), cb_accept = (\<lambda>_. None),
       cb_connect = (\<lambda>_. None), events = [], ev_next = 0, stdout = []\<rparr>,
      global_process_pids + 1)"

lemma insert_fds_eq: "insert_fds n i s = {i..<i + int n} \<union> s"
  by (induction n arbitrary: i s) auto

section \<open>Scheduling\<close>

definition Schedule :: "'x env \<Rightarrow> int \<Rightarrow> event \<Rightarrow> 'x grail \<Rightarrow> 'x grail" where
  "Schedule E delay f w =
     w\<lparr>events := events w @ [\<lparr>ev_uid = ev_next w, ev_time = int (e_Now E (xt w)) + delay, ev_do = f\<rparr>],
       ev_next := Suc (ev_next w)\<rparr>"

definition Cancel :: "nat option \<Rightarrow> 'x grail \<Rightarrow> 'x grail" where
  "Cancel u w = (case u of None \<Rightarrow> w
     | Some n \<Rightarrow> w\<lparr>events := filter (\<lambda>e. ev_uid e \<noteq> n) (events w)\<rparr>)"

section \<open>FAKE, pass-through, status codes\<close>

text \<open>
  \<open>FAKE\<close> replaces the pending call by \<open>getpid\<close>, lets the kernel run it, and overwrites the
  result. An exit of the tracee makes the enclosing function return \<open>SYSC_ERROR\<close>; the rest of
  that function is the continuation.
\<close>

definition FAKE ::
  "'x env \<Rightarrow> pid \<Rightarrow> 64 word \<Rightarrow> 'x grail \<Rightarrow> ('x grail \<Rightarrow> (sysc, 'x grail) outcome)
   \<Rightarrow> (sysc, 'x grail) outcome" where
  "FAKE E p ret_val w k =
     (case WaitForSyscall E p (set_reg p ORIG_RAX (c_reg SYS_getpid) (tr w)) of
        None \<Rightarrow> Halt NoReturn w
      | Some (r, t) \<Rightarrow>
          if r \<noteq> 0 then Ret SYSC_ERROR (w\<lparr>tr := t\<rparr>)
          else k (w\<lparr>tr := set_reg p RAX ret_val t\<rparr>))"

text \<open>
  \<open>FAKE2\<close> and \<open>FAKE4\<close> assign \<open>res\<close> instead of returning; their \<open>break\<close> leaves the macro's own
  loop, so the code after them runs in both cases.
\<close>

definition FAKE2 ::
  "'x env \<Rightarrow> pid \<Rightarrow> 64 word \<Rightarrow> sysc \<Rightarrow> 'x grail \<Rightarrow> (sysc \<Rightarrow> 'x grail \<Rightarrow> ('a, 'x grail) outcome)
   \<Rightarrow> ('a, 'x grail) outcome" where
  "FAKE2 E p ret_val res w k =
     (case WaitForSyscall E p (set_reg p ORIG_RAX (c_reg SYS_getpid) (tr w)) of
        None \<Rightarrow> Halt NoReturn w
      | Some (r, t) \<Rightarrow>
          if r \<noteq> 0 then k SYSC_ERROR (w\<lparr>tr := t\<rparr>)
          else k res (w\<lparr>tr := set_reg p RAX ret_val t\<rparr>))"

definition FAKE4 ::
  "'x env \<Rightarrow> pid \<Rightarrow> 64 word \<Rightarrow> sysc \<Rightarrow> 'x grail \<Rightarrow> (sysc \<Rightarrow> 'x grail \<Rightarrow> ('a, 'x grail) outcome)
   \<Rightarrow> ('a, 'x grail) outcome" where
  "FAKE4 E saved_pid ret_val res w k =
     (case WaitForSyscall E saved_pid (set_reg saved_pid ORIG_RAX (c_reg SYS_getpid) (tr w)) of
        None \<Rightarrow> Halt NoReturn w
      | Some (r, t) \<Rightarrow>
          if r \<noteq> 0 then k SYSC_ERROR (w\<lparr>tr := t\<rparr>)
          else k res (w\<lparr>tr := set_reg saved_pid RAX ret_val t\<rparr>))"

definition HandleSyscallAfter :: "'x env \<Rightarrow> 'x grail \<Rightarrow> (sysc, 'x grail) outcome" where
  "HandleSyscallAfter E w =
     (case WaitForSyscall E (cur_pid w) (tr w) of
        None \<Rightarrow> Halt NoReturn w
      | Some (r, t) \<Rightarrow>
          if r \<noteq> 0 then Ret SYSC_ERROR (w\<lparr>tr := t\<rparr>) else Ret SYSC_SUCCESS (w\<lparr>tr := t\<rparr>))"

definition HandleSyscallAfterClone :: "'x env \<Rightarrow> 'x grail \<Rightarrow> (sysc, 'x grail) outcome" where
  "HandleSyscallAfterClone E w =
     (case WaitForSyscall E (cur_pid w) (tr w) of
        None \<Rightarrow> Halt NoReturn w
      | Some (r, t) \<Rightarrow>
          if r \<noteq> 0 then Ret SYSC_ERROR (w\<lparr>tr := t\<rparr>)
          else
            let retval = c_int (get_reg (cur_pid w) RAX t);
                w1 = w\<lparr>tr := t, tid_vector := tid_vector w @ [retval]\<rparr>
            in Ret SYSC_SUCCESS (Schedule E 100 (EvHandleSyscallBefore retval) w1))"

definition ProcessStatusCode :: "'x env \<Rightarrow> sysc \<Rightarrow> pid \<Rightarrow> 'x grail \<Rightarrow> (unit, 'x grail) outcome" where
  "ProcessStatusCode E res p w =
     (let resume = Schedule E (int (m_syscallProcessingTime w + PollLoopDetector_GetDelay (pollLoopDetector w)))
            (EvHandleSyscallBefore p) w
      in case res of
        SYSC_MANUAL \<Rightarrow> Ret () w
      | SYSC_SUCCESS \<Rightarrow> Ret () resume
      | SYSC_FAILURE \<Rightarrow> Ret () resume
      | SYSC_ERROR \<Rightarrow> Halt ExitFailure w
      | SYSC_DELAYED \<Rightarrow> Ret () w
      | SYSC_SYSTEM_EXIT \<Rightarrow> if m_mayQuit w then Ret () w else Halt ExitFailure w)"

section \<open>Copies to the tracee, assertions\<close>

definition copy_to ::
  "addr \<Rightarrow> byte list \<Rightarrow> 'x grail \<Rightarrow> ('x grail \<Rightarrow> ('a, 'x grail) outcome) \<Rightarrow> ('a, 'x grail) outcome" where
  "copy_to to bs w k =
     (case copy_out (memory_of w) to bs of
        None \<Rightarrow> Halt ExitFailure w
      | Some m \<Rightarrow> k (set_mem m w))"

definition store_to ::
  "addr \<Rightarrow> byte list \<Rightarrow> 'x grail \<Rightarrow> ('x grail \<Rightarrow> ('a, 'x grail) outcome) \<Rightarrow> ('a, 'x grail) outcome" where
  "store_to to bs w k =
     (case StoreToTracee (memory_of w) bs to of
        None \<Rightarrow> Halt ExitFailure w
      | Some m \<Rightarrow> k (set_mem m w))"

definition NS_ASSERT :: "bool \<Rightarrow> 'x grail \<Rightarrow> ('x grail \<Rightarrow> ('a, 'x grail) outcome) \<Rightarrow> ('a, 'x grail) outcome" where
  "NS_ASSERT b w k = (if b then k w else Halt AssertFailure w)"

text \<open>The bytes of a local variable of \<open>n\<close> bytes that is not initialised.\<close>

definition uninit :: "'x env \<Rightarrow> nat \<Rightarrow> byte list" where
  "uninit E n = take n (e_junk E n @ replicate n 0)"

lemma length_uninit [simp]: "length (uninit E n) = n"
  by (simp add: uninit_def)

section \<open>File descriptors\<close>

definition GetNextFD :: "'x grail \<Rightarrow> (fd, 'x grail) outcome" where
  "GetNextFD w =
     NS_ASSERT (availableFDs w \<noteq> {}) w (\<lambda>w.
       let fd = Min (availableFDs w) in Ret fd (w\<lparr>availableFDs := availableFDs w - {fd}\<rparr>))"

definition FdIsEmulatedSocket :: "fd \<Rightarrow> 'x grail \<Rightarrow> bool" where
  "FdIsEmulatedSocket fd w \<longleftrightarrow>
     (if m_netlinks w fd \<noteq> None then True
      else if m_sockets w fd \<noteq> None then True
      else if fd \<in> m_random_fds w then True
      else False)"

end
