(* ===== verification/Grail_Contract.thy ===== *)
theory Grail_Contract
  imports Grail_State
begin

text \<open>
  What the handlers promise about \<open>struct Priv\<close>. \<open>priv_invariant\<close> is the interface between an
  invariant of the program's own state and the operations every handler is built from: an
  invariant that does not depend on the tracee, on what is scheduled or on the list of
  threads survives \<open>FAKE\<close>, the pass-through, the copies and the rescheduling. It is
  interpreted on the descriptor table and on the netlink objects.
\<close>

section \<open>The interface\<close>

definition keeps :: "('x grail \<Rightarrow> bool) \<Rightarrow> ('a, 'x grail) outcome \<Rightarrow> bool" where
  "keeps I r = holds (\<lambda>_. I) r"

lemma keeps_simps [simp]: "keeps I (Ret a w) = I w" "keeps I (Halt h w)"
  by (simp_all add: keeps_def)

lemma keepsD: "keeps I r \<Longrightarrow> r = Ret a w \<Longrightarrow> I w"
  by simp

lemma keeps_and_then [keeps_intros]:
  "keeps I r \<Longrightarrow> (\<And>a w. I w \<Longrightarrow> keeps I (k a w)) \<Longrightarrow> keeps I (and_then r k)"
  by (cases r) simp_all

lemma keeps_NS_ASSERT [keeps_intros]: "(b \<Longrightarrow> keeps I (k w)) \<Longrightarrow> keeps I (NS_ASSERT b w k)"
  by (simp add: NS_ASSERT_def)

lemma keeps_if [keeps_intros]:
  "(b \<Longrightarrow> keeps I r) \<Longrightarrow> (\<not> b \<Longrightarrow> keeps I s) \<Longrightarrow> keeps I (if b then r else s)"
  by simp

lemma keeps_option [keeps_intros]:
  "(x = None \<Longrightarrow> keeps I r) \<Longrightarrow> (\<And>y. x = Some y \<Longrightarrow> keeps I (s y)) \<Longrightarrow>
   keeps I (case x of None \<Rightarrow> r | Some y \<Rightarrow> s y)"
  by (cases x) simp_all

locale priv_invariant =
  fixes I :: "'x grail \<Rightarrow> bool"
  assumes I_tr: "I w \<Longrightarrow> I (w\<lparr>tr := t\<rparr>)"
    and I_Schedule: "I w \<Longrightarrow> I (Schedule E d f w)"
    and I_Cancel: "I w \<Longrightarrow> I (Cancel u w)"
    and I_tids: "I w \<Longrightarrow> I (w\<lparr>tid_vector := ts\<rparr>)"
begin

lemma keep_set_ext [keeps_intros]: "I w \<Longrightarrow> I (set_ext x w)"
  by (simp add: set_ext_def I_tr)

lemma keep_set_mem [keeps_intros]: "I w \<Longrightarrow> I (set_mem m w)"
  by (simp add: set_mem_def I_tr)

lemma keep_Schedule [keeps_intros]: "I w \<Longrightarrow> I (Schedule E d f w)"
  by (rule I_Schedule)

lemma keep_Cancel [keeps_intros]: "I w \<Longrightarrow> I (Cancel u w)"
  by (rule I_Cancel)

lemma keeps_FAKE [keeps_intros]:
  assumes "I w" and "\<And>t. I (w\<lparr>tr := t\<rparr>) \<Longrightarrow> keeps I (k (w\<lparr>tr := t\<rparr>))"
  shows "keeps I (FAKE E p v w k)"
  using assms I_tr [OF assms(1)] by (auto simp: FAKE_def split: option.splits)

lemma keeps_FAKE2 [keeps_intros]:
  assumes "I w" and "\<And>r t. I (w\<lparr>tr := t\<rparr>) \<Longrightarrow> keeps I (k r (w\<lparr>tr := t\<rparr>))"
  shows "keeps I (FAKE2 E p v res w k)"
  using assms I_tr [OF assms(1)] by (auto simp: FAKE2_def split: option.splits)

lemma keeps_FAKE4 [keeps_intros]:
  assumes "I w" and "\<And>r t. I (w\<lparr>tr := t\<rparr>) \<Longrightarrow> keeps I (k r (w\<lparr>tr := t\<rparr>))"
  shows "keeps I (FAKE4 E p v res w k)"
  using assms I_tr [OF assms(1)] by (auto simp: FAKE4_def split: option.splits)

lemma keeps_After [keeps_intros]: "I w \<Longrightarrow> keeps I (HandleSyscallAfter E w)"
  using I_tr by (auto simp: HandleSyscallAfter_def split: option.splits)

lemma keeps_AfterClone [keeps_intros]: "I w \<Longrightarrow> keeps I (HandleSyscallAfterClone E w)"
proof -
  assume "I w"
  then have "I (w\<lparr>tr := t\<rparr>)" for t by (rule I_tr)
  then have "I (w\<lparr>tr := t, tid_vector := ts\<rparr>)" for t ts
    using I_tids by blast
  then show ?thesis
    using \<open>\<And>t. I (w\<lparr>tr := t\<rparr>)\<close>
    by (auto simp: HandleSyscallAfterClone_def Let_def intro!: keep_Schedule split: option.splits)
qed

lemma keeps_copy_to [keeps_intros]:
  "I w \<Longrightarrow> (\<And>m. I (set_mem m w) \<Longrightarrow> keeps I (k (set_mem m w))) \<Longrightarrow> keeps I (copy_to a bs w k)"
  using keep_set_mem by (auto simp: copy_to_def split: option.splits)

lemma keeps_store_to [keeps_intros]:
  "I w \<Longrightarrow> (\<And>m. I (set_mem m w) \<Longrightarrow> keeps I (k (set_mem m w))) \<Longrightarrow> keeps I (store_to a bs w k)"
  using keep_set_mem by (auto simp: store_to_def split: option.splits)

lemma keeps_ProcessStatusCode [keeps_intros]: "I w \<Longrightarrow> keeps I (ProcessStatusCode E res p w)"
  by (cases res) (simp_all add: ProcessStatusCode_def Let_def keep_Schedule)

end

section \<open>The descriptor table\<close>

text \<open>
  The pool 100..199 is split between the free descriptors, the sockets, the netlink sockets
  and the random devices, with no overlap; TCP, listening and non-blocking descriptors are
  sockets, and a listening one is TCP.
\<close>

definition fd_inv :: "'x grail \<Rightarrow> bool" where
  "fd_inv w \<longleftrightarrow>
     availableFDs w \<union> dom (m_sockets w) \<union> dom (m_netlinks w) \<union> m_random_fds w
       = {100..<100 + MAX_NUM_FDS} \<and>
     availableFDs w \<inter> dom (m_sockets w) = {} \<and> availableFDs w \<inter> dom (m_netlinks w) = {} \<and>
     availableFDs w \<inter> m_random_fds w = {} \<and> dom (m_sockets w) \<inter> dom (m_netlinks w) = {} \<and>
     dom (m_sockets w) \<inter> m_random_fds w = {} \<and> dom (m_netlinks w) \<inter> m_random_fds w = {} \<and>
     m_tcpSockets w \<subseteq> dom (m_sockets w) \<and> m_isListenTcpSocket w \<subseteq> m_tcpSockets w \<and>
     m_nonblocking_sockets w \<subseteq> dom (m_sockets w)"

text \<open>
  The fields the invariant reads. A handler that leaves them alone keeps it, whatever else it
  does to the state.
\<close>

definition fd_fields ::
  "'x grail \<Rightarrow> fd set \<times> (fd \<rightharpoonup> sockid) \<times> (fd \<rightharpoonup> nat) \<times> fd set \<times> fd set \<times> fd set \<times> fd set" where
  "fd_fields w = (availableFDs w, m_sockets w, m_netlinks w, m_random_fds w, m_tcpSockets w,
     m_isListenTcpSocket w, m_nonblocking_sockets w)"

lemma fd_inv_fields: "fd_fields w' = fd_fields w \<Longrightarrow> fd_inv w \<Longrightarrow> fd_inv w'"
  by (simp add: fd_inv_def fd_fields_def)

text \<open>The fields of the state that the invariant does not read.\<close>

lemma fd_frame [simp]:
  "fd_inv (w\<lparr>tr := xab\<rparr>) = fd_inv w"
  "fd_inv (w\<lparr>cur_pid := xac\<rparr>) = fd_inv w"
  "fd_inv (w\<lparr>app_pid := xad\<rparr>) = fd_inv w"
  "fd_inv (w\<lparr>fake_pid := xae\<rparr>) = fd_inv w"
  "fd_inv (w\<lparr>gid := xaf\<rparr>) = fd_inv w"
  "fd_inv (w\<lparr>egid := xag\<rparr>) = fd_inv w"
  "fd_inv (w\<lparr>uid := xah\<rparr>) = fd_inv w"
  "fd_inv (w\<lparr>euid := xai\<rparr>) = fd_inv w"
  "fd_inv (w\<lparr>tid_vector := xaj\<rparr>) = fd_inv w"
  "fd_inv (w\<lparr>m_fakeAcceptedSockets := xak\<rparr>) = fd_inv w"
  "fd_inv (w\<lparr>m_connectedSockets := xal\<rparr>) = fd_inv w"
  "fd_inv (w\<lparr>pollLoopDetector := xam\<rparr>) = fd_inv w"
  "fd_inv (w\<lparr>m_printStdout := xan\<rparr>) = fd_inv w"
  "fd_inv (w\<lparr>rt_entries := xao\<rparr>) = fd_inv w"
  "fd_inv (w\<lparr>already_handled := xap\<rparr>) = fd_inv w"
  "fd_inv (w\<lparr>timeout_event := xaq\<rparr>) = fd_inv w"
  "fd_inv (w\<lparr>sel_next := xar\<rparr>) = fd_inv w"
  "fd_inv (w\<lparr>cb_recv := xas\<rparr>) = fd_inv w"
  "fd_inv (w\<lparr>cb_send := xat\<rparr>) = fd_inv w"
  "fd_inv (w\<lparr>cb_accept := xau\<rparr>) = fd_inv w"
  "fd_inv (w\<lparr>cb_connect := xav\<rparr>) = fd_inv w"
  "fd_inv (w\<lparr>events := xaw\<rparr>) = fd_inv w"
  "fd_inv (w\<lparr>ev_next := xax\<rparr>) = fd_inv w"
  "fd_inv (w\<lparr>stdout := xay\<rparr>) = fd_inv w"
  "fd_inv (w\<lparr>nl_objs := xaz\<rparr>) = fd_inv w"
  "fd_inv (w\<lparr>nl_next := xba\<rparr>) = fd_inv w"
  by (simp_all add: fd_inv_def)

interpretation fdi: priv_invariant fd_inv
  by unfold_locales (simp_all add: fd_inv_def Schedule_def Cancel_def split: option.split)

lemma fd_inv_finite: "fd_inv w \<Longrightarrow> finite (availableFDs w)"
  by (rule finite_subset [of _ "{100..<100 + MAX_NUM_FDS}"]) (auto simp: fd_inv_def)

lemma fd_inv_range: "fd_inv w \<Longrightarrow> fd \<in> availableFDs w \<Longrightarrow> 100 \<le> fd \<and> fd < 200"
proof -
  assume "fd_inv w" and fd: "fd \<in> availableFDs w"
  then have "availableFDs w \<subseteq> {100..<100 + MAX_NUM_FDS}" unfolding fd_inv_def by blast
  with fd show ?thesis by (auto simp: MAX_NUM_FDS_def)
qed

lemma fd_inv_emulated_range: "fd_inv w \<Longrightarrow> FdIsEmulatedSocket fd w \<Longrightarrow> 100 \<le> fd \<and> fd < 200"
  by (auto simp: fd_inv_def FdIsEmulatedSocket_def MAX_NUM_FDS_def split: if_splits)

lemma GetNextFD_Ret:
  "GetNextFD w = Ret fd w' \<Longrightarrow> availableFDs w \<noteq> {} \<and> fd = Min (availableFDs w) \<and>
     w' = w\<lparr>availableFDs := availableFDs w - {fd}\<rparr>"
  by (clarsimp simp add: GetNextFD_def NS_ASSERT_def Let_def split: if_splits)

text \<open>
  What a handler gets from \<open>GetNextFD\<close>: a descriptor of the pool that is in no table, to be
  entered into one of the three.
\<close>

definition fresh_fd :: "fd \<Rightarrow> 'x grail \<Rightarrow> bool" where
  "fresh_fd fd w \<longleftrightarrow> fd \<notin> availableFDs w \<and>
     fd_inv (w\<lparr>availableFDs := insert fd (availableFDs w)\<rparr>)"

lemma fd_GetNextFD:
  assumes "fd_inv w" and "\<And>fd w'. fresh_fd fd w' \<Longrightarrow> keeps I (k fd w')"
  shows "keeps I (and_then (GetNextFD w) k)"
proof (cases "GetNextFD w")
  case (Ret fd w')
  from GetNextFD_Ret [OF Ret] have w': "availableFDs w \<noteq> {}" "fd = Min (availableFDs w)"
    "w' = w\<lparr>availableFDs := availableFDs w - {fd}\<rparr>" by simp_all
  then have "fd \<in> availableFDs w" using fd_inv_finite [OF assms(1)] by simp
  then have "fresh_fd fd w'"
    unfolding fresh_fd_def w'(3) using assms(1) by (simp add: insert_absorb)
  then show ?thesis using assms(2) Ret by simp
qed simp

lemma fresh_random:
  "fresh_fd fd w \<Longrightarrow> fd_inv (w\<lparr>m_random_fds := insert fd (m_random_fds w)\<rparr>)"
  by (simp add: fresh_fd_def fd_inv_def)

lemma fresh_netlink:
  "fresh_fd fd w \<Longrightarrow> fd_inv (w\<lparr>m_netlinks := (m_netlinks w)(fd \<mapsto> n)\<rparr>)"
  by (simp add: fresh_fd_def fd_inv_def)

lemma fresh_udp:
  "fresh_fd fd w \<Longrightarrow> fd_inv (w\<lparr>m_sockets := (m_sockets w)(fd \<mapsto> s)\<rparr>)"
  by (simp add: fresh_fd_def fd_inv_def) blast

lemma fresh_tcp:
  "fresh_fd fd w \<Longrightarrow>
   fd_inv (w\<lparr>m_sockets := (m_sockets w)(fd \<mapsto> s), m_tcpSockets := insert fd (m_tcpSockets w)\<rparr>)"
  by (simp add: fresh_fd_def fd_inv_def) blast

lemma fresh_fields: "fd_fields w' = fd_fields w \<Longrightarrow> fresh_fd fd w \<Longrightarrow> fresh_fd fd w'"
  by (simp add: fresh_fd_def fd_inv_def fd_fields_def)

lemma fd_nonblocking:
  "fd_inv w \<Longrightarrow> m_sockets w fd = Some s \<Longrightarrow>
   fd_inv (w\<lparr>m_nonblocking_sockets := insert fd (m_nonblocking_sockets w)\<rparr>)"
  by (simp add: fd_inv_def domI)

lemma fd_listen:
  "fd_inv w \<Longrightarrow> fd \<in> m_tcpSockets w \<Longrightarrow>
   fd_inv (w\<lparr>tr := t, m_isListenTcpSocket := insert fd (m_isListenTcpSocket w)\<rparr>)"
  by (simp add: fd_inv_def)

lemma fd_close_socket:
  assumes "fd_inv w" and "m_sockets w fd = Some s"
  shows "fd_inv (w\<lparr>tr := t, m_sockets := (m_sockets w)(fd := None),
    m_tcpSockets := m_tcpSockets w - {fd}, m_connectedSockets := c,
    m_isListenTcpSocket := m_isListenTcpSocket w - {fd},
    m_nonblocking_sockets := m_nonblocking_sockets w - {fd},
    availableFDs := insert fd (availableFDs w)\<rparr>)"
proof -
  have "fd \<in> dom (m_sockets w)" using assms(2) by (rule domI)
  with assms(1) show ?thesis unfolding fd_inv_def by simp blast
qed

lemma fd_close_netlink:
  assumes "fd_inv w" and "m_netlinks w fd = Some s"
  shows "fd_inv (w\<lparr>m_netlinks := (m_netlinks w)(fd := None),
    availableFDs := insert fd (availableFDs w)\<rparr>)"
proof -
  have "fd \<in> dom (m_netlinks w)" using assms(2) by (rule domI)
  with assms(1) show ?thesis unfolding fd_inv_def by simp blast
qed

lemma fd_close_random:
  assumes "fd_inv w" and "fd \<in> m_random_fds w"
  shows "fd_inv (w\<lparr>m_random_fds := m_random_fds w - {fd},
    availableFDs := insert fd (availableFDs w)\<rparr>)"
  using assms unfolding fd_inv_def by simp blast

section \<open>Netlink objects\<close>

text \<open>Every netlink descriptor points to an object; objects are never freed while in use.\<close>

definition nl_inv :: "'x grail \<Rightarrow> bool" where
  "nl_inv w \<longleftrightarrow> ran (m_netlinks w) \<subseteq> dom (nl_objs w) \<and>
     (\<forall>n. nl_next w \<le> n \<longrightarrow> nl_objs w n = None)"

lemma nl_inv_fields:
  "m_netlinks w' = m_netlinks w \<Longrightarrow> nl_objs w' = nl_objs w \<Longrightarrow> nl_next w' = nl_next w \<Longrightarrow>
   nl_inv w \<Longrightarrow> nl_inv w'"
  by (simp add: nl_inv_def)

lemma nl_frame [simp]:
  "nl_inv (w\<lparr>tr := xbb\<rparr>) = nl_inv w"
  "nl_inv (w\<lparr>cur_pid := xbc\<rparr>) = nl_inv w"
  "nl_inv (w\<lparr>app_pid := xbd\<rparr>) = nl_inv w"
  "nl_inv (w\<lparr>fake_pid := xbe\<rparr>) = nl_inv w"
  "nl_inv (w\<lparr>gid := xbf\<rparr>) = nl_inv w"
  "nl_inv (w\<lparr>egid := xbg\<rparr>) = nl_inv w"
  "nl_inv (w\<lparr>uid := xbh\<rparr>) = nl_inv w"
  "nl_inv (w\<lparr>euid := xbi\<rparr>) = nl_inv w"
  "nl_inv (w\<lparr>tid_vector := xbj\<rparr>) = nl_inv w"
  "nl_inv (w\<lparr>m_fakeAcceptedSockets := xbk\<rparr>) = nl_inv w"
  "nl_inv (w\<lparr>m_connectedSockets := xbl\<rparr>) = nl_inv w"
  "nl_inv (w\<lparr>pollLoopDetector := xbm\<rparr>) = nl_inv w"
  "nl_inv (w\<lparr>m_printStdout := xbn\<rparr>) = nl_inv w"
  "nl_inv (w\<lparr>rt_entries := xbo\<rparr>) = nl_inv w"
  "nl_inv (w\<lparr>already_handled := xbp\<rparr>) = nl_inv w"
  "nl_inv (w\<lparr>timeout_event := xbq\<rparr>) = nl_inv w"
  "nl_inv (w\<lparr>sel_next := xbr\<rparr>) = nl_inv w"
  "nl_inv (w\<lparr>cb_recv := xbs\<rparr>) = nl_inv w"
  "nl_inv (w\<lparr>cb_send := xbt\<rparr>) = nl_inv w"
  "nl_inv (w\<lparr>cb_accept := xbu\<rparr>) = nl_inv w"
  "nl_inv (w\<lparr>cb_connect := xbv\<rparr>) = nl_inv w"
  "nl_inv (w\<lparr>events := xbw\<rparr>) = nl_inv w"
  "nl_inv (w\<lparr>ev_next := xbx\<rparr>) = nl_inv w"
  "nl_inv (w\<lparr>stdout := xby\<rparr>) = nl_inv w"
  "nl_inv (w\<lparr>m_sockets := xbz\<rparr>) = nl_inv w"
  "nl_inv (w\<lparr>m_tcpSockets := xca\<rparr>) = nl_inv w"
  "nl_inv (w\<lparr>m_isListenTcpSocket := xcb\<rparr>) = nl_inv w"
  "nl_inv (w\<lparr>m_nonblocking_sockets := xcc\<rparr>) = nl_inv w"
  "nl_inv (w\<lparr>m_random_fds := xcd\<rparr>) = nl_inv w"
  "nl_inv (w\<lparr>availableFDs := xce\<rparr>) = nl_inv w"
  by (simp_all add: nl_inv_def)

interpretation nli: priv_invariant nl_inv
  by unfold_locales (simp_all add: nl_inv_def Schedule_def Cancel_def split: option.split)

section \<open>A faked call that completes\<close>

text \<open>
  \<open>getpid\<close> cannot fail and changes nothing but the register of its result: a tracee resumed
  at the entry of \<open>getpid\<close> stops at its exit. Under this hypothesis on the kernel a faked call
  is one update of the tracee's registers.
\<close>

definition getpid_ok :: "'x env \<Rightarrow> bool" where
  "getpid_ok E \<longleftrightarrow> (\<forall>p t. get_reg p ORIG_RAX t = c_reg SYS_getpid \<longrightarrow>
     (\<exists>v. WaitForSyscall E p t = Some (0, set_reg p RAX v t)))"

definition faked :: "pid \<Rightarrow> 64 word \<Rightarrow> 'x grail \<Rightarrow> 'x grail" where
  "faked p v w = w\<lparr>tr := set_reg p RAX v (set_reg p ORIG_RAX (c_reg SYS_getpid) (tr w))\<rparr>"

lemma set_reg_twice [simp]: "set_reg p r v (set_reg p r u t) = set_reg p r v t"
  by (simp add: set_reg_def)

lemma faked_run:
  assumes "getpid_ok E"
  obtains u where "WaitForSyscall E p (set_reg p ORIG_RAX (c_reg SYS_getpid) t)
    = Some (0, set_reg p RAX u (set_reg p ORIG_RAX (c_reg SYS_getpid) t))"
proof -
  have "get_reg p ORIG_RAX (set_reg p ORIG_RAX (c_reg SYS_getpid) t) = c_reg SYS_getpid" by simp
  with assms show ?thesis using that unfolding getpid_ok_def by blast
qed

lemma FAKE_faked: "getpid_ok E \<Longrightarrow> FAKE E p v w k = k (faked p v w)"
  by (erule faked_run [where p = p and t = "tr w"]) (simp add: FAKE_def faked_def)

lemma FAKE2_faked: "getpid_ok E \<Longrightarrow> FAKE2 E p v res w k = k res (faked p v w)"
  by (erule faked_run [where p = p and t = "tr w"]) (simp add: FAKE2_def faked_def)

lemma FAKE4_faked: "getpid_ok E \<Longrightarrow> FAKE4 E p v res w k = k res (faked p v w)"
  by (erule faked_run [where p = p and t = "tr w"]) (simp add: FAKE4_def faked_def)

lemmas fakes = FAKE_faked FAKE2_faked FAKE4_faked

lemma faked_result [simp]:
  "get_reg p RAX (tr (faked p v w)) = v" "memory_of (faked p v w) = memory_of w"
  "xt (faked p v w) = xt w" "get_reg p ORIG_RAX (tr (faked p v w)) = c_reg SYS_getpid"
  by (simp_all add: faked_def)

text \<open>A tracee that exits in the faked call.\<close>

lemma FAKE_exit:
  "WaitForSyscall E p (set_reg p ORIG_RAX (c_reg SYS_getpid) (tr w)) = Some (Suc 0, t) \<Longrightarrow>
   FAKE E p v w k = Ret SYSC_ERROR (w\<lparr>tr := t\<rparr>)"
  by (simp add: FAKE_def)

section \<open>The initial state\<close>

lemma fd_inv_init: "fd_inv (fst (GrailApplication t a b c d e))"
  by (simp add: GrailApplication_def fd_inv_def insert_fds_eq MAX_NUM_FDS_def)

lemma nl_inv_init: "nl_inv (fst (GrailApplication t a b c d e))"
  by (simp add: GrailApplication_def nl_inv_def)

end
