(* ===== verification/Grail_Demo.thy ===== *)
theory Grail_Demo
  imports Grail_Contract
begin

text \<open>
  A concrete environment and state for runs of the model: a kernel that stops at once at the
  exit of every call, one network interface, an empty receive queue in every socket but
  number 7, and random numbers that count. The simulator's state is the clock.
\<close>

definition demo_env :: "nat env" where
  "demo_env = \<lparr>
     k_wait = (\<lambda>p t. (Some 0x857f, set_reg p RAX 4711 t)), k_junk = 0x7f,
     e_Now = (\<lambda>x. x),
     e_CreateSocket = (\<lambda>tcp x. (x + 5, x)),
     e_Close = (\<lambda>s x. x),
     e_GetRxAvailable = (\<lambda>s x. if s = 7 then 3 else 0),
     e_GetTxAvailable = (\<lambda>s x. if s = 7 then 2 else 0),
     e_Recv = (\<lambda>s n x. ((3, [65, 66, 67]), x)),
     e_RecvFrom = (\<lambda>s n f x. ((3, [65, 66, 67], InetSocketAddress 0x0a000001 80), x)),
     e_Send = (\<lambda>s bs x. (int (length bs), x)),
     e_SendTo = (\<lambda>s bs f a x. (int (length bs), x)),
     e_Bind = (\<lambda>s a x. (0, x)),
     e_Listen = (\<lambda>s x. (0, x)),
     e_Connect = (\<lambda>s a x. x),
     e_GetSockName = (\<lambda>s x. (0, InetSocketAddress 0x0a000001 80)),
     e_GetPeerName = (\<lambda>s x. (0, InetSocketAddress 0x0a000002 81)),
     e_SetAllowBroadcast = (\<lambda>s b x. x),
     e_GetAllowBroadcast = (\<lambda>s x. False),
     e_GetAttribute = (\<lambda>s a x. if s = 7 then Some 536 else None),
     e_IsTcp = (\<lambda>s x. s = 7),
     e_Random = (\<lambda>x. (x, x + 1)),
     e_NDevices = (\<lambda>x. 2),
     e_Device = (\<lambda>i x. if i = 0 then LoopbackNetDevice else WifiNetDevice),
     e_IsLinkUp = (\<lambda>i x. True),
     e_IsBroadcast = (\<lambda>i x. i = 1),
     e_IsMulticast = (\<lambda>i x. i = 1),
     e_IsPointToPoint = (\<lambda>i x. False),
     e_GetMtu = (\<lambda>i x. 1500),
     e_InterfaceForDevice = (\<lambda>i x. i),
     e_ifLocal = (\<lambda>i x. if i = 0 then 0x7f000001 else 0x0a000001),
     e_ifBroadcast = (\<lambda>i x. 0x0a0000ff),
     e_ifMask = (\<lambda>i x. 0xffffff00),
     e_PrefixLength = (\<lambda>m. 24),
     e_Ipv4Address = (\<lambda>s. 0),
     e_Print = (\<lambda>a. ''10.0.0.1''),
     e_nlmsg_ok = (\<lambda>n rem. 16 \<le> rem \<and> int n \<le> rem),
     e_nlmsg_next = (\<lambda>n rem. (n, rem - int n)),
     e_nlmsg_hdr = (\<lambda>m. replicate 16 0),
     e_junk = (\<lambda>n. replicate n 0),
     e_reno = 0x6f6e6572\<rparr>"

lemma demo_kernel_wait:
  "k_wait K = k_wait demo_env \<Longrightarrow> WaitForSyscall K p t = Some (0, set_reg p RAX 4711 t)"
  unfolding WaitForSyscall_def
  by (subst wait_loop_done) (simp_all add: wait_once_def demo_env_def wait_done_def syscall_stop_def
      WIFSTOPPED_def WSTOPSIG_def)

lemmas demo_wait = demo_kernel_wait [OF refl]

lemma demo_kernel_getpid: "k_wait E = k_wait demo_env \<Longrightarrow> getpid_ok E"
  unfolding getpid_ok_def using demo_kernel_wait by blast

lemmas demo_getpid = demo_kernel_getpid [OF refl]

text \<open>The state after start-up, with the arguments of one pending call of thread 1.\<close>

definition demo_args :: "64 word list \<Rightarrow> reg \<Rightarrow> 64 word" where
  "demo_args xs r = (case r of RDI \<Rightarrow> xs ! 0 | RSI \<Rightarrow> xs ! 1 | RDX \<Rightarrow> xs ! 2 | R10 \<Rightarrow> xs ! 3
     | R8 \<Rightarrow> xs ! 4 | R9 \<Rightarrow> xs ! 5 | RAX \<Rightarrow> 0 | ORIG_RAX \<Rightarrow> 0)"

definition demo_state :: "64 word list \<Rightarrow> nat grail" where
  "demo_state xs =
     (fst (GrailApplication \<lparr>regs = (\<lambda>p. demo_args xs), mem = demo_mem, ext = 0\<rparr>
        True False 10 True 0))\<lparr>cur_pid := 1, app_pid := 1, tid_vector := [1]\<rparr>"

end
