(* ===== verification/Grail_Address.thy ===== *)
theory Grail_Address
  imports Grail_Demo
begin

text \<open>
  Socket addresses in \<^verbatim>\<open>src/model/grail.cc\<close>: \<open>GetNs3Address\<close>, \<open>SetBsdAddress\<close> and the two
  \<open>MakeBsdAddress\<close>, with the C library's \<open>inet_ntop\<close>, \<open>inet_pton\<close>, \<open>htons\<close> and \<open>ntohs\<close> for
  IPv4. A \<open>sockaddr_in\<close> is its 16 bytes: family, port and address in network order, and eight
  bytes of padding. Parsing and printing of the simulator's own addresses are parameters.
\<close>

section \<open>Network byte order\<close>

definition htons :: "16 word \<Rightarrow> 16 word" where
  "htons v = push_bit 8 v OR drop_bit 8 v"

definition be_bytes :: "32 word \<Rightarrow> byte list" where
  "be_bytes a = rev (le_bytes 4 (unat a))"

definition ushort_bytes :: "16 word \<Rightarrow> byte list" where
  "ushort_bytes v = le_bytes 2 (unat v)"

section \<open>Dotted quads\<close>

fun inet_ntop :: "byte list \<Rightarrow> string" where
  "inet_ntop [] = []"
| "inet_ntop [b] = to_string (unat b)"
| "inet_ntop (b # bs) = to_string (unat b) @ ''.'' @ inet_ntop bs"

text \<open>
  The parser of \<open>inet_pton\<close>: the octets read, and the octet that is being read once it has a
  digit. It refuses an octet above 255, one with a leading zero, and any other shape than
  four octets between dots.
\<close>

fun pton :: "string \<Rightarrow> byte list \<Rightarrow> nat option \<Rightarrow> byte list option" where
  "pton [] octets cur =
     (case cur of None \<Rightarrow> None
      | Some n \<Rightarrow> if length octets = 3 then Some (octets @ [of_nat n]) else None)"
| "pton (ch # src) octets cur =
     (if 48 \<le> (of_char ch :: nat) \<and> (of_char ch :: nat) \<le> 57 then
        let d = of_char ch - 48 in
        (case cur of
           None \<Rightarrow> pton src octets (Some d)
         | Some n \<Rightarrow> if n = 0 \<or> 255 < n * 10 + d then None else pton src octets (Some (n * 10 + d)))
      else if ch = CHR ''.'' then
        (case cur of
           None \<Rightarrow> None
         | Some n \<Rightarrow> if length octets = 3 then None else pton src (octets @ [of_nat n]) None)
      else None)"

definition inet_pton :: "string \<Rightarrow> byte list option" where
  "inet_pton src = pton src [] None"

text \<open>The usual text of an address.\<close>

definition dotted :: "ip \<Rightarrow> string" where
  "dotted a = inet_ntop (be_bytes a)"

section \<open>The conversions\<close>

definition GetNs3Address ::
  "'x env \<Rightarrow> addr \<Rightarrow> nat \<Rightarrow> 'x grail \<Rightarrow> (address option, 'x grail) outcome" where
  "GetNs3Address E a addrlen w =
     NS_ASSERT (addrlen \<le> 16) w (\<lambda>w.
       let addr' = copy_in (memory_of w) a addrlen @ drop addrlen (uninit E 16) in
       if le_nat (take 2 addr') \<noteq> nat AF_INET then Ret None w
       else
         let port = htons (of_nat (le_nat (take 2 (drop 2 addr'))));
             addr_str = inet_ntop (take 4 (drop 4 addr'))
         in Ret (Some (InetSocketAddress (e_Ipv4Address E addr_str) port)) w)"

definition SetBsdAddress ::
  "'x env \<Rightarrow> address \<Rightarrow> addr \<Rightarrow> addr \<Rightarrow> 'x grail \<Rightarrow> (bool, 'x grail) outcome" where
  "SetBsdAddress E ns3Address a addrlen w =
     (if a = 0 then Ret True w
      else case ns3Address of
        OtherAddress \<Rightarrow> Ret False w
      | InetSocketAddress ip port \<Rightarrow>
          let addrlen' = le_nat (copy_in (memory_of w) addrlen 4);
              copylen = min addrlen' 16;
              sin_addr = (case inet_pton (e_Print E ip) of Some bs \<Rightarrow> bs | None \<Rightarrow> replicate 4 0);
              cAddr = ushort_bytes (of_int AF_INET) @ ushort_bytes (htons port) @ sin_addr @ replicate 8 0
          in copy_to a (take copylen cAddr) w (\<lambda>w.
               copy_to addrlen (le_bytes 4 16) w (Ret True)))"

text \<open>Family and address are written over a local \<open>sockaddr_in\<close>; the other fields stay.\<close>

definition MakeBsdAddress :: "'x env \<Rightarrow> ip \<Rightarrow> byte list \<Rightarrow> byte list" where
  "MakeBsdAddress E ns3Address a =
     ushort_bytes (of_int AF_INET) @ take 2 (drop 2 a)
     @ (case inet_pton (e_Print E ns3Address) of Some bs \<Rightarrow> bs | None \<Rightarrow> take 4 (drop 4 a))
     @ drop 8 a"

definition MakeBsdAddress_mask :: "32 word \<Rightarrow> byte list \<Rightarrow> byte list" where
  "MakeBsdAddress_mask ns3Mask a =
     ushort_bytes (of_int AF_INET) @ take 2 (drop 2 a)
     @ le_bytes 4 (unat (ucast (htons (ucast ns3Mask)) :: 32 word))
     @ drop 8 a"

section \<open>Dotted quads are read back\<close>

lemma to_string_small: "n < 10 \<Longrightarrow> to_string n = [char_of (48 + n)]"
  by (simp add: to_string.simps)

lemma to_string_step: "\<not> n < 10 \<Longrightarrow> to_string n = to_string (n div 10) @ [char_of (48 + n mod 10)]"
  by (subst to_string.simps) simp

lemma digit_char:
  assumes "d < 10"
  shows "of_char (char_of (48 + d) :: char) = (48 + d :: nat)"
  using assms by simp

lemma pton_digit:
  assumes "d < 10"
  shows "pton (char_of (48 + d) # src) os cur =
    (case cur of
       None \<Rightarrow> pton src os (Some d)
     | Some n \<Rightarrow> if n = 0 \<or> 255 < n * 10 + d then None else pton src os (Some (n * 10 + d)))"
  using assms by (simp add: digit_char)

lemma pton_number:
  "n < 256 \<Longrightarrow> pton (to_string n @ rest) os None = pton rest os (Some n)"
proof (induction n arbitrary: rest rule: less_induct)
  case (less n)
  show ?case
  proof (cases "n < 10")
    case True
    then show ?thesis by (simp only: to_string_small pton_digit append.simps option.case)
  next
    case False
    have d: "n mod 10 < 10" by simp
    have "pton (to_string n @ rest) os None
        = pton (to_string (n div 10) @ char_of (48 + n mod 10) # rest) os None"
      using to_string_step [OF False] by simp
    also have "\<dots> = pton (char_of (48 + n mod 10) # rest) os (Some (n div 10))"
      using less.prems False by (intro less.IH) simp_all
    also have "\<dots> = pton rest os (Some n)"
      using less.prems False by (simp only: pton_digit [OF d] option.case) (simp add: div_eq_0_iff)
    finally show ?thesis .
  qed
qed

lemma pton_dot: "pton (''.'' @ rest) os (Some n) =
    (if length os = 3 then None else pton rest (os @ [of_nat n]) None)"
  by simp

lemma inet_round_trip: "inet_pton (inet_ntop [a, b, c, d]) = Some [a, b, c, d]"
  using pton_number [of "unat d" "[]"]
  by (simp add: inet_pton_def pton_number pton_dot)

section \<open>The invariants are kept\<close>

lemma keeps_GetNs3Address [keeps_intros]: "I w \<Longrightarrow> keeps I (GetNs3Address E a n w)"
  unfolding GetNs3Address_def Let_def by (intro keeps_intros | simp)+

context priv_invariant
begin

lemma keeps_SetBsdAddress [keeps_intros]: "I w \<Longrightarrow> keeps I (SetBsdAddress E ad a n w)"
  unfolding SetBsdAddress_def Let_def
  by (cases ad) (simp_all add: keeps_copy_to)

end

section \<open>Properties\<close>

lemma htons_htons [simp]: "htons (htons v) = v"
  unfolding htons_def by (rule bit_word_eqI) (auto simp add: bit_simps)

lemma length_be_bytes [simp]: "length (be_bytes a) = 4"
  by (simp add: be_bytes_def)

lemma length_ushort_bytes [simp]: "length (ushort_bytes v) = 2"
  by (simp add: ushort_bytes_def)

lemma le_nat_ushort: "le_nat (ushort_bytes v) = unat v"
  using unsigned_less [of v, where 'a = nat] by (simp add: ushort_bytes_def le_nat_le_bytes)

lemma le_bytes_4: "le_bytes 4 n = [of_nat (n mod 256), of_nat (n div 256 mod 256),
    of_nat (n div 256 div 256 mod 256), of_nat (n div 256 div 256 div 256 mod 256)]"
proof -
  have four: "(4 :: nat) = Suc (Suc (Suc (Suc 0)))" by simp
  show ?thesis unfolding four le_bytes.simps by (rule refl)
qed

lemma inet_pton_dotted: "inet_pton (dotted a) = Some (be_bytes a)"
proof -
  obtain b0 b1 b2 b3 where "be_bytes a = [b0, b1, b2, b3]"
    unfolding be_bytes_def le_bytes_4 by simp
  then show ?thesis by (simp only: dotted_def inet_round_trip)
qed

text \<open>The simulator's addresses print as dotted quads and are parsed from them.\<close>

definition ip_text_ok :: "'x env \<Rightarrow> bool" where
  "ip_text_ok E \<longleftrightarrow> (\<forall>a. e_Print E a = dotted a \<and> e_Ipv4Address E (dotted a) = a)"

definition sockaddr_in :: "ip \<Rightarrow> 16 word \<Rightarrow> byte list" where
  "sockaddr_in ip port = ushort_bytes 2 @ ushort_bytes (htons port) @ be_bytes ip @ replicate 8 0"

lemma length_sockaddr_in [simp]: "length (sockaddr_in ip port) = 16"
  by (simp add: sockaddr_in_def)

lemma GetNs3Address_sockaddr:
  assumes "ip_text_ok E" and "copy_in (memory_of w) a 16 = sockaddr_in ip port"
  shows "GetNs3Address E a 16 w = Ret (Some (InetSocketAddress ip port)) w"
  using assms
  by (simp add: GetNs3Address_def NS_ASSERT_def sockaddr_in_def le_nat_ushort ip_text_ok_def
      dotted_def [symmetric])

lemma SetBsdAddress_sockaddr:
  assumes "ip_text_ok E" and "a \<noteq> 0"
  shows "SetBsdAddress E (InetSocketAddress ip port) a lenp w =
    copy_to a (take (le_nat (copy_in (memory_of w) lenp 4)) (sockaddr_in ip port)) w (\<lambda>w.
      copy_to lenp (le_bytes 4 16) w (Ret True))"
proof -
  have "take (min n 16) (sockaddr_in ip port) = take n (sockaddr_in ip port)" for n
    by (cases "n \<le> 16") (simp_all add: min_def)
  then show ?thesis using assms
    by (simp add: SetBsdAddress_def ip_text_ok_def inet_pton_dotted Let_def
        sockaddr_in_def [symmetric] del: take_append append_assoc)
qed

text \<open>The memory after \<open>SetBsdAddress\<close>: the structure, then its length.\<close>

definition with_address :: "addr \<Rightarrow> addr \<Rightarrow> ip \<Rightarrow> 16 word \<Rightarrow> memory \<Rightarrow> memory" where
  "with_address a lenp ip port m = store (store m a (sockaddr_in ip port)) lenp (le_bytes 4 16)"

lemma SetBsdAddress_stores:
  assumes "ip_text_ok E" and "a \<noteq> 0" and "16 \<le> le_nat (copy_in (memory_of w) lenp 4)"
    and "mapped (memory_of w) a 16" and "mapped (memory_of w) lenp 8"
  shows "SetBsdAddress E (InetSocketAddress ip port) a lenp w
    = Ret True (set_mem (with_address a lenp ip port (memory_of w)) w)"
proof -
  let ?m = "store (memory_of w) a (sockaddr_in ip port)"
  have "copy_out (memory_of w) a (sockaddr_in ip port) = Some ?m"
    "copy_out ?m lenp (le_bytes 4 16) = Some (with_address a lenp ip port (memory_of w))"
    using assms(4,5) by (simp_all add: with_address_def copy_out_eq round8_def mapped_store)
  then show ?thesis
    using assms(3) by (simp add: SetBsdAddress_sockaddr [OF assms(1,2)] copy_to_def set_mem_def)
qed

lemma with_address_copy_in:
  assumes "mapped m a 16" and "mapped m lenp 8" and "apart lenp 4 a 16"
  shows "copy_in (with_address a lenp ip port m) a 16 = sockaddr_in ip port"
    "copy_in (with_address a lenp ip port m) lenp 4 = le_bytes 4 16"
proof -
  have "copy_out m a (sockaddr_in ip port) = Some (store m a (sockaddr_in ip port))"
    "copy_out (store m a (sockaddr_in ip port)) lenp (le_bytes 4 16) = Some (with_address a lenp ip port m)"
    using assms(1,2) by (simp_all add: with_address_def copy_out_eq round8_def mapped_store)
  from tc.two_writes [OF _ _ this] assms(3)
  show "copy_in (with_address a lenp ip port m) a 16 = sockaddr_in ip port"
    "copy_in (with_address a lenp ip port m) lenp 4 = le_bytes 4 16" by simp_all
qed

text \<open>
  (C30) Round trip of an address through the tracee's memory: what \<open>SetBsdAddress\<close> writes,
  \<open>GetNs3Address\<close> reads back as the same address and port, and the length the tracee finds is
  the size of the structure.
\<close>

theorem SetBsdAddress_round_trip:
  assumes "ip_text_ok E" and "a \<noteq> 0" and "16 \<le> le_nat (copy_in (memory_of w) lenp 4)"
    and "mapped (memory_of w) a 16" and "mapped (memory_of w) lenp 8" and "apart lenp 4 a 16"
  shows "\<exists>w'. SetBsdAddress E (InetSocketAddress ip port) a lenp w = Ret True w' \<and>
    GetNs3Address E a 16 w' = Ret (Some (InetSocketAddress ip port)) w' \<and>
    le_nat (copy_in (memory_of w') lenp 4) = 16"
  using SetBsdAddress_stores [OF assms(1-5), of ip port] with_address_copy_in [OF assms(4-6), of ip port]
  by (simp add: GetNs3Address_sockaddr [OF assms(1)] set_mem_def le_nat_le_bytes)

text \<open>
  The netmask conversion writes the right four bytes for no mask but 0: its \<open>htons\<close>
  truncates the mask to its low half.
\<close>

lemma byte_zero_iff: "(of_nat (n mod 256) :: byte) = 0 \<longleftrightarrow> n mod 256 = 0"
proof -
  have "(of_nat (n mod 256) :: byte) = 0 \<longleftrightarrow> unat (of_nat (n mod 256) :: byte) = 0"
    by (simp only: unsigned_eq_0_iff)
  then show ?thesis by (simp only: unat_byte_mod)
qed

theorem MakeBsdAddress_mask_wrong:
  assumes "length a = 16"
  shows "(take 4 (drop 4 (MakeBsdAddress_mask k a)) = be_bytes k) = (k = 0)"
proof -
  define h :: "16 word" where "h = htons (ucast k)"
  have field: "take 4 (drop 4 (MakeBsdAddress_mask k a)) = le_bytes 4 (unat h)"
  proof -
    have "unat (ucast h :: 32 word) = unat h"
      using unsigned_less [of h, where 'a = nat] by (simp add: unsigned_ucast_eq take_bit_eq_mod)
    then show ?thesis using assms by (simp add: MakeBsdAddress_mask_def h_def)
  qed
  have zero: "k = 0" if eq: "le_bytes 4 (unat h) = be_bytes k"
  proof -
    have "unat h < 65536" using unsigned_less [of h, where 'a = nat] by simp
    then have "unat h div 256 div 256 = 0" by (simp flip: div_mult2_eq)
    with eq have "unat k mod 256 = 0" "unat k div 256 mod 256 = 0"
      unfolding be_bytes_def le_bytes_4 by (simp_all add: byte_zero_iff)
    then have "unat k mod 65536 = 0" using mod_mult2_eq [of "unat k" 256 256] by simp
    then have "unat (ucast k :: 16 word) = 0" by (simp add: unsigned_ucast_eq take_bit_eq_mod)
    then have "h = 0" unfolding h_def htons_def unsigned_eq_0_iff by simp
    with eq have "rev (le_bytes 4 (unat k)) = [0, 0, 0, 0]" unfolding be_bytes_def le_bytes_4 by simp
    then have "le_bytes 4 (unat k) = le_bytes 4 0" unfolding le_bytes_4 by simp
    then have "le_nat (le_bytes 4 (unat k)) = le_nat (le_bytes 4 0)" by simp
    then show "k = 0" using unsigned_less [of k, where 'a = nat]
      by (simp add: le_nat_le_bytes unsigned_eq_0_iff)
  qed
  have "le_bytes 4 (unat h) = be_bytes k" if "k = 0"
    using that unfolding h_def by (simp add: htons_def be_bytes_def le_bytes_4)
  with zero show ?thesis unfolding field by blast
qed

theorem MakeBsdAddress_mask_wrong_witness:
  "take 4 (drop 4 (MakeBsdAddress_mask 0xffffff00 (replicate 16 0))) \<noteq> be_bytes 0xffffff00"
  using MakeBsdAddress_mask_wrong [of "replicate 16 0" "0xffffff00"] by simp

definition demo_text_env :: "nat env" where
  "demo_text_env = demo_env\<lparr>e_Print := dotted,
     e_Ipv4Address := (\<lambda>s. case inet_pton s of Some bs \<Rightarrow> of_nat (le_nat (rev bs)) | None \<Rightarrow> 0)\<rparr>"

lemma demo_text_ok: "ip_text_ok demo_text_env"
proof -
  have "of_nat (le_nat (rev (be_bytes a))) = a" for a
    using unsigned_less [of a, where 'a = nat] by (simp add: be_bytes_def le_nat_le_bytes)
  then show ?thesis by (simp add: ip_text_ok_def demo_text_env_def inet_pton_dotted)
qed

theorem SetBsdAddress_round_trip_witness:
  "\<exists>w'. SetBsdAddress demo_text_env (InetSocketAddress 0x0a000001 80) 8 32
       (set_mem (store demo_mem 32 [16, 0, 0, 0]) (demo_state [])) = Ret True w' \<and>
     GetNs3Address demo_text_env 8 16 w' = Ret (Some (InetSocketAddress 0x0a000001 80)) w'"
proof -
  let ?w = "set_mem (store demo_mem 32 [16, 0, 0, 0]) (demo_state [])"
  have m: "memory_of ?w = store demo_mem 32 [16, 0, 0, 0]" by (simp add: set_mem_def)
  have mapped: "mapped (memory_of ?w) 8 16" "mapped (memory_of ?w) 32 8"
    unfolding m by (rule mapped_store, simp add: mapped_def demo_mem_def upt_rec)+
  moreover have "copy_in (memory_of ?w) 32 4 = [16, 0, 0, 0]"
  proof -
    have "copy_in (memory_of ?w) 32 4 = fetch (memory_of ?w) 32 4"
      using mapped(2) by (simp add: tc.cin_mapped round8_def)
    then show ?thesis unfolding m by (simp add: fetch_def store_def upt_rec)
  qed
  then have "16 \<le> le_nat (copy_in (memory_of ?w) 32 4)" by simp
  moreover have "apart 32 4 8 16" by (simp add: apart_def upt_rec)
  ultimately show ?thesis
    using SetBsdAddress_round_trip [OF demo_text_ok, of 8 ?w 32 "0x0a000001" 80] by auto
qed

end
