(* ===== verification/Netlink.thy ===== *)
theory Netlink
  imports Grail_Address
begin

text \<open>
  \<^verbatim>\<open>src/model/netlink.h\<close> and \<^verbatim>\<open>src/model/netlink.cc\<close>: the emulated NETLINK_ROUTE sockets. Link
  and address dumps become messages in the socket's reply queue, route requests update the
  routing table of \<open>Route\<close>.

  A received buffer is its bytes, a header the offset in it where it starts; a read outside
  the buffer is \<open>OutOfBounds\<close>. The message library's \<open>nlmsg_ok\<close> and \<open>nlmsg_next\<close> are parameters
  over the header's length field and the remaining length; its attribute macros are the
  system's and are written out. The \<open>std::function\<close> of a receive callback is an argument.
\<close>

section \<open>Objects\<close>

definition with_nl ::
  "nat \<Rightarrow> 'x grail \<Rightarrow> (netlink_socket \<Rightarrow> ('a, 'x grail) outcome) \<Rightarrow> ('a, 'x grail) outcome" where
  "with_nl n w k = (case nl_objs w n of None \<Rightarrow> Halt NullPointer w | Some s \<Rightarrow> k s)"

definition put_nl :: "nat \<Rightarrow> netlink_socket \<Rightarrow> 'x grail \<Rightarrow> 'x grail" where
  "put_nl n s w = w\<lparr>nl_objs := (nl_objs w)(n \<mapsto> s)\<rparr>"

text \<open>The constructor; \<open>nl_pid\<close> and \<open>nl_groups\<close> are not initialised.\<close>

definition NetlinkSocket :: "'x env \<Rightarrow> pid \<Rightarrow> int \<Rightarrow> netlink_socket" where
  "NetlinkSocket E p prot = \<lparr>nl_owner = p, nl_pid = of_nat (le_nat (uninit E 4)),
     nl_groups = of_nat (le_nat (uninit E 4)), nl_protocol = prot, reply_queue = [],
     recv_callback = None, has_recv_callback = False\<rparr>"

definition HasData :: "netlink_socket \<Rightarrow> bool" where
  "HasData s \<longleftrightarrow> reply_queue s \<noteq> []"

definition SetRecvCallback :: "select_capture \<Rightarrow> netlink_socket \<Rightarrow> netlink_socket" where
  "SetRecvCallback f s = s\<lparr>recv_callback := Some f, has_recv_callback := True\<rparr>"

definition UnsetRecvCallback :: "netlink_socket \<Rightarrow> netlink_socket" where
  "UnsetRecvCallback s = s\<lparr>has_recv_callback := False\<rparr>"

definition push_reply :: "nl_msg \<Rightarrow> netlink_socket \<Rightarrow> netlink_socket" where
  "push_reply m s = s\<lparr>reply_queue := reply_queue s @ [m]\<rparr>"

section \<open>bind and getsockname\<close>

text \<open>A \<open>sockaddr_nl\<close>: family, padding, process id, groups. The handlers use the creator's pid.\<close>

definition nl_HandleBind :: "'x env \<Rightarrow> nat \<Rightarrow> addr \<Rightarrow> 'x grail \<Rightarrow> (sysc, 'x grail) outcome" where
  "nl_HandleBind E n a w =
     with_nl n w (\<lambda>s.
       let addr' = copy_in (memory_of w) a 12;
           p = of_nat (le_nat (take 4 (drop 4 addr'))) :: 32 word;
           s1 = (if p = 0 then s\<lparr>nl_pid := word_of_int (nl_owner s)\<rparr> else s\<lparr>nl_pid := p\<rparr>);
           s2 = s1\<lparr>nl_groups := of_nat (le_nat (drop 8 addr'))\<rparr>;
           w1 = put_nl n s2 w
       in FAKE E (nl_owner s) 0 w1 (Ret SYSC_SUCCESS))"

definition nl_HandleGetSockName ::
  "'x env \<Rightarrow> nat \<Rightarrow> addr \<Rightarrow> addr \<Rightarrow> 'x grail \<Rightarrow> (sysc, 'x grail) outcome" where
  "nl_HandleGetSockName E n a addrlen w =
     with_nl n w (\<lambda>s.
       NS_ASSERT (a \<noteq> 0) w (\<lambda>w. NS_ASSERT (addrlen \<noteq> 0) w (\<lambda>w.
         let addrlen' = le_nat (copy_in (memory_of w) addrlen 4);
             addr' = le_bytes 2 (nat AF_NETLINK) @ le_bytes 2 0 @ le_bytes 4 (unat (nl_pid s)) @ le_bytes 4 0;
             copysize = min 12 addrlen'
         in copy_to a (take copysize addr') w (\<lambda>w.
              copy_to addrlen (le_bytes 4 copysize) w (\<lambda>w.
                FAKE E (nl_owner s) 0 w (Ret SYSC_SUCCESS))))))"

section \<open>recvmsg\<close>

text \<open>
  The reply's length is its header's length field. Of the tracee's \<open>msghdr\<close> the first
  \<open>iovec\<close> is used.
\<close>

definition nl_HandleRecvMsg :: "'x env \<Rightarrow> nat \<Rightarrow> addr \<Rightarrow> 'x grail \<Rightarrow> (sysc, 'x grail) outcome" where
  "nl_HandleRecvMsg E n message w =
     with_nl n w (\<lambda>s.
       case reply_queue s of
         [] \<Rightarrow> FAKE E (nl_owner s) (c_reg (- 1)) w (Ret SYSC_FAILURE)
       | reply # rest \<Rightarrow>
           let replyhdr = e_nlmsg_hdr E reply;
               replylen = le_nat (take 4 replyhdr);
               msg_iov = bytes_word (take 8 (drop 16 (copy_in (memory_of w) message 56)));
               iov = copy_in (memory_of w) msg_iov 16;
               iov_base = bytes_word (take 8 iov);
               len = le_nat (drop 8 iov)
           in NS_ASSERT (replylen \<le> len) w (\<lambda>w.
                copy_to iov_base (take replylen replyhdr) w (\<lambda>w.
                  let w1 = put_nl n (s\<lparr>reply_queue := rest\<rparr>) w in
                  FAKE E (nl_owner s) (of_nat replylen) w1 (Ret SYSC_SUCCESS))))"

section \<open>Route attributes\<close>

definition BsdInAddr4ToNs3Address :: "'x env \<Rightarrow> byte list \<Rightarrow> ip" where
  "BsdInAddr4ToNs3Address E in_addr = e_Ipv4Address E (inet_ntop in_addr)"

text \<open>\<open>BsdToNs3Address\<close>, on the bytes of a local \<open>sockaddr_in\<close>.\<close>

definition BsdToNs3Address :: "'x env \<Rightarrow> byte list \<Rightarrow> address option" where
  "BsdToNs3Address E a =
     (if le_nat (take 2 a) \<noteq> nat AF_INET then None
      else Some (InetSocketAddress (e_Ipv4Address E (inet_ntop (take 4 (drop 4 a))))
        (htons (of_nat (le_nat (take 2 (drop 2 a)))))))"

definition RTA_ALIGN :: "nat \<Rightarrow> nat" where
  "RTA_ALIGN n = (n + 3) div 4 * 4"

definition u16_at :: "byte list \<Rightarrow> nat \<Rightarrow> nat" where
  "u16_at buf i = le_nat (take 2 (drop i buf))"

record route_attrs =
  ra_dst :: "ip option"
  ra_gw :: "ip option"

text \<open>
  One attribute by its type; \<open>iif_known\<close> tells the two copies of the loop apart, only the one
  for new routes has a case for \<open>RTA_IIF\<close>. Every case but \<open>RTA_SRC\<close> reads four bytes after the
  attribute's header.
\<close>

definition route_attr ::
  "'x env \<Rightarrow> bool \<Rightarrow> byte list \<Rightarrow> nat \<Rightarrow> route_attrs \<Rightarrow> halt + route_attrs" where
  "route_attr E iif_known buf cur a =
     (let rta_type = u16_at buf (cur + 2);
          rta_data = take 4 (drop (cur + 4) buf)
      in if rta_type = RTA_SRC then Inr a
         else if rta_type \<notin> {RTA_DST, RTA_GATEWAY, RTA_PRIORITY, RTA_OIF}
           \<and> \<not> (iif_known \<and> rta_type = RTA_IIF) then Inl AssertFailure
         else if length buf < cur + 8 then Inl OutOfBounds
         else if rta_type = RTA_DST then Inr (a\<lparr>ra_dst := Some (BsdInAddr4ToNs3Address E rta_data)\<rparr>)
         else if rta_type = RTA_GATEWAY then Inr (a\<lparr>ra_gw := Some (BsdInAddr4ToNs3Address E rta_data)\<rparr>)
         else Inr a)"

text \<open>
  The loop over the attributes. \<open>rbuflen\<close> is unsigned, so the subtraction in \<open>RTA_NEXT\<close> wraps
  when the padded attribute is longer than what is left.
\<close>

lemma RTA_ALIGN_bounds: "n \<le> RTA_ALIGN n" "RTA_ALIGN n < n + 4"
  unfolding RTA_ALIGN_def by arith+

function rta_loop ::
  "'x env \<Rightarrow> bool \<Rightarrow> byte list \<Rightarrow> nat \<Rightarrow> 64 word \<Rightarrow> route_attrs \<Rightarrow> halt + route_attrs" where
  "rta_loop E iif_known buf cur rbuflen a =
     (if unat rbuflen < 4 then Inr a
      else if length buf < cur + 4 then Inl OutOfBounds
      else
        let rta_len = u16_at buf cur in
        if rta_len < 4 \<or> unat rbuflen < rta_len then Inr a
        else case route_attr E iif_known buf cur a of
          Inl h \<Rightarrow> Inl h
        | Inr a1 \<Rightarrow> rta_loop E iif_known buf (cur + RTA_ALIGN rta_len)
            (rbuflen - of_nat (RTA_ALIGN rta_len)) a1)"
  by pat_completeness auto
termination
proof (relation "measure (\<lambda>(E, iif_known, buf, cur, rbuflen, a). length buf - cur)")
  show "wf (measure (\<lambda>(E, iif_known, buf :: byte list, cur, rbuflen, a). length buf - cur))" by simp
next
  fix E :: "'x env" and iif_known :: bool and buf :: "byte list" and cur
    and rbuflen :: "64 word" and a a1 :: route_attrs and rta_len
  assume "\<not> length buf < cur + 4" and "rta_len = u16_at buf cur"
    and "\<not> (rta_len < 4 \<or> unat rbuflen < rta_len)"
  then show "((E, iif_known, buf, cur + RTA_ALIGN rta_len, rbuflen - of_nat (RTA_ALIGN rta_len), a1),
      (E, iif_known, buf, cur, rbuflen, a))
    \<in> measure (\<lambda>(E, iif_known, buf, cur, rbuflen, a). length buf - cur)"
    using RTA_ALIGN_bounds(1) [of rta_len] by auto
qed

declare rta_loop.simps [simp del]

section \<open>ProcessNlmsghdr\<close>

definition string_bytes :: "string \<Rightarrow> byte list" where
  "string_bytes s = map of_char s @ [0]"

text \<open>The interface names \<open>lo\<close>, \<open>wlan\<close> and \<open>eth\<close>, each with its own counter.\<close>

record if_counters =
  loi :: nat
  wlani :: nat
  ethi :: nat

definition next_ifname :: "device \<Rightarrow> if_counters \<Rightarrow> (string \<times> if_counters) option" where
  "next_ifname d c = (case d of
     LoopbackNetDevice \<Rightarrow> Some (''lo'' @ to_string (loi c), c\<lparr>loi := Suc (loi c)\<rparr>)
   | WifiNetDevice \<Rightarrow> Some (''wlan'' @ to_string (wlani c), c\<lparr>wlani := Suc (wlani c)\<rparr>)
   | PointToPointNetDevice \<Rightarrow> Some (''eth'' @ to_string (ethi c), c\<lparr>ethi := Suc (ethi c)\<rparr>)
   | OtherDevice \<Rightarrow> None)"

definition link_reply :: "'x env \<Rightarrow> nat \<Rightarrow> string \<Rightarrow> nl_msg" where
  "link_reply E i ifname = \<lparr>nm_type = RTM_NEWLINK, nm_flags = NLM_F_MULTI,
     nm_parts = [NlAppend ([0] @ uninit E 1 @ le_bytes 2 0 @ le_bytes 4 i @ le_bytes 4 0 @ le_bytes 4 0),
       NlAttr IFLA_IFNAME (string_bytes ifname)]\<rparr>"

definition done_msg :: nl_msg where
  "done_msg = \<lparr>nm_type = NLMSG_DONE, nm_flags = 0, nm_parts = []\<rparr>"

text \<open>The dump of the links, from device \<open>i\<close> on, \<open>k\<close> devices left.\<close>

fun GETLINK_loop ::
  "'x env \<Rightarrow> 'x \<Rightarrow> nat \<Rightarrow> nat \<Rightarrow> if_counters \<Rightarrow> netlink_socket \<Rightarrow> halt option \<times> netlink_socket" where
  "GETLINK_loop E x i 0 c s = (None, s)"
| "GETLINK_loop E x i (Suc k) c s =
     (case next_ifname (e_Device E i x) c of
        None \<Rightarrow> (Some AssertFailure, s)
      | Some (ifname, c1) \<Rightarrow>
          let s1 = push_reply (link_reply E i ifname) s;
              s2 = (if k = 0 then push_reply done_msg s1 else s1)
          in GETLINK_loop E x (Suc i) k c1 s2)"

text \<open>
  The header of an address has eight bytes, but the size of a link header is appended; the
  address is the simulator's host-order number.
\<close>

definition addr_reply :: "'x env \<Rightarrow> 'x \<Rightarrow> nat \<Rightarrow> nl_msg" where
  "addr_reply E x i =
     (let if_idx = e_InterfaceForDevice E i x;
          ipAddr = e_ifLocal E if_idx x;
          ipMask = e_ifMask E if_idx x
      in \<lparr>nm_type = RTM_NEWADDR, nm_flags = NLM_F_MULTI,
           nm_parts = [NlAppend ([of_int AF_INET, of_nat (e_PrefixLength E ipMask), 0, of_nat RT_SCOPE_HOST]
               @ le_bytes 4 i @ uninit E 8),
             NlAttr IFA_ADDRESS (le_bytes 4 (unat ipAddr))]\<rparr>)"

fun GETADDR_loop :: "'x env \<Rightarrow> 'x \<Rightarrow> nat \<Rightarrow> nat \<Rightarrow> netlink_socket \<Rightarrow> netlink_socket" where
  "GETADDR_loop E x i 0 s = s"
| "GETADDR_loop E x i (Suc k) s =
     (let s1 = push_reply (addr_reply E x i) s;
          s2 = (if k = 0 then push_reply done_msg s1 else s1)
      in GETADDR_loop E x (Suc i) k s2)"

definition ack_msg :: "'x env \<Rightarrow> nl_msg" where
  "ack_msg E = \<lparr>nm_type = NLMSG_ERROR, nm_flags = NLM_F_ACK,
     nm_parts = [NlAppend (le_bytes 4 0 @ uninit E 16)]\<rparr>"

text \<open>
  Adding and deleting a route have the same shape: the attributes are read, then the table is
  updated and an acknowledgement is queued; a route without destination or gateway fails an
  assertion. \<open>NLMSG_LENGTH(sizeof(rtmsg))\<close> is 28.
\<close>

definition ROUTE_request ::
  "'x env \<Rightarrow> bool \<Rightarrow> nat \<Rightarrow> byte list \<Rightarrow> nat \<Rightarrow> 'x grail \<Rightarrow> (unit, 'x grail) outcome" where
  "ROUTE_request E is_new n buf off w =
     with_nl n w (\<lambda>s.
       let nlmsg_len = le_nat (take 4 (drop off buf)) in
       NS_ASSERT (16 < nlmsg_len) w (\<lambda>w.
         if length buf < off + 28 then Halt OutOfBounds w
         else
           let rtm_dst_len = buf ! (off + 17);
               rtm_flags = of_nat (le_nat (take 4 (drop (off + 24) buf))) :: 32 word
           in NS_ASSERT (rtm_flags AND RTM_F_NOTIFY = 0) w (\<lambda>w.
                let rbuflen = of_nat nlmsg_len - 28 in
                case rta_loop E is_new buf (off + 28) rbuflen \<lparr>ra_dst = None, ra_gw = None\<rparr> of
                  Inl h \<Rightarrow> Halt h w
                | Inr a \<Rightarrow>
                    (case (ra_gw a, ra_dst a) of
                       (Some gw, Some dst) \<Rightarrow>
                         let es = (if is_new then AddRoute dst rtm_dst_len gw (rt_entries w)
                                   else DelRoute dst rtm_dst_len gw (rt_entries w))
                         in Ret () (put_nl n (push_reply (ack_msg E) s) (w\<lparr>rt_entries := es\<rparr>))
                     | _ \<Rightarrow> Halt AssertFailure w))))"

definition call_back ::
  "(nat \<Rightarrow> select_capture \<Rightarrow> 'x grail \<Rightarrow> (unit, 'x grail) outcome) \<Rightarrow> nat \<Rightarrow> 'x grail
   \<Rightarrow> (unit, 'x grail) outcome" where
  "call_back cb n w = with_nl n w (\<lambda>s.
     if has_recv_callback s then
       (case recv_callback s of None \<Rightarrow> Halt NullPointer w | Some f \<Rightarrow> cb n f w)
     else Ret () w)"

definition ProcessNlmsghdr ::
  "'x env \<Rightarrow> (nat \<Rightarrow> select_capture \<Rightarrow> 'x grail \<Rightarrow> (unit, 'x grail) outcome)
   \<Rightarrow> nat \<Rightarrow> byte list \<Rightarrow> nat \<Rightarrow> 'x grail \<Rightarrow> (unit, 'x grail) outcome" where
  "ProcessNlmsghdr E cb n buf off w =
     (let nlmsg_type = u16_at buf (off + 4);
          nlmsg_flags = of_nat (u16_at buf (off + 6)) :: 32 word;
          nDevices = e_NDevices E (xt w)
      in
      if nlmsg_type = RTM_GETLINK then
        NS_ASSERT (nlmsg_flags AND NLM_F_ROOT \<noteq> 0) w (\<lambda>w.
          with_nl n w (\<lambda>s.
            case GETLINK_loop E (xt w) 0 nDevices \<lparr>loi = 0, wlani = 0, ethi = 0\<rparr> s of
              (Some h, s1) \<Rightarrow> Halt h (put_nl n s1 w)
            | (None, s1) \<Rightarrow> call_back cb n (put_nl n s1 w)))
      else if nlmsg_type = RTM_GETADDR then
        NS_ASSERT (nlmsg_flags AND NLM_F_ROOT \<noteq> 0) w (\<lambda>w.
          with_nl n w (\<lambda>s.
            call_back cb n (put_nl n (GETADDR_loop E (xt w) 0 nDevices s) w)))
      else if nlmsg_type = RTM_NEWROUTE then ROUTE_request E True n buf off w
      else if nlmsg_type = RTM_DELROUTE then ROUTE_request E False n buf off w
      else Halt ExitFailure w)"

section \<open>sendmsg and sendto\<close>

text \<open>
  The loop over the messages of a buffer: the state and the remaining length when it ends, or
  \<open>None\<close> if it does not.
\<close>

partial_function (option) nlmsg_loop ::
  "'x env \<Rightarrow> (nat \<Rightarrow> select_capture \<Rightarrow> 'x grail \<Rightarrow> (unit, 'x grail) outcome)
   \<Rightarrow> nat \<Rightarrow> byte list \<Rightarrow> nat \<Rightarrow> int \<Rightarrow> 'x grail \<Rightarrow> (int, 'x grail) outcome option" where
  "nlmsg_loop E cb n buf off rem w =
     (let nlmsg_len = le_nat (take 4 (drop off buf)) in
      if e_nlmsg_ok E nlmsg_len rem then
        (case ProcessNlmsghdr E cb n buf off w of
           Halt h w1 \<Rightarrow> Some (Halt h w1)
         | Ret _ w1 \<Rightarrow>
             nlmsg_loop E cb n buf (off + fst (e_nlmsg_next E nlmsg_len rem))
               (snd (e_nlmsg_next E nlmsg_len rem)) w1)
      else Some (Ret rem w))"

definition run_nlmsgs ::
  "'x env \<Rightarrow> (nat \<Rightarrow> select_capture \<Rightarrow> 'x grail \<Rightarrow> (unit, 'x grail) outcome)
   \<Rightarrow> nat \<Rightarrow> byte list \<Rightarrow> int \<Rightarrow> 'x grail \<Rightarrow> (int, 'x grail) outcome" where
  "run_nlmsgs E cb n buf rem w =
     (case nlmsg_loop E cb n buf 0 rem w of None \<Rightarrow> Halt NoReturn w | Some r \<Rightarrow> r)"

text \<open>One \<open>iovec\<close> of the message after the other; the sum of their lengths is the result.\<close>

fun iov_loop ::
  "'x env \<Rightarrow> (nat \<Rightarrow> select_capture \<Rightarrow> 'x grail \<Rightarrow> (unit, 'x grail) outcome)
   \<Rightarrow> nat \<Rightarrow> addr \<Rightarrow> nat \<Rightarrow> 64 word \<Rightarrow> 'x grail \<Rightarrow> (64 word, 'x grail) outcome" where
  "iov_loop E cb n iovp 0 total_bytes w = Ret total_bytes w"
| "iov_loop E cb n iovp (Suc k) total_bytes w =
     with_nl n w (\<lambda>s.
       let iov = copy_in (memory_of w) iovp 16;
           len = bytes_word (drop 8 iov);
           buf = copy_in (memory_of w) (bytes_word (take 8 iov)) (unat len)
       in and_then (run_nlmsgs E cb n buf (c_int len) w) (\<lambda>_ w.
            iov_loop E cb n (iovp + 16) k (total_bytes + len) w))"

definition nl_HandleSendMsg ::
  "'x env \<Rightarrow> (nat \<Rightarrow> select_capture \<Rightarrow> 'x grail \<Rightarrow> (unit, 'x grail) outcome)
   \<Rightarrow> nat \<Rightarrow> addr \<Rightarrow> 'x grail \<Rightarrow> (sysc, 'x grail) outcome" where
  "nl_HandleSendMsg E cb n message w =
     with_nl n w (\<lambda>s.
       let msg = copy_in (memory_of w) message 56;
           msg_iov = bytes_word (take 8 (drop 16 msg));
           msg_iovlen = le_nat (take 8 (drop 24 msg))
       in and_then (iov_loop E cb n msg_iov msg_iovlen 0 w) (\<lambda>total_bytes w.
            FAKE E (nl_owner s) total_bytes w (Ret SYSC_SUCCESS)))"

text \<open>
  In \<open>sendto\<close> the remaining length overwrites the low half of \<open>len\<close>, which is then the
  result.
\<close>

definition nl_HandleSendTo ::
  "'x env \<Rightarrow> (nat \<Rightarrow> select_capture \<Rightarrow> 'x grail \<Rightarrow> (unit, 'x grail) outcome)
   \<Rightarrow> nat \<Rightarrow> addr \<Rightarrow> 64 word \<Rightarrow> int \<Rightarrow> 'x grail \<Rightarrow> (sysc, 'x grail) outcome" where
  "nl_HandleSendTo E cb n buf len flags w =
     with_nl n w (\<lambda>s.
       let buf' = copy_in (memory_of w) buf (unat len) in
       NS_ASSERT (flags = 0) w (\<lambda>w.
         and_then (run_nlmsgs E cb n buf' (c_int len) w) (\<lambda>rem w.
           let len' = (len AND NOT 0xffffffff) OR ucast (word_of_int rem :: 32 word) in
           FAKE E (nl_owner s) len' w (Ret SYSC_SUCCESS))))"

section \<open>The invariants are kept\<close>

text \<open>What the two invariants promise about an object's update.\<close>

locale netlink_invariant = priv_invariant +
  assumes I_put: "I w \<Longrightarrow> nl_objs w n = Some s0 \<Longrightarrow> I (put_nl n s w)"
    and I_add: "I w \<Longrightarrow> I (w\<lparr>rt_entries := AddRoute d l g (rt_entries w)\<rparr>)"
    and I_del: "I w \<Longrightarrow> I (w\<lparr>rt_entries := DelRoute d l g (rt_entries w)\<rparr>)"
begin

lemma keeps_with_nl [keeps_intros]:
  "I w \<Longrightarrow> (\<And>s. nl_objs w n = Some s \<Longrightarrow> keeps I (k s)) \<Longrightarrow> keeps I (with_nl n w k)"
  by (simp add: with_nl_def split: option.split)

lemma keeps_nl_bind: "I w \<Longrightarrow> keeps I (nl_HandleBind E n a w)"
  unfolding nl_HandleBind_def Let_def
  by (intro keeps_with_nl keeps_FAKE) (simp_all add: I_put)

lemma keeps_nl_getsockname: "I w \<Longrightarrow> keeps I (nl_HandleGetSockName E n a l w)"
  unfolding nl_HandleGetSockName_def Let_def
  by (intro keeps_with_nl keeps_NS_ASSERT keeps_copy_to keeps_FAKE) simp_all

lemma nl_objs_set_mem [simp]: "nl_objs (set_mem m w) = nl_objs w"
  by (simp add: set_mem_def)

lemma keeps_nl_recvmsg: "I w \<Longrightarrow> keeps I (nl_HandleRecvMsg E n a w)"
  unfolding nl_HandleRecvMsg_def Let_def
  by (intro keeps_with_nl) (simp_all add: keeps_FAKE keeps_NS_ASSERT keeps_copy_to I_put
      split: list.split)

lemma keeps_route_request: "I w \<Longrightarrow> keeps I (ROUTE_request E b n buf off w)"
proof (unfold ROUTE_request_def Let_def, intro keeps_with_nl keeps_NS_ASSERT keeps_if, simp_all)
  fix s assume w: "I w" and s: "nl_objs w n = Some s"
  have "I (put_nl n s1 (w\<lparr>rt_entries := AddRoute d l g (rt_entries w)\<rparr>))"
    and "I (put_nl n s1 (w\<lparr>rt_entries := DelRoute d l g (rt_entries w)\<rparr>))" for s1 d l g
    using I_put [OF I_add [OF w]] I_put [OF I_del [OF w]] s by simp_all
  then show "keeps I (case rta_loop E b buf (off + 28) l a of
      Inl h \<Rightarrow> Halt h w
    | Inr a \<Rightarrow> (case (ra_gw a, ra_dst a) of
        (Some gw, Some dst) \<Rightarrow>
          Ret () (put_nl n (push_reply (ack_msg E) s) (w\<lparr>rt_entries :=
            if b then AddRoute dst (buf ! (off + 17)) gw (rt_entries w)
            else DelRoute dst (buf ! (off + 17)) gw (rt_entries w)\<rparr>))
        | _ \<Rightarrow> Halt AssertFailure w))" for l a
    by (simp split: sum.split option.split)
qed

lemma keeps_call_back:
  assumes "\<forall>n f w. I w \<longrightarrow> keeps I (cb n f w)" and "I w"
  shows "keeps I (call_back cb n w)"
  unfolding call_back_def using assms
  by (intro keeps_with_nl) (simp_all split: option.split)

lemma keeps_ProcessNlmsghdr:
  assumes cb: "\<forall>n f w. I w \<longrightarrow> keeps I (cb n f w)" and w: "I w"
  shows "keeps I (ProcessNlmsghdr E cb n buf off w)"
proof -
  have again: "keeps I (call_back cb n (put_nl n s1 w))" if "nl_objs w n = Some s0" for s0 s1
    using keeps_call_back [OF cb I_put [OF w that]] .
  show ?thesis unfolding ProcessNlmsghdr_def Let_def
    by (intro keeps_if keeps_NS_ASSERT keeps_with_nl w keeps_route_request)
      (simp_all add: again split: prod.split option.split)
qed

lemma keeps_nlmsg_loop:
  assumes "nlmsg_loop E cb n buf off rem w = Some r"
    and "\<forall>n f w. I w \<longrightarrow> keeps I (cb n f w)" and "I w"
  shows "keeps I r"
proof -
  have "(\<forall>n f w. I w \<longrightarrow> keeps I (cb n f w)) \<longrightarrow> I w \<longrightarrow> keeps I r"
  proof (rule nlmsg_loop.raw_induct [where P = "\<lambda>E cb n buf off rem w r.
      (\<forall>n f w. I w \<longrightarrow> keeps I (cb n f w)) \<longrightarrow> I w \<longrightarrow> keeps I r", OF _ assms(1)])
    fix loop E and cb :: "nat \<Rightarrow> select_capture \<Rightarrow> 'a grail \<Rightarrow> (unit, 'a grail) outcome"
      and n buf off rem w r
    assume IH: "\<And>E cb n buf off rem w r. loop E cb n buf off rem w = Some r \<Longrightarrow>
        (\<forall>n f w. I w \<longrightarrow> keeps I (cb n f w)) \<longrightarrow> I w \<longrightarrow> keeps I r"
      and eq: "(let nlmsg_len = le_nat (take 4 (drop off buf)) in
        if e_nlmsg_ok E nlmsg_len rem then
          (case ProcessNlmsghdr E cb n buf off w of
             Ret _ w1 \<Rightarrow> loop E cb n buf (off + fst (e_nlmsg_next E nlmsg_len rem))
               (snd (e_nlmsg_next E nlmsg_len rem)) w1
           | Halt h w1 \<Rightarrow> Some (Halt h w1))
        else Some (Ret rem w)) = Some r"
    show "(\<forall>n f w. I w \<longrightarrow> keeps I (cb n f w)) \<longrightarrow> I w \<longrightarrow> keeps I r"
    proof (intro impI)
      assume cb: "\<forall>n f w. I w \<longrightarrow> keeps I (cb n f w)" and w: "I w"
      have p: "keeps I (ProcessNlmsghdr E cb n buf off w)"
        by (rule keeps_ProcessNlmsghdr [OF cb w])
      show "keeps I r"
      proof (cases "ProcessNlmsghdr E cb n buf off w")
        case (Ret u w1)
        then have "I w1" using p by simp
        then show ?thesis using eq Ret IH cb w by (simp add: Let_def split: if_splits) (metis keeps_simps(1))
      next
        case (Halt h w1)
        then show ?thesis using eq w by (auto simp: Let_def split: if_splits)
      qed
    qed
  qed
  then show ?thesis using assms by blast
qed

lemma keeps_run_nlmsgs:
  "\<forall>n f w. I w \<longrightarrow> keeps I (cb n f w) \<Longrightarrow> I w \<Longrightarrow> keeps I (run_nlmsgs E cb n buf rem w)"
  by (simp add: run_nlmsgs_def keeps_nlmsg_loop split: option.split)

lemma keeps_iov_loop:
  "\<forall>n f w. I w \<longrightarrow> keeps I (cb n f w) \<Longrightarrow> I w \<Longrightarrow> keeps I (iov_loop E cb n p k t w)"
  by (induction k arbitrary: p t w)
    (simp_all add: Let_def keeps_with_nl keeps_and_then keeps_run_nlmsgs)

lemma keeps_nl_sendmsg:
  "\<forall>n f w. I w \<longrightarrow> keeps I (cb n f w) \<Longrightarrow> I w \<Longrightarrow> keeps I (nl_HandleSendMsg E cb n m w)"
  unfolding nl_HandleSendMsg_def Let_def
  by (intro keeps_with_nl keeps_and_then keeps_iov_loop keeps_FAKE) simp_all

lemma keeps_nl_sendto:
  "\<forall>n f w. I w \<longrightarrow> keeps I (cb n f w) \<Longrightarrow> I w \<Longrightarrow> keeps I (nl_HandleSendTo E cb n b l fl w)"
  unfolding nl_HandleSendTo_def Let_def
  by (intro keeps_with_nl keeps_NS_ASSERT keeps_and_then keeps_run_nlmsgs keeps_FAKE) simp_all

end

interpretation fdn: netlink_invariant fd_inv
  by unfold_locales (simp_all add: put_nl_def)

interpretation nln: netlink_invariant nl_inv
  by unfold_locales (auto simp: nl_inv_def put_nl_def)

text \<open>The routing table of the application keeps one entry per destination.\<close>

definition rts_inv :: "'x grail \<Rightarrow> bool" where
  "rts_inv w \<longleftrightarrow> rt_inv (rt_entries w)"

interpretation rts: netlink_invariant rts_inv
  by unfold_locales (simp_all add: rts_inv_def put_nl_def AddRoute_inv DelRoute_inv
      Schedule_def Cancel_def split: option.split)

section \<open>Well-formed requests\<close>

text \<open>An attribute as the system's macros write it, padded to four bytes.\<close>

definition rta_encode :: "nat \<times> byte list \<Rightarrow> byte list" where
  "rta_encode td = le_bytes 2 (4 + length (snd td)) @ le_bytes 2 (fst td) @ snd td
     @ replicate (RTA_ALIGN (length (snd td)) - length (snd td)) 0"

definition good_attr :: "nat \<times> byte list \<Rightarrow> bool" where
  "good_attr td \<longleftrightarrow> fst td \<in> {RTA_DST, RTA_SRC, RTA_GATEWAY, RTA_PRIORITY, RTA_OIF} \<and>
     4 \<le> length (snd td) \<and> length (snd td) < 65000"

definition apply_attr :: "'x env \<Rightarrow> nat \<times> byte list \<Rightarrow> route_attrs \<Rightarrow> route_attrs" where
  "apply_attr E td a =
     (if fst td = RTA_DST then a\<lparr>ra_dst := Some (BsdInAddr4ToNs3Address E (take 4 (snd td)))\<rparr>
      else if fst td = RTA_GATEWAY then a\<lparr>ra_gw := Some (BsdInAddr4ToNs3Address E (take 4 (snd td)))\<rparr>
      else a)"

lemma length_rta_encode: "length (rta_encode td) = 4 + RTA_ALIGN (length (snd td))"
  using RTA_ALIGN_bounds(1) [of "length (snd td)"] by (simp add: rta_encode_def)

lemma RTA_ALIGN_4: "RTA_ALIGN (4 + n) = 4 + RTA_ALIGN n"
  unfolding RTA_ALIGN_def by arith

lemma le_nat_le_bytes_2: "n < 65536 \<Longrightarrow> le_nat (le_bytes 2 n) = n"
  by (simp add: le_nat_le_bytes)

lemma u16_at_encode:
  assumes "drop cur buf = rta_encode td @ rest" and "good_attr td"
  shows "u16_at buf cur = 4 + length (snd td)" and "u16_at buf (cur + 2) = fst td"
    and "take 4 (drop (cur + 4) buf) = take 4 (snd td)" and "cur + 8 \<le> length buf"
    and "drop (cur + RTA_ALIGN (4 + length (snd td))) buf = rest"
proof -
  have len: "4 \<le> length (snd td)" "length (snd td) < 65000" "fst td < 65536"
    using assms(2) by (auto simp: good_attr_def)
  show "u16_at buf cur = 4 + length (snd td)"
    using len by (simp add: u16_at_def assms(1) rta_encode_def le_nat_le_bytes_2)
  have "drop (cur + 2) buf = drop 2 (drop cur buf)" by (simp add: add.commute)
  then show "u16_at buf (cur + 2) = fst td"
    using len by (simp add: u16_at_def assms(1) rta_encode_def le_nat_le_bytes_2)
  have "drop (cur + 4) buf = drop 4 (drop cur buf)" by (simp add: add.commute)
  then show "take 4 (drop (cur + 4) buf) = take 4 (snd td)"
    using len by (simp add: assms(1) rta_encode_def)
  have "length (drop cur buf) = 4 + RTA_ALIGN (length (snd td)) + length rest"
    by (simp add: assms(1) length_rta_encode)
  then show "cur + 8 \<le> length buf"
    using len RTA_ALIGN_bounds(1) [of "length (snd td)"] by simp
  have "drop (cur + RTA_ALIGN (4 + length (snd td))) buf
      = drop (length (rta_encode td)) (drop cur buf)"
    unfolding length_rta_encode RTA_ALIGN_4 drop_drop by (simp only: add.commute)
  then show "drop (cur + RTA_ALIGN (4 + length (snd td))) buf = rest"
    by (simp add: assms(1))
qed

lemma route_attr_encode:
  assumes "drop cur buf = rta_encode td @ rest" and "good_attr td"
  shows "route_attr E b buf cur a = Inr (apply_attr E td a)"
proof -
  have t: "fst td \<in> {RTA_DST, RTA_SRC, RTA_GATEWAY, RTA_PRIORITY, RTA_OIF}"
    using assms(2) by (simp add: good_attr_def)
  have "\<not> length buf < cur + 8" using u16_at_encode(4) [OF assms] by simp
  then show ?thesis using t
    unfolding route_attr_def Let_def u16_at_encode(2,3) [OF assms] apply_attr_def by auto
qed

lemma rta_loop_encode:
  assumes "list_all good_attr tds" and "drop cur buf = concat (map rta_encode tds) @ rest"
    and "unat rbuflen = length (concat (map rta_encode tds)) + k"
  shows "rta_loop E b buf cur rbuflen a
    = rta_loop E b buf (cur + length (concat (map rta_encode tds))) (of_nat k) (fold (apply_attr E) tds a)"
  using assms
proof (induction tds arbitrary: cur rbuflen a)
  case Nil
  then have "unat rbuflen = k" by simp
  then have "of_nat k = (of_nat (unat rbuflen) :: 64 word)" by (simp only:)
  then show ?case by simp
next
  case (Cons td tds)
  let ?n = "RTA_ALIGN (4 + length (snd td))"
  have good: "good_attr td" using Cons.prems(1) by simp
  have d: "drop cur buf = rta_encode td @ (concat (map rta_encode tds) @ rest)"
    using Cons.prems(2) by simp
  note at = u16_at_encode [OF d good]
  have n: "length (rta_encode td) = ?n" by (simp add: length_rta_encode RTA_ALIGN_4)
  have le: "4 + length (snd td) \<le> ?n" by (rule RTA_ALIGN_bounds)
  have u: "unat rbuflen = ?n + (length (concat (map rta_encode tds)) + k)"
    using Cons.prems(3) n by simp
  have "?n < 2 ^ 64" using u by (rule add_lessD1 [OF ord_eq_less_trans [OF sym]]) simp
  then have un: "unat (of_nat ?n :: 64 word) = ?n" by (rule unat_of_nat64)
  then have "(of_nat ?n :: 64 word) \<le> rbuflen" using u by (simp add: word_le_nat_alt)
  then have u': "unat (rbuflen - of_nat ?n) = length (concat (map rta_encode tds)) + k"
    using u un by (simp add: unat_sub)
  have "rta_loop E b buf cur rbuflen a
      = rta_loop E b buf (cur + ?n) (rbuflen - of_nat ?n) (apply_attr E td a)"
    using u le at(4) route_attr_encode [OF d good, of E b a]
    by (subst rta_loop.simps) (simp add: at(1) Let_def)
  also have "\<dots> = rta_loop E b buf (cur + ?n + length (concat (map rta_encode tds))) (of_nat k)
      (fold (apply_attr E) tds (apply_attr E td a))"
    using Cons.prems(1) at(5) by (intro Cons.IH u') simp_all
  finally show ?case by (simp add: n add.assoc)
qed

section \<open>Properties\<close>

text \<open>A route request as the tracee sends it: netlink header, route header, attributes.\<close>

definition route_msg :: "bool \<Rightarrow> byte \<Rightarrow> (nat \<times> byte list) list \<Rightarrow> byte list" where
  "route_msg is_new dst_len tds =
     le_bytes 4 (28 + length (concat (map rta_encode tds)))
     @ le_bytes 2 (if is_new then RTM_NEWROUTE else RTM_DELROUTE) @ le_bytes 2 5 @ replicate 8 0
     @ [2, dst_len, 0, 0, 254, 3, 0, 1] @ replicate 4 0 @ concat (map rta_encode tds)"

lemma drop_route_msg: "drop 28 (route_msg b l tds) = concat (map rta_encode tds)"
  by (simp add: route_msg_def)

lemma route_msg_fields:
  assumes "28 + length (concat (map rta_encode tds)) < 2 ^ 32"
  shows "le_nat (take 4 (route_msg b l tds)) = 28 + length (concat (map rta_encode tds))"
    and "u16_at (route_msg b l tds) 4 = (if b then RTM_NEWROUTE else RTM_DELROUTE)"
    and "route_msg b l tds ! 17 = l"
    and "le_nat (take 4 (drop 24 (route_msg b l tds))) = 0"
    and "length (route_msg b l tds) = 28 + length (concat (map rta_encode tds))"
proof -
  let ?k = "length (concat (map rta_encode tds))"
  show "le_nat (take 4 (route_msg b l tds)) = 28 + ?k"
    using assms by (simp add: route_msg_def le_nat_le_bytes)
  show "u16_at (route_msg b l tds) 4 = (if b then RTM_NEWROUTE else RTM_DELROUTE)"
    by (simp add: route_msg_def u16_at_def le_nat_le_bytes)
  show "route_msg b l tds ! 17 = l" by (simp add: route_msg_def nth_append)
  have "le_nat (replicate k 0) = 0" for k by (induction k) simp_all
  then show "le_nat (take 4 (drop 24 (route_msg b l tds))) = 0"
    by (simp add: route_msg_def)
  show "length (route_msg b l tds) = 28 + ?k" by (simp add: route_msg_def)
qed

lemma ROUTE_entries:
  assumes "nl_objs w n = Some s"
    and "list_all good_attr tds" and "28 + length (concat (map rta_encode tds)) < 2 ^ 32"
    and "fold (apply_attr E) tds \<lparr>ra_dst = None, ra_gw = None\<rparr> = \<lparr>ra_dst = Some d, ra_gw = Some g\<rparr>"
  shows "ProcessNlmsghdr E cb n (route_msg is_new len tds) 0 w
    = Ret () (put_nl n (push_reply (ack_msg E) s)
      (w\<lparr>rt_entries := if is_new then AddRoute d len g (rt_entries w)
        else DelRoute d len g (rt_entries w)\<rparr>))"
proof -
  let ?m = "route_msg is_new len tds" and ?k = "length (concat (map rta_encode tds))"
  note f = route_msg_fields [OF assms(3), of is_new len]
  have "unat (of_nat ?k :: 64 word) = ?k"
    by (rule unat_of_nat64) (use assms(3) in simp)
  then have "rta_loop E is_new ?m 28 (of_nat ?k) \<lparr>ra_dst = None, ra_gw = None\<rparr>
      = rta_loop E is_new ?m (28 + ?k) (of_nat 0) \<lparr>ra_dst = Some d, ra_gw = Some g\<rparr>"
    using rta_loop_encode [OF assms(2), of 28 ?m "[]" "of_nat ?k" 0 E is_new
        "\<lparr>ra_dst = None, ra_gw = None\<rparr>"] drop_route_msg assms(4) by simp
  also have "\<dots> = Inr \<lparr>ra_dst = Some d, ra_gw = Some g\<rparr>"
    by (subst rta_loop.simps) simp
  finally have loop: "rta_loop E is_new ?m (0 + 28) (of_nat (28 + ?k) - 28) \<lparr>ra_dst = None, ra_gw = None\<rparr>
      = Inr \<lparr>ra_dst = Some d, ra_gw = Some g\<rparr>" by simp
  have "ROUTE_request E is_new n ?m 0 w = Ret () (put_nl n (push_reply (ack_msg E) s)
      (w\<lparr>rt_entries := if is_new then AddRoute d len g (rt_entries w)
        else DelRoute d len g (rt_entries w)\<rparr>))"
    using assms(1) f loop
    by (simp add: ROUTE_request_def with_nl_def Let_def NS_ASSERT_def del: of_nat_add of_nat_numeral)
  moreover have "ProcessNlmsghdr E cb n ?m 0 w = ROUTE_request E is_new n ?m 0 w"
    using f(2) by (simp add: ProcessNlmsghdr_def Let_def)
  ultimately show ?thesis by simp
qed

lemma ROUTE_updates:
  assumes "nl_objs w n = Some s" and "rt_inv (rt_entries w)"
    and "list_all good_attr tds" and "28 + length (concat (map rta_encode tds)) < 2 ^ 32"
    and "fold (apply_attr E) tds \<lparr>ra_dst = None, ra_gw = None\<rparr> = \<lparr>ra_dst = Some d, ra_gw = Some g\<rparr>"
  shows "\<exists>w' s'. ProcessNlmsghdr E cb n (route_msg is_new len tds) 0 w = Ret () w' \<and>
    rt_map (rt_entries w') = (if is_new then (rt_map (rt_entries w))((d, len) \<mapsto> g)
      else (rt_map (rt_entries w))((d, len) := None)) \<and>
    nl_objs w' n = Some s' \<and> reply_queue s' = reply_queue s @ [ack_msg E]"
  unfolding ROUTE_entries [OF assms(1,3-5)]
  using assms(2) by (simp add: AddRoute_map DelRoute_map put_nl_def push_reply_def)

text \<open>
  (C14) A well-formed route request is the update of the routing table it names: the last
  destination and gateway attributes count, whatever other attributes are between them, and
  an acknowledgement is queued behind the pending replies.
\<close>

theorem ROUTE_request_updates_map:
  assumes "nl_objs w n = Some s" and "rt_inv (rt_entries w)"
    and "list_all good_attr tds" and "28 + length (concat (map rta_encode tds)) < 2 ^ 32"
    and "fold (apply_attr E) tds \<lparr>ra_dst = None, ra_gw = None\<rparr> = \<lparr>ra_dst = Some d, ra_gw = Some g\<rparr>"
  shows "\<exists>w' s'. ProcessNlmsghdr E cb n (route_msg is_new len tds) 0 w = Ret () w' \<and>
    rt_map (rt_entries w') = (if is_new then (rt_map (rt_entries w))((d, len) \<mapsto> g)
      else (rt_map (rt_entries w))((d, len) := None)) \<and>
    nl_objs w' n = Some s' \<and> reply_queue s' = reply_queue s @ [ack_msg E]"
  using assms by (rule ROUTE_updates)

lemma rta_loop_unpadded_last:
  assumes "last_attr = le_bytes 2 (4 + length d) @ le_bytes 2 RTA_SRC @ d"
    and "length d mod 4 \<noteq> 0" and "length d < 65000" and "drop cur buf = last_attr"
  shows "rta_loop E b buf cur (of_nat (length last_attr)) a = Inl OutOfBounds"
proof -
  let ?k = "length last_attr"
  have k: "?k = 4 + length d" by (simp add: assms(1))
  have uk: "unat (of_nat ?k :: 64 word) = ?k"
    using assms(3) k by (intro unat_of_nat64) simp
  have lb: "length buf - cur = ?k" using assms(4) by (metis length_drop)
  have at: "u16_at buf cur = ?k"
    using assms(1,3) k by (simp add: u16_at_def assms(4) le_nat_le_bytes_2)
  have "drop (cur + 2) buf = drop 2 last_attr"
    using assms(4) by (metis drop_drop add.commute)
  then have ty: "u16_at buf (cur + 2) = RTA_SRC"
    using assms(1) by (simp add: u16_at_def le_nat_le_bytes_2)
  have al: "?k < RTA_ALIGN ?k" "RTA_ALIGN ?k < ?k + 4"
    using assms(2) RTA_ALIGN_bounds [of ?k] unfolding k RTA_ALIGN_def by presburger+
  let ?r = "of_nat ?k - of_nat (RTA_ALIGN ?k) :: 64 word"
  have "?r = - of_nat (RTA_ALIGN ?k - ?k)" using al by simp
  moreover have "RTA_ALIGN ?k - ?k \<in> {1, 2, 3}" using al by auto
  ultimately have r: "\<not> unat ?r < 4"
    by (auto simp: unsigned_minus_1_eq_mask mask_eq_exp_minus_1)
  have "length buf < cur + RTA_ALIGN ?k + 4" using lb al k by simp
  then have "rta_loop E b buf (cur + RTA_ALIGN ?k) ?r x = Inl OutOfBounds" for x
    using r by (subst rta_loop.simps) simp
  moreover have "\<not> length buf < cur + 4" using lb k by simp
  moreover have "route_attr E b buf cur x = Inr x" for x
    using ty by (simp add: route_attr_def)
  ultimately show ?thesis
    using uk k by (subst rta_loop.simps) (simp add: at Let_def)
qed


lemma apply_attr_address:
  "ip_text_ok E \<Longrightarrow> apply_attr E (RTA_DST, be_bytes d) a = a\<lparr>ra_dst := Some d\<rparr>"
  "ip_text_ok E \<Longrightarrow> apply_attr E (RTA_GATEWAY, be_bytes d) a = a\<lparr>ra_gw := Some d\<rparr>"
  by (simp_all add: apply_attr_def BsdInAddr4ToNs3Address_def ip_text_ok_def dotted_def [symmetric])

definition demo_nl :: "nat grail" where
  "demo_nl = (demo_state [])\<lparr>m_netlinks := [100 \<mapsto> 0], nl_objs := [0 \<mapsto> NetlinkSocket demo_text_env 1 0],
     nl_next := 1\<rparr>"

definition demo_route :: "(nat \<times> byte list) list" where
  "demo_route = [(RTA_DST, be_bytes 0x0a000200), (RTA_OIF, [1, 0, 0, 0]), (RTA_GATEWAY, be_bytes 0x0a000001)]"

lemma demo_route_good: "list_all good_attr demo_route"
  by (simp add: demo_route_def good_attr_def)

lemma length_demo_route: "length (concat (map rta_encode demo_route)) = 24"
  by (simp add: demo_route_def length_rta_encode RTA_ALIGN_def)

lemma demo_route_fold: "fold (apply_attr demo_text_env) demo_route \<lparr>ra_dst = None, ra_gw = None\<rparr>
    = \<lparr>ra_dst = Some 0x0a000200, ra_gw = Some 0x0a000001\<rparr>"
proof -
  have "apply_attr demo_text_env (RTA_OIF, d) a = a" for d a by (simp add: apply_attr_def)
  then show ?thesis by (simp add: demo_route_def apply_attr_address [OF demo_text_ok] del: One_nat_def)
qed

lemma demo_nl_state: "nl_objs demo_nl 0 = Some (NetlinkSocket demo_text_env 1 0)"
  "rt_entries demo_nl = []" "rt_inv (rt_entries demo_nl)"
  by (simp_all add: demo_nl_def demo_state_def GrailApplication_def rt_inv_def)

theorem ROUTE_request_updates_map_witness:
  "\<exists>w'. ProcessNlmsghdr demo_text_env (\<lambda>n f. Ret ()) 0 (route_msg True 24 demo_route) 0 demo_nl = Ret () w' \<and>
     rt_map (rt_entries w') = [(0x0a000200, 24) \<mapsto> 0x0a000001]"
proof -
  have "28 + length (concat (map rta_encode demo_route)) < 2 ^ 32" by (simp add: length_demo_route)
  from ROUTE_request_updates_map [OF demo_nl_state(1,3) demo_route_good this demo_route_fold,
      of "\<lambda>n f. Ret ()" True 24]
  obtain w' where "ProcessNlmsghdr demo_text_env (\<lambda>n f. Ret ()) 0 (route_msg True 24 demo_route) 0 demo_nl
      = Ret () w'"
    and "rt_map (rt_entries w') = (rt_map (rt_entries demo_nl))((0x0a000200, 24) \<mapsto> 0x0a000001)"
    by (auto simp only: if_True)
  then show ?thesis by (simp add: demo_nl_state rt_map_def)
qed


section \<open>The message loop\<close>

text \<open>What the message library documents of its two functions.\<close>

definition nl_lib_ok :: "'x env \<Rightarrow> bool" where
  "nl_lib_ok E \<longleftrightarrow> (\<forall>l rem. e_nlmsg_ok E l rem = (16 \<le> rem \<and> 16 \<le> l \<and> int l \<le> rem) \<and>
     e_nlmsg_next E l rem = (RTA_ALIGN l, rem - int (RTA_ALIGN l)))"

text \<open>
  (C33) The loop over the messages of a buffer ends: it returns with no more bytes left than at
  the start, or a message halts the program.
\<close>

theorem nlmsg_loop_terminates:
  assumes "nl_lib_ok E"
  shows "\<exists>r. nlmsg_loop E cb n buf off rem w = Some r \<and> holds (\<lambda>rem' _. rem' \<le> rem) r"
proof (induction "nat (rem + 4)" arbitrary: off rem w rule: less_induct)
  case less
  define l where "l = le_nat (take 4 (drop off buf))"
  show ?case
  proof (cases "e_nlmsg_ok E l rem")
    case False
    then show ?thesis by (subst nlmsg_loop.simps) (simp add: l_def)
  next
    case True
    then have l: "16 \<le> rem" "16 \<le> l" "int l \<le> rem" using assms by (simp_all add: nl_lib_ok_def)
    have next': "e_nlmsg_next E l rem = (RTA_ALIGN l, rem - int (RTA_ALIGN l))"
      using assms by (simp add: nl_lib_ok_def)
    have "16 \<le> RTA_ALIGN l" "int (RTA_ALIGN l) < rem + 4"
      using l RTA_ALIGN_bounds [of l] by simp_all
    then have m: "nat (rem - int (RTA_ALIGN l) + 4) < nat (rem + 4)" by simp
    show ?thesis
    proof (cases "ProcessNlmsghdr E cb n buf off w")
      case (Ret u w1)
      from less [OF m, of "off + RTA_ALIGN l" w1] obtain r where
        r: "nlmsg_loop E cb n buf (off + RTA_ALIGN l) (rem - int (RTA_ALIGN l)) w1 = Some r"
        and "holds (\<lambda>rem' _. rem' \<le> rem - int (RTA_ALIGN l)) r" by blast
      then have "holds (\<lambda>rem' _. rem' \<le> rem) r" by (cases r) simp_all
      moreover have "nlmsg_loop E cb n buf off rem w = Some r"
        using True Ret r next' by (subst nlmsg_loop.simps) (simp add: l_def [symmetric])
      ultimately show ?thesis by blast
    next
      case (Halt h w1)
      then have "nlmsg_loop E cb n buf off rem w = Some (Halt h w1)"
        using True by (subst nlmsg_loop.simps) (simp add: l_def [symmetric])
      then show ?thesis by simp
    qed
  qed
qed

definition demo_nl_env :: "nat env" where
  "demo_nl_env = demo_text_env\<lparr>e_nlmsg_ok := (\<lambda>l rem. 16 \<le> rem \<and> 16 \<le> l \<and> int l \<le> rem),
     e_nlmsg_next := (\<lambda>l rem. (RTA_ALIGN l, rem - int (RTA_ALIGN l)))\<rparr>"

lemma demo_nl_lib: "nl_lib_ok demo_nl_env"
  by (simp add: nl_lib_ok_def demo_nl_env_def)

theorem nlmsg_loop_terminates_witness:
  "\<exists>r. nlmsg_loop demo_nl_env (\<lambda>n f. Ret ()) 0 (route_msg True 24 demo_route) 0 52 demo_nl = Some r"
  using nlmsg_loop_terminates [OF demo_nl_lib] by blast

section \<open>A request through sendto\<close>

lemma low_half_cleared: "unat (v :: 64 word) < 2 ^ 32 \<Longrightarrow> v AND NOT 0xffffffff = 0"
proof -
  assume "unat v < 2 ^ 32"
  then have "take_bit 32 v = v" 
    by (simp add: word_unat_eq_iff unsigned_take_bit_eq take_bit_nat_eq_self)
  then have v: "v AND mask 32 = v" by (simp add: take_bit_eq_mask)
  have m: "(0xffffffff :: 64 word) = mask 32" by (simp add: mask_eq_exp_minus_1)
  have "v AND NOT (mask 32) = (v AND mask 32) AND NOT (mask 32)" by (simp only: v)
  also have "\<dots> = 0" by (simp only: and.assoc bit.conj_cancel_right bit.conj_zero_right)
  finally show ?thesis unfolding m .
qed

lemma length_route_msg_aligned: "RTA_ALIGN (length (route_msg b l tds)) = length (route_msg b l tds)"
proof -
  have "4 dvd length (rta_encode td)" for td
    by (simp add: length_rta_encode RTA_ALIGN_def)
  then have "4 dvd length (concat (map rta_encode tds))" by (induction tds) simp_all
  then show ?thesis unfolding RTA_ALIGN_def route_msg_def by simp presburger
qed

text \<open>
  A route request sent with \<open>sendto\<close>: the routing table is updated, but the tracee is told
  that no byte was sent, because the result is what the loop left of the length.
\<close>

theorem nl_HandleSendTo_returns_zero:
  assumes "getpid_ok E" and "nl_lib_ok E" and "nl_objs w n = Some s" and "rt_inv (rt_entries w)"
    and "list_all good_attr tds" and "28 + length (concat (map rta_encode tds)) < 2 ^ 31"
    and "fold (apply_attr E) tds \<lparr>ra_dst = None, ra_gw = None\<rparr> = \<lparr>ra_dst = Some d, ra_gw = Some g\<rparr>"
    and "copy_in (memory_of w) buf (unat len) = route_msg True dl tds"
    and "unat len = length (route_msg True dl tds)"
  shows "\<exists>w'. nl_HandleSendTo E cb n buf len 0 w = Ret SYSC_SUCCESS w' \<and>
    rt_map (rt_entries w') = (rt_map (rt_entries w))((d, dl) \<mapsto> g) \<and>
    get_reg (nl_owner s) RAX (tr w') = 0"
proof -
  let ?m = "route_msg True dl tds"
  have lt: "28 + length (concat (map rta_encode tds)) < 2 ^ 32" using assms(6) by simp
  note f = route_msg_fields [OF lt, of True dl]
  obtain w1 where p: "ProcessNlmsghdr E cb n ?m 0 w = Ret () w1"
    and map: "rt_map (rt_entries w1) = (rt_map (rt_entries w))((d, dl) \<mapsto> g)"
    using ROUTE_updates [OF assms(3,4,5) lt assms(7), of cb True dl] by auto
  have len: "unat len < 2 ^ 31" using assms(6,9) f(5) by simp
  have ci: "c_int len = int (length ?m)"
  proof -
    have "len = c_reg (int (length ?m))"
      unfolding c_reg_def assms(9) [symmetric] by simp
    then show ?thesis using c_int_c_reg [of "int (length ?m)"] len assms(9) by simp
  qed
  have "nlmsg_loop E cb n ?m (length ?m) 0 w1 = Some (Ret 0 w1)"
    using assms(2) by (subst nlmsg_loop.simps) (simp add: nl_lib_ok_def)
  then have "nlmsg_loop E cb n ?m 0 (int (length ?m)) w = Some (Ret 0 w1)"
    using assms(2) p f(1,5) length_route_msg_aligned [of True dl tds]
    by (subst nlmsg_loop.simps) (simp add: nl_lib_ok_def)
  then have "run_nlmsgs E cb n ?m (c_int len) w = Ret 0 w1"
    by (simp add: run_nlmsgs_def ci)
  then have "nl_HandleSendTo E cb n buf len 0 w = Ret SYSC_SUCCESS (faked (nl_owner s) 0 w1)"
    using assms(1,3,8) low_half_cleared [of len] len
    by (simp add: nl_HandleSendTo_def with_nl_def NS_ASSERT_def fakes)
  then show ?thesis using map by (simp add: faked_def)
qed

definition demo_nl_mem :: memory where
  "demo_nl_mem = store (\<lambda>a. if a < 64 then Some 0 else None) 0 (route_msg True 24 demo_route)"

theorem nl_HandleSendTo_returns_zero_witness:
  "\<exists>w'. nl_HandleSendTo demo_nl_env (\<lambda>n f. Ret ()) 0 0 52 0 (set_mem demo_nl_mem demo_nl)
       = Ret SYSC_SUCCESS w' \<and>
     rt_map (rt_entries w') = [(0x0a000200, 24) \<mapsto> 0x0a000001] \<and> get_reg 1 RAX (tr w') = 0"
proof -
  let ?w = "set_mem demo_nl_mem demo_nl" and ?m = "route_msg True 24 demo_route"
  have lt: "28 + length (concat (map rta_encode demo_route)) < 2 ^ 31" by (simp add: length_demo_route)
  have len: "length ?m = 52" by (simp add: route_msg_def length_demo_route)
  have "mapped demo_nl_mem 0 (round8 52)"
    unfolding demo_nl_mem_def by (rule mapped_store) (simp add: mapped_def upt_rec round8_def)
  then have "copy_in demo_nl_mem 0 52 = fetch demo_nl_mem 0 52" by (rule tc.cin_mapped)
  also have "\<dots> = ?m"
    unfolding demo_nl_mem_def using fetch_store [of ?m _ 0] len by simp
  finally have c: "copy_in (memory_of ?w) 0 (unat (52 :: 64 word)) = ?m" by (simp add: set_mem_def)
  have g: "getpid_ok demo_nl_env"
    by (rule demo_kernel_getpid) (simp add: demo_nl_env_def demo_text_env_def)
  have ob: "nl_objs ?w 0 = Some (NetlinkSocket demo_text_env 1 0)" "rt_entries ?w = []"
    using demo_nl_state by (simp_all add: set_mem_def)
  have f: "fold (apply_attr demo_nl_env) demo_route \<lparr>ra_dst = None, ra_gw = None\<rparr>
      = \<lparr>ra_dst = Some 0x0a000200, ra_gw = Some 0x0a000001\<rparr>"
  proof -
    have "apply_attr demo_nl_env = apply_attr demo_text_env"
      by (simp add: fun_eq_iff apply_attr_def BsdInAddr4ToNs3Address_def demo_nl_env_def)
    then show ?thesis using demo_route_fold by simp
  qed
  have "rt_inv (rt_entries ?w)" "unat (52 :: 64 word) = length ?m"
    using ob(2) len by (simp_all add: rt_inv_def)
  from nl_HandleSendTo_returns_zero [OF g demo_nl_lib ob(1) this(1) demo_route_good lt f c this(2),
      of "\<lambda>n f. Ret ()"] ob(2)
  show ?thesis by (auto simp: NetlinkSocket_def rt_map_def)
qed

end
