(* ===== verification/Grail_File.thy ===== *)
theory Grail_File
  imports Grail_Demo
begin

text \<open>
  The file handlers of \<^verbatim>\<open>src/model/grail.cc\<close>: \<open>HandleGetPid\<close>, \<open>HandlePipe2\<close>, \<open>HandleGetRUsage\<close>,
  \<open>HandleRead\<close> with the callback of a blocking read, \<open>HandleClose\<close>, \<open>HandleOpen\<close>,
  \<open>HandleOpenAt\<close>, \<open>HandleFcntl\<close>, \<open>HandleWrite\<close> and \<open>HandleGetRandom\<close>. A handler is a function of
  the environment and the state; the code after a \<open>FAKE\<close> is its continuation.
\<close>

section \<open>Small handlers\<close>

definition HandleGetPid :: "'x env \<Rightarrow> 'x grail \<Rightarrow> (sysc, 'x grail) outcome" where
  "HandleGetPid E w = FAKE E (cur_pid w) (c_reg (fake_pid w)) w (Ret SYSC_SUCCESS)"

definition HandlePipe2 :: "'x env \<Rightarrow> 'x grail \<Rightarrow> (sysc, 'x grail) outcome" where
  "HandlePipe2 E w =
     (let mypipefd = copy_in (memory_of w) (argv 1 w) 8 in
      if FdIsEmulatedSocket (le_int (take 4 mypipefd)) w
         \<or> FdIsEmulatedSocket (le_int (drop 4 mypipefd)) w
      then Ret SYSC_ERROR w
      else HandleSyscallAfter E w)"

text \<open>\<open>sizeof(struct rusage)\<close> is 144 on amd64.\<close>

definition HandleGetRUsage :: "'x env \<Rightarrow> 'x grail \<Rightarrow> (sysc, 'x grail) outcome" where
  "HandleGetRUsage E w =
     copy_to (argv 2 w) (replicate 144 0) w (\<lambda>w.
       FAKE E (cur_pid w) 0 w (Ret SYSC_SUCCESS))"

section \<open>Random bytes\<close>

fun random_bytes :: "'x env \<Rightarrow> nat \<Rightarrow> 'x \<Rightarrow> byte list \<times> 'x" where
  "random_bytes E 0 x = ([], x)"
| "random_bytes E (Suc n) x =
     (let (r, x1) = e_Random E x; (bs, x2) = random_bytes E n x1 in (of_nat r # bs, x2))"

lemma length_random_bytes: "length (fst (random_bytes E n x)) = n"
  by (induction n arbitrary: x) (simp_all add: Let_def split: prod.splits, metis fst_conv)

definition HandleGetRandom :: "'x env \<Rightarrow> 'x grail \<Rightarrow> (sysc, 'x grail) outcome" where
  "HandleGetRandom E w =
     (let buf = argv 1 w; buflen = argv 2 w; flags = (ucast (argv 3 w) :: 32 word) in
      if flags AND NOT (GRND_RANDOM OR GRND_NONBLOCK) \<noteq> 0 then Ret SYSC_ERROR w
      else
        let (bs, x) = random_bytes E (unat buflen) (xt w) in
        copy_to buf bs (set_ext x w) (\<lambda>w.
          FAKE E (cur_pid w) buflen w (Ret SYSC_SUCCESS)))"

section \<open>read\<close>

text \<open>
  The closure \<open>g\<close> of a blocking \<open>read\<close>. The assignment \<open>res = SYSC_SUCCESS\<close> comes after
  \<open>FAKE4\<close>, whose \<open>break\<close> only leaves the macro.
\<close>

definition read_callback ::
  "'x env \<Rightarrow> pid \<Rightarrow> addr \<Rightarrow> nat \<Rightarrow> sockid \<Rightarrow> 'x grail \<Rightarrow> (unit, 'x grail) outcome" where
  "read_callback E saved_pid buf count sock w =
     (let ((rlen, bs), x) = e_Recv E sock count (xt w);
          w1 = set_ext x w;
          finish = (\<lambda>w. FAKE4 E saved_pid (c_reg rlen) SYSC_SUCCESS w (\<lambda>res w.
            let res = SYSC_SUCCESS in
            and_then (ProcessStatusCode E res saved_pid w) (\<lambda>_ w.
              Ret () (w\<lparr>cb_recv := (cb_recv w)(sock := None)\<rparr>))))
      in if 0 < rlen then copy_to buf (take (min count (nat rlen)) bs) w1 finish
         else finish w1)"

definition HandleRead :: "'x env \<Rightarrow> 'x grail \<Rightarrow> (sysc, 'x grail) outcome" where
  "HandleRead E w =
     (let fd = c_int (argv 1 w); buf = argv 2 w; count = argv 3 w in
      if \<not> FdIsEmulatedSocket fd w then HandleSyscallAfter E w
      else if fd \<in> m_random_fds w then
        let (bs, x) = random_bytes E (unat count) (xt w) in
        copy_to buf bs (set_ext x w) (\<lambda>w.
          FAKE E (cur_pid w) count w (Ret SYSC_SUCCESS))
      else if m_sockets w fd \<noteq> None \<and> fd \<in> m_tcpSockets w then
        let ns3socket = the (m_sockets w fd); saved_pid = cur_pid w in
        if e_GetRxAvailable E ns3socket (xt w) \<noteq> 0 then
          and_then (read_callback E saved_pid buf (unat count) ns3socket w) (\<lambda>_. Ret SYSC_MANUAL)
        else if fd \<in> m_nonblocking_sockets w then
          FAKE E (cur_pid w) (c_reg (- EWOULDBLOCK)) w (Ret SYSC_FAILURE)
        else Ret SYSC_DELAYED
          (w\<lparr>cb_recv := (cb_recv w)(ns3socket \<mapsto> RecvRead saved_pid buf (unat count))\<rparr>)
      else Halt ExitFailure w)"

section \<open>write\<close>

text \<open>
  Both a write to the tracee's standard output or error, which may be printed, and a write
  to a connected socket. \<open>printf\<close> stops at the first zero byte.
\<close>

definition HandleWrite :: "'x env \<Rightarrow> 'x grail \<Rightarrow> (sysc, 'x grail) outcome" where
  "HandleWrite E w =
     (let fd = c_int (argv 1 w); str = argv 2 w; count = argv 3 w in
      if fd \<noteq> 1 \<and> fd \<noteq> 2 \<and> \<not> FdIsEmulatedSocket fd w then HandleSyscallAfter E w
      else if \<not> FdIsEmulatedSocket fd w then
        NS_ASSERT (str \<noteq> 0) w (\<lambda>w. NS_ASSERT (count \<noteq> 0) w (\<lambda>w.
          let mystr = copy_in (memory_of w) str (unat count);
              w1 = (if (fd = 1 \<or> fd = 2) \<and> m_printStdout w
                    then w\<lparr>stdout := stdout w @ takeWhile (\<lambda>b. b \<noteq> 0) mystr\<rparr> else w);
              w2 = w1\<lparr>tr := set_reg (cur_pid w1) ORIG_RAX (c_reg SYS_getpid) (tr w1)\<rparr>
          in FAKE E (cur_pid w2) count w2 (Ret SYSC_SUCCESS)))
      else if fd \<notin> m_connectedSockets w then Ret SYSC_ERROR w
      else case m_sockets w fd of
        None \<Rightarrow> Halt OutOfRange w
      | Some sock \<Rightarrow>
          let txAvailable = e_GetTxAvailable E sock (xt w) in
          if txAvailable = 0 then
            if fd \<in> m_nonblocking_sockets w then
              FAKE E (cur_pid w) (c_reg (- EWOULDBLOCK)) w (Ret SYSC_FAILURE)
            else Ret SYSC_DELAYED
              (w\<lparr>cb_send := (cb_send w)(sock \<mapsto> SendBlockedWrite (cur_pid w))\<rparr>)
          else
            let towrite = (if unat count < txAvailable then unat count else txAvailable);
                mystr = copy_in (memory_of w) str towrite;
                (ret, x) = e_Send E sock mystr (xt w)
            in FAKE E (cur_pid w) (c_reg ret) (set_ext x w) (\<lambda>w.
                 if 0 < ret then Ret SYSC_SUCCESS w else Ret SYSC_ERROR w))"

section \<open>open and close\<close>

text \<open>
  The path is a 256-byte copy of the tracee's memory, read up to its first zero byte. The two
  regular expressions have no special characters, so a search is for a substring.
\<close>

fun regex_search :: "string \<Rightarrow> string \<Rightarrow> bool" where
  "regex_search [] p = (p = [])"
| "regex_search (c # s) p = (take (length p) (c # s) = p \<or> regex_search s p)"

definition c_string :: "byte list \<Rightarrow> string" where
  "c_string bs = map (\<lambda>b. char_of (unat b)) (takeWhile (\<lambda>b. b \<noteq> 0) bs)"

definition is_random_path :: "string \<Rightarrow> bool" where
  "is_random_path mypathname \<longleftrightarrow>
     regex_search mypathname ''dev/random'' \<or> regex_search mypathname ''dev/urandom''"

definition open_path :: "'x env \<Rightarrow> addr \<Rightarrow> 'x grail \<Rightarrow> (sysc, 'x grail) outcome" where
  "open_path E pathname w =
     (let mypathname = c_string (copy_in (memory_of w) pathname 256) in
      if is_random_path mypathname then
        and_then (GetNextFD w) (\<lambda>new_socket_fd w.
          let w1 = w\<lparr>m_random_fds := insert new_socket_fd (m_random_fds w)\<rparr> in
          FAKE E (cur_pid w1) (c_reg new_socket_fd) w1 (Ret SYSC_SUCCESS))
      else HandleSyscallAfter E w)"

definition HandleOpen :: "'x env \<Rightarrow> 'x grail \<Rightarrow> (sysc, 'x grail) outcome" where
  "HandleOpen E w = open_path E (argv 1 w) w"

definition HandleOpenAt :: "'x env \<Rightarrow> 'x grail \<Rightarrow> (sysc, 'x grail) outcome" where
  "HandleOpenAt E w = open_path E (argv 2 w) w"

definition HandleClose :: "'x env \<Rightarrow> 'x grail \<Rightarrow> (sysc, 'x grail) outcome" where
  "HandleClose E w =
     (let fd = c_int (argv 1 w) in
      if \<not> FdIsEmulatedSocket fd w then HandleSyscallAfter E w
      else case m_sockets w fd of
        Some sock \<Rightarrow>
          let w1 = set_ext (e_Close E sock (xt w)) w;
              w2 = w1\<lparr>m_sockets := (m_sockets w1)(fd := None),
                m_tcpSockets := m_tcpSockets w1 - {fd},
                m_connectedSockets := m_connectedSockets w1 - {fd},
                m_isListenTcpSocket := m_isListenTcpSocket w1 - {fd},
                m_nonblocking_sockets := m_nonblocking_sockets w1 - {fd},
                availableFDs := insert fd (availableFDs w1)\<rparr>;
              w3 = Schedule E 1000000000 (EvRemoveClosedSocket sock) w2
          in FAKE E (cur_pid w3) 0 w3 (Ret SYSC_SUCCESS)
      | None \<Rightarrow>
          if m_netlinks w fd \<noteq> None then
            let w1 = w\<lparr>m_netlinks := (m_netlinks w)(fd := None),
                  availableFDs := insert fd (availableFDs w)\<rparr>
            in FAKE E (cur_pid w1) 0 w1 (Ret SYSC_SUCCESS)
          else if fd \<in> m_random_fds w then
            let w1 = w\<lparr>m_random_fds := m_random_fds w - {fd},
                  availableFDs := insert fd (availableFDs w)\<rparr>
            in FAKE E (cur_pid w1) 0 w1 (Ret SYSC_SUCCESS)
          else Halt AssertFailure w)"

definition HandleFcntl :: "'x env \<Rightarrow> 'x grail \<Rightarrow> (sysc, 'x grail) outcome" where
  "HandleFcntl E w =
     (let fd = c_int (argv 1 w); cmd = c_int (argv 2 w) in
      if \<not> FdIsEmulatedSocket fd w then HandleSyscallAfter E w
      else if cmd = F_SETFL \<and> m_netlinks w fd \<noteq> None then
        FAKE E (cur_pid w) 0 w (Ret SYSC_SUCCESS)
      else if cmd = F_GETFL \<and> m_sockets w fd \<noteq> None then
        FAKE E (cur_pid w) 0 w (Ret SYSC_SUCCESS)
      else if cmd = F_SETFL \<and> m_sockets w fd \<noteq> None then
        let flags = c_int (argv 3 w) in
        if flags = O_NONBLOCK then
          let w1 = (if fd \<notin> m_nonblocking_sockets w
                    then w\<lparr>m_nonblocking_sockets := insert fd (m_nonblocking_sockets w)\<rparr> else w)
          in FAKE E (cur_pid w1) 0 w1 (Ret SYSC_SUCCESS)
        else FAKE E (cur_pid w) (c_reg (- 1)) w (Ret SYSC_FAILURE)
      else Ret SYSC_ERROR w)"

section \<open>The descriptor table is kept\<close>

lemma fd_keeps_getpid [keeps_intros]: "fd_inv w \<Longrightarrow> keeps fd_inv (HandleGetPid E w)"
  unfolding HandleGetPid_def by (intro keeps_intros | simp)+

lemma fd_keeps_pipe2 [keeps_intros]: "fd_inv w \<Longrightarrow> keeps fd_inv (HandlePipe2 E w)"
  unfolding HandlePipe2_def Let_def by (intro keeps_intros | simp)+

lemma fd_keeps_getrusage [keeps_intros]: "fd_inv w \<Longrightarrow> keeps fd_inv (HandleGetRUsage E w)"
  unfolding HandleGetRUsage_def by (intro keeps_intros | simp)+

lemma fd_keeps_getrandom [keeps_intros]: "fd_inv w \<Longrightarrow> keeps fd_inv (HandleGetRandom E w)"
  unfolding HandleGetRandom_def Let_def split_def by (intro keeps_intros | simp)+

lemma fd_keeps_read_callback [keeps_intros]:
  "fd_inv w \<Longrightarrow> keeps fd_inv (read_callback E p buf n sock w)"
  unfolding read_callback_def Let_def split_def by (intro keeps_intros | simp)+

lemma fd_keeps_read [keeps_intros]: "fd_inv w \<Longrightarrow> keeps fd_inv (HandleRead E w)"
  unfolding HandleRead_def Let_def split_def by (intro keeps_intros | simp)+

lemma fd_keeps_write [keeps_intros]: "fd_inv w \<Longrightarrow> keeps fd_inv (HandleWrite E w)"
  unfolding HandleWrite_def Let_def split_def by (intro keeps_intros | simp)+

lemma fd_keeps_open_path [keeps_intros]: "fd_inv w \<Longrightarrow> keeps fd_inv (open_path E a w)"
  unfolding open_path_def Let_def
  by (intro keeps_intros fd_GetNextFD | simp add: fresh_random)+

lemma fd_keeps_open [keeps_intros]:
  "fd_inv w \<Longrightarrow> keeps fd_inv (HandleOpen E w)" "fd_inv w \<Longrightarrow> keeps fd_inv (HandleOpenAt E w)"
  unfolding HandleOpen_def HandleOpenAt_def by (intro keeps_intros | simp)+

lemma fd_keeps_fcntl [keeps_intros]: "fd_inv w \<Longrightarrow> keeps fd_inv (HandleFcntl E w)"
  unfolding HandleFcntl_def Let_def split_def
  by (intro keeps_intros | simp add: fd_nonblocking | elim conjE exE)+

lemma fd_keeps_close [keeps_intros]: "fd_inv w \<Longrightarrow> keeps fd_inv (HandleClose E w)"
  unfolding HandleClose_def Let_def set_ext_def
  by (intro keeps_intros | simp add: fd_close_socket fd_close_netlink fd_close_random
      | elim exE)+

section \<open>Properties\<close>

lemma copy_to_mapped:
  "length bs < 2 ^ 63 \<Longrightarrow> mapped (memory_of w) a (round8 (length bs)) \<Longrightarrow>
   copy_to a bs w k = k (set_mem (store (memory_of w) a bs) w)"
  by (simp add: copy_to_def copy_out_eq)

lemma emulated_int: "fd_inv w \<Longrightarrow> fd \<in> availableFDs w \<Longrightarrow> c_int (c_reg fd) = fd"
  by (drule (1) fd_inv_range) (simp add: c_int_c_reg)


lemma demo_random_inv:
  "fd_inv ((demo_state xs)\<lparr>m_random_fds := {100}, availableFDs := {101..<200}\<rparr>)"
  by (auto simp: fd_inv_def demo_state_def GrailApplication_def MAX_NUM_FDS_def)


text \<open>
  Opening a random device gives the tracee the least free descriptor, as a C \<open>int\<close>, and
  makes it a random device; the other descriptors are untouched.
\<close>

theorem HandleOpen_random:
  assumes "getpid_ok E" and "fd_inv w" and "availableFDs w \<noteq> {}"
    and "is_random_path (c_string (copy_in (memory_of w) (argv 1 w) 256))"
  shows "\<exists>w' fd. HandleOpen E w = Ret SYSC_SUCCESS w' \<and> fd_inv w' \<and>
    c_int (get_reg (cur_pid w) RAX (tr w')) = fd \<and> fd = Min (availableFDs w) \<and>
    availableFDs w' = availableFDs w - {fd} \<and> m_random_fds w' = insert fd (m_random_fds w) \<and>
    m_sockets w' = m_sockets w \<and> m_netlinks w' = m_netlinks w"
proof -
  have "keeps fd_inv (HandleOpen E w)" using assms(2) by (rule fd_keeps_open)
  moreover have "c_int (c_reg (Min (availableFDs w))) = Min (availableFDs w)"
    using fd_inv_finite [OF assms(2)] assms(3) by (intro emulated_int [OF assms(2)]) simp
  ultimately show ?thesis using assms(1,3,4)
    by (simp add: HandleOpen_def open_path_def GetNextFD_def NS_ASSERT_def Let_def fakes faked_def)
qed

definition demo_path_state :: "nat grail" where
  "demo_path_state = set_mem (\<lambda>a. if a < 300 then Some (if unat a < 12 then
     [47, 100, 101, 118, 47, 117, 114, 97, 110, 100, 111, 109] ! unat a else 0) else None)
     (demo_state [0])"

theorem HandleOpen_random_witness:
  "is_random_path ''/dev/urandom'' \<and>
   (\<exists>w'. HandleOpen demo_env demo_path_state = Ret SYSC_SUCCESS w' \<and> 100 \<in> m_random_fds w')"
proof
  show p: "is_random_path ''/dev/urandom''" by (simp add: is_random_path_def)
  have inv: "fd_inv demo_path_state"
    using fd_inv_init by (simp add: demo_path_state_def set_mem_def demo_state_def)
  have av: "availableFDs demo_path_state = {100..<200}"
    by (simp add: demo_path_state_def set_mem_def demo_state_def GrailApplication_def
        insert_fds_eq MAX_NUM_FDS_def)
  have a: "argv 1 demo_path_state = 0"
    by (simp add: demo_path_state_def set_mem_def demo_state_def GrailApplication_def argv_def
        arg_def get_reg_def demo_args_def)
  have "mapped (memory_of demo_path_state) 0 (round8 256)"
    by (simp add: mapped_def demo_path_state_def set_mem_def upt_rec round8_def)
  then have "copy_in (memory_of demo_path_state) 0 256 = fetch (memory_of demo_path_state) 0 256"
    by (rule tc.cin_mapped)
  moreover have "c_string (fetch (memory_of demo_path_state) 0 256) = ''/dev/urandom''"
    by (simp add: fetch_def demo_path_state_def set_mem_def c_string_def upt_rec
        char_of_def bit_Suc_0_iff)
  ultimately have "c_string (copy_in (memory_of demo_path_state) (argv 1 demo_path_state) 256)
      = ''/dev/urandom''"
    by (simp only: a)
  then have rp: "is_random_path (c_string (copy_in (memory_of demo_path_state) (argv 1 demo_path_state) 256))"
    using p by simp
  have ne: "availableFDs demo_path_state \<noteq> {}" using av by simp
  have least: "Min (availableFDs demo_path_state) = 100" unfolding av by (rule Min_eqI) auto
  obtain w' fd where "HandleOpen demo_env demo_path_state = Ret SYSC_SUCCESS w'"
    and "fd = Min (availableFDs demo_path_state)"
    and "m_random_fds w' = insert fd (m_random_fds demo_path_state)"
    using HandleOpen_random [OF demo_getpid inv ne rp] by (elim exE conjE) (rule that)
  then show "\<exists>w'. HandleOpen demo_env demo_path_state = Ret SYSC_SUCCESS w' \<and> 100 \<in> m_random_fds w'"
    by (intro exI [of _ w']) (simp add: least)
qed

text \<open>
  \<open>read\<close> from a random device: exactly the requested number of generated bytes is stored
  at the buffer, no byte outside it changes, and the count is the result.
\<close>

theorem HandleRead_random:
  assumes "getpid_ok E" and "fd = c_int (argv 1 w)" and "fd \<in> m_random_fds w"
    and "unat (argv 3 w) < 2 ^ 63" and "mapped (memory_of w) (argv 2 w) (round8 (unat (argv 3 w)))"
  shows "\<exists>w'. HandleRead E w = Ret SYSC_SUCCESS w' \<and>
    get_reg (cur_pid w) RAX (tr w') = argv 3 w \<and>
    fetch (memory_of w') (argv 2 w) (unat (argv 3 w))
      = fst (random_bytes E (unat (argv 3 w)) (xt w)) \<and>
    (\<forall>x. unat (argv 3 w) \<le> unat (x - argv 2 w) \<longrightarrow> memory_of w' x = memory_of w x)"
proof -
  obtain bs x where r: "random_bytes E (unat (argv 3 w)) (xt w) = (bs, x)" by fastforce
  then have len: "length bs = unat (argv 3 w)" using length_random_bytes by (metis fst_conv)
  let ?w = "faked (cur_pid w) (argv 3 w) (set_mem (store (memory_of w) (argv 2 w) bs) (set_ext x w))"
  have "FdIsEmulatedSocket fd w" using assms(3) by (simp add: FdIsEmulatedSocket_def)
  then have "HandleRead E w = Ret SYSC_SUCCESS ?w"
    using assms r len by (simp add: HandleRead_def Let_def copy_to_mapped fakes set_mem_def set_ext_def)
  moreover have "fetch (memory_of ?w) (argv 2 w) (unat (argv 3 w)) = bs"
    using fetch_store [of bs "memory_of w" "argv 2 w"] len assms(4) by (simp add: set_mem_def)
  moreover have "\<forall>x. unat (argv 3 w) \<le> unat (x - argv 2 w) \<longrightarrow> memory_of ?w x = memory_of w x"
    using len by (simp add: set_mem_def store_outside)
  ultimately show ?thesis using r by simp
qed

theorem HandleRead_random_witness:
  "\<exists>w'. HandleRead demo_env ((demo_state [100, 8, 3])\<lparr>m_random_fds := {100}\<rparr>) = Ret SYSC_SUCCESS w' \<and>
     fetch (memory_of w') 8 3 = [0, 1, 2]"
proof -
  let ?w = "(demo_state [100, 8, 3])\<lparr>m_random_fds := {100}\<rparr>"
  have a: "argv 1 ?w = 100" "argv 2 ?w = 8" "argv 3 ?w = 3"
    by (simp_all add: demo_state_def GrailApplication_def argv_def arg_def get_reg_def demo_args_def)
  have "mapped (memory_of ?w) (argv 2 ?w) (round8 (unat (argv 3 ?w)))"
    unfolding a by (simp add: demo_state_def GrailApplication_def demo_mem_def mapped_def round8_def upt_rec)
  moreover have "100 = c_int (argv 1 ?w)" unfolding a by (simp add: c_int_def)
  moreover have "100 \<in> m_random_fds ?w" by simp
  moreover have "unat (argv 3 ?w) < 2 ^ 63" unfolding a by simp
  ultimately have "\<exists>w'. HandleRead demo_env ?w = Ret SYSC_SUCCESS w' \<and>
      fetch (memory_of w') (argv 2 ?w) (unat (argv 3 ?w))
        = fst (random_bytes demo_env (unat (argv 3 ?w)) (xt ?w))"
    using HandleRead_random [OF demo_getpid, of 100 ?w] by blast
  moreover have "fst (random_bytes demo_env 3 (xt ?w)) = [0, 1, 2]"
    by (simp add: numeral_3_eq_3 demo_env_def demo_state_def GrailApplication_def)
  ultimately show ?thesis unfolding a by simp
qed

text \<open>
  \<open>write\<close> to standard output with printing on: the text up to the first zero byte is
  printed, but the result is the full count.
\<close>

theorem HandleWrite_stdout:
  assumes "getpid_ok E" and "fd_inv w" and "c_int (argv 1 w) = 1"
    and "argv 2 w \<noteq> 0" and "argv 3 w \<noteq> 0" and "m_printStdout w"
    and "mapped (memory_of w) (argv 2 w) (round8 (unat (argv 3 w)))"
  shows "\<exists>w'. HandleWrite E w = Ret SYSC_SUCCESS w' \<and>
    stdout w' = stdout w @ takeWhile (\<lambda>b. b \<noteq> 0) (fetch (memory_of w) (argv 2 w) (unat (argv 3 w))) \<and>
    get_reg (cur_pid w) RAX (tr w') = argv 3 w \<and> memory_of w' = memory_of w"
proof -
  have "\<not> FdIsEmulatedSocket 1 w" using fd_inv_emulated_range [OF assms(2), of 1] by auto
  with assms show ?thesis
    by (simp add: HandleWrite_def Let_def NS_ASSERT_def fakes faked_def tc.cin_mapped)
qed

theorem HandleWrite_stdout_witness:
  "\<exists>w'. HandleWrite demo_env (demo_state [1, 8, 3]) = Ret SYSC_SUCCESS w' \<and> stdout w' = [] \<and>
     get_reg 1 RAX (tr w') = 3"
proof -
  let ?w = "demo_state [1, 8, 3]"
  have a: "argv 1 ?w = 1" "argv 2 ?w = 8" "argv 3 ?w = 3" "cur_pid ?w = 1" "m_printStdout ?w"
    "memory_of ?w = demo_mem" "stdout ?w = []"
    by (simp_all add: demo_state_def GrailApplication_def argv_def arg_def get_reg_def demo_args_def)
  have "fd_inv ?w" using fd_inv_init by (simp add: demo_state_def)
  moreover have "mapped demo_mem 8 (round8 3)" "fetch demo_mem 8 3 = [0, 0, 0]"
    by (simp_all add: demo_mem_def mapped_def fetch_def round8_def upt_rec)
  moreover have "c_int 1 = 1" by (simp add: c_int_def)
  ultimately show ?thesis
    using HandleWrite_stdout [OF demo_getpid, of ?w] a(5) unfolding a(1-4,6,7) by auto
qed


definition demo_exit :: "nat env" where
  "demo_exit = demo_env\<lparr>k_wait := (\<lambda>p t. (Some 0, t)), e_Recv := (\<lambda>s n x. ((0, []), x))\<rparr>"

lemma demo_exit_wait: "WaitForSyscall demo_exit p t = Some (1, t)"
  unfolding WaitForSyscall_def
  by (subst wait_loop_done) (simp_all add: wait_once_def demo_exit_def wait_done_def
      syscall_stop_def WIFSTOPPED_def WIFEXITED_def)


end
