(* ===== verification/Grail_Time.thy ===== *)
theory Grail_Time
  imports Grail_Demo
begin

text \<open>
  The time, thread and synchronisation handlers of \<^verbatim>\<open>src/model/grail.cc\<close>: \<open>HandleNanoSleep\<close> with
  its event, \<open>HandleAlarm\<close>, \<open>HandleTime\<close>, \<open>HandleGetTimeOfDay\<close>, \<open>HandleClockGetTime\<close>,
  \<open>HandleClockGetRes\<close>, \<open>HandleClone\<close>, \<open>HandleFutex\<close> and \<open>HandleExit\<close>. The simulated clock counts
  nanoseconds; a \<open>timespec\<close> and a \<open>timeval\<close> are two 64-bit integers.
\<close>

section \<open>Sleeping\<close>

definition le_long :: "byte list \<Rightarrow> int" where
  "le_long bs = sint (bytes_word bs)"

definition HandleNanoSleep :: "'x env \<Rightarrow> 'x grail \<Rightarrow> (sysc, 'x grail) outcome" where
  "HandleNanoSleep E w =
     (let req = copy_in (memory_of w) (argv 1 w) 16;
          saved_pid = cur_pid w
      in Ret SYSC_DELAYED
           (Schedule E (le_long (take 8 req) * 1000000000 + le_long (drop 8 req))
              (EvNanoSleep saved_pid) w))"

definition nanosleep_event :: "'x env \<Rightarrow> pid \<Rightarrow> 'x grail \<Rightarrow> (unit, 'x grail) outcome" where
  "nanosleep_event E saved_pid w =
     FAKE4 E saved_pid 0 SYSC_SUCCESS w (\<lambda>res w. ProcessStatusCode E res saved_pid w)"

text \<open>The assertion at the start never holds; the rest is not reached.\<close>

definition HandleAlarm :: "'x env \<Rightarrow> 'x grail \<Rightarrow> (sysc, 'x grail) outcome" where
  "HandleAlarm E w = Halt AssertFailure w"

section \<open>Reading the clock\<close>

definition long_bytes :: "nat \<Rightarrow> byte list" where
  "long_bytes n = le_bytes 8 n"

definition HandleTime :: "'x env \<Rightarrow> 'x grail \<Rightarrow> (sysc, 'x grail) outcome" where
  "HandleTime E w =
     (let tloc = argv 1 w; mytloc = e_Now E (xt w) div 1000000000 in
      store_to tloc (long_bytes mytloc) w (\<lambda>w.
        FAKE E (cur_pid w) (of_nat mytloc) w (Ret SYSC_SUCCESS)))"

definition HandleGetTimeOfDay :: "'x env \<Rightarrow> 'x grail \<Rightarrow> (sysc, 'x grail) outcome" where
  "HandleGetTimeOfDay E w =
     (let tv = argv 1 w; tz = argv 2 w in
      NS_ASSERT (tz = 0) w (\<lambda>w.
        let tv_sec = e_Now E (xt w) div 1000000000;
            tv_usec = e_Now E (xt w) div 1000 - tv_sec * 1000000
        in store_to tv (long_bytes tv_sec @ long_bytes tv_usec) w (\<lambda>w.
          FAKE E (cur_pid w) 0 w (Ret SYSC_SUCCESS))))"

definition cpu_clock :: "int \<Rightarrow> bool" where
  "cpu_clock clk_id \<longleftrightarrow> clk_id = CLOCK_PROCESS_CPUTIME_ID \<or> clk_id = CLOCK_THREAD_CPUTIME_ID"

definition HandleClockGetTime :: "'x env \<Rightarrow> 'x grail \<Rightarrow> (sysc, 'x grail) outcome" where
  "HandleClockGetTime E w =
     (let clk_id = c_int (argv 1 w); tp = argv 2 w in
      if cpu_clock clk_id then FAKE E (cur_pid w) (c_reg (- 1)) w (Ret SYSC_FAILURE)
      else
        let tv_sec = e_Now E (xt w) div 1000000000;
            tv_nsec = e_Now E (xt w) - tv_sec * 1000000000
        in store_to tp (long_bytes tv_sec @ long_bytes tv_nsec) w (Ret SYSC_SUCCESS))"

definition HandleClockGetRes :: "'x env \<Rightarrow> 'x grail \<Rightarrow> (sysc, 'x grail) outcome" where
  "HandleClockGetRes E w =
     (let clk_id = c_int (argv 1 w); res = argv 2 w in
      if cpu_clock clk_id then FAKE E (cur_pid w) (c_reg (- 1)) w (Ret SYSC_FAILURE)
      else store_to res (long_bytes 0 @ long_bytes 10) w (Ret SYSC_SUCCESS))"

section \<open>Threads\<close>

definition HandleClone :: "'x env \<Rightarrow> 'x grail \<Rightarrow> (sysc, 'x grail) outcome" where
  "HandleClone E w =
     (let flags = argv 1 w OR CLONE_PTRACE;
          w1 = w\<lparr>tr := set_reg (cur_pid w) RDI flags (tr w)\<rparr>
      in HandleSyscallAfterClone E w1)"

definition HandleFutex :: "'x env \<Rightarrow> 'x grail \<Rightarrow> (sysc, 'x grail) outcome" where
  "HandleFutex E w =
     (let uaddr = argv 1 w; futex_op = c_int (argv 2 w); val = c_int (argv 3 w);
          my_uaddr = le_int (LoadFromTracee (memory_of w) (uninit E 4) uaddr)
      in if futex_op = FUTEX_WAIT \<or> futex_op = FUTEX_WAIT_PRIVATE then
           if my_uaddr = val then FAKE E (cur_pid w) 0 w (Ret SYSC_SUCCESS)
           else HandleSyscallAfter E w
         else HandleSyscallAfter E w)"

definition HandleExit :: "'x env \<Rightarrow> 'x grail \<Rightarrow> (sysc, 'x grail) outcome" where
  "HandleExit E w = Ret SYSC_SUCCESS w"

section \<open>The invariants are kept\<close>

context priv_invariant
begin

lemma keeps_time [keeps_intros]:
  assumes "I w"
  shows "keeps I (HandleNanoSleep E w)" "keeps I (HandleAlarm E w)" "keeps I (HandleTime E w)"
    "keeps I (HandleGetTimeOfDay E w)" "keeps I (HandleClockGetTime E w)"
    "keeps I (HandleClockGetRes E w)" "keeps I (HandleFutex E w)" "keeps I (HandleExit E w)"
  using assms
  unfolding HandleNanoSleep_def HandleAlarm_def HandleTime_def HandleGetTimeOfDay_def
    HandleClockGetTime_def HandleClockGetRes_def HandleFutex_def HandleExit_def Let_def
  by (simp_all add: keeps_intros)

lemma keeps_clone [keeps_intros]: "I w \<Longrightarrow> keeps I (HandleClone E w)"
  unfolding HandleClone_def Let_def by (intro keeps_AfterClone I_tr)

lemma keeps_nanosleep_event [keeps_intros]: "I w \<Longrightarrow> keeps I (nanosleep_event E p w)"
  unfolding nanosleep_event_def by (intro keeps_FAKE4 keeps_ProcessStatusCode)

end

section \<open>Properties\<close>

lemma le_nat_long_bytes: "n < 2 ^ 64 \<Longrightarrow> le_nat (long_bytes n) = n"
  by (simp add: long_bytes_def le_nat_le_bytes)

lemma length_long_bytes [simp]: "length (long_bytes n) = 8"
  by (simp add: long_bytes_def)

lemma fetch_two_longs:
  assumes "m' = store m a (long_bytes i @ long_bytes j)"
  shows "fetch m' a 8 = long_bytes i" and "fetch m' (a + 8) 8 = long_bytes j"
  using fetch_store_parts [of "long_bytes i" "long_bytes j" m a] assms by simp_all

lemma store_to_mapped:
  "a \<noteq> 0 \<Longrightarrow> length bs < 2 ^ 63 \<Longrightarrow> mapped (memory_of w) a (round8 (length bs)) \<Longrightarrow>
   store_to a bs w k = k (set_mem (store (memory_of w) a bs) w)"
  by (simp add: store_to_def StoreToTracee_def copy_out_eq)

lemma set_mem_memory [simp]: "memory_of (set_mem m w) = m" "xt (set_mem m w) = xt w"
  "regs (tr (set_mem m w)) = regs (tr w)"
  by (simp_all add: set_mem_def)

text \<open>
  (C32) \<open>clock_gettime\<close> of a supported clock: seconds and nanoseconds in the tracee's memory are
  the simulated time, the nanoseconds are below one second, and the pending call and its
  registers are left as they are, so that the kernel still runs it.
\<close>

theorem HandleClockGetTime_writes_now:
  assumes "\<not> cpu_clock (c_int (argv 1 w))" and "tp = argv 2 w" and "tp \<noteq> 0"
    and "mapped (memory_of w) tp 16" and "e_Now E (xt w) < 2 ^ 63"
  shows "\<exists>w'. HandleClockGetTime E w = Ret SYSC_SUCCESS w' \<and> regs (tr w') = regs (tr w) \<and>
    le_nat (fetch (memory_of w') tp 8) * 1000000000 + le_nat (fetch (memory_of w') (tp + 8) 8)
      = e_Now E (xt w) \<and>
    le_nat (fetch (memory_of w') (tp + 8) 8) < 1000000000"
proof -
  let ?now = "e_Now E (xt w)"
  let ?s = "?now div 1000000000" and ?n = "?now - ?now div 1000000000 * 1000000000"
  let ?m = "store (memory_of w) tp (long_bytes ?s @ long_bytes ?n)"
  have n: "?n = ?now mod 1000000000" by (rule minus_div_mult_eq_mod)
  have "HandleClockGetTime E w = Ret SYSC_SUCCESS (set_mem ?m w)"
    using assms by (simp add: HandleClockGetTime_def store_to_mapped round8_def Let_def)
  moreover have "?s < 2 ^ 64" "?n < 2 ^ 64"
    using assms(5) by (simp_all add: le_less_trans [OF div_le_dividend])
  ultimately show ?thesis
    using fetch_two_longs [OF refl, of "memory_of w" tp ?s ?n] n by (simp add: le_nat_long_bytes)
qed

text \<open>
  \<open>gettimeofday\<close>: seconds and microseconds in memory are the simulated time rounded down
  to microseconds, and the call returns 0.
\<close>

theorem HandleGetTimeOfDay_writes_now:
  assumes "getpid_ok E" and "argv 2 w = 0" and "tv = argv 1 w" and "tv \<noteq> 0"
    and "mapped (memory_of w) tv 16" and "e_Now E (xt w) < 2 ^ 63"
  shows "\<exists>w'. HandleGetTimeOfDay E w = Ret SYSC_SUCCESS w' \<and>
    get_reg (cur_pid w) RAX (tr w') = 0 \<and>
    le_nat (fetch (memory_of w') tv 8) * 1000000 + le_nat (fetch (memory_of w') (tv + 8) 8)
      = e_Now E (xt w) div 1000 \<and>
    le_nat (fetch (memory_of w') (tv + 8) 8) < 1000000"
proof -
  let ?now = "e_Now E (xt w)"
  let ?s = "?now div 1000000000" and ?u = "?now div 1000 - ?now div 1000000000 * 1000000"
  let ?m = "store (memory_of w) tv (long_bytes ?s @ long_bytes ?u)"
  have s: "?s = ?now div 1000 div 1000000" by (simp flip: div_mult2_eq)
  then have u: "?u = ?now div 1000 mod 1000000" by (simp only: minus_div_mult_eq_mod)
  have "HandleGetTimeOfDay E w = Ret SYSC_SUCCESS (faked (cur_pid w) 0 (set_mem ?m w))"
    using assms by (simp add: HandleGetTimeOfDay_def NS_ASSERT_def store_to_mapped round8_def fakes
        set_mem_def Let_def)
  moreover have "?s < 2 ^ 64" "?u < 2 ^ 64"
    using assms(6) u by (simp_all add: le_less_trans [OF div_le_dividend])
  moreover have "?s * 1000000 + ?u = ?now div 1000"
    unfolding u unfolding s by (rule div_mult_mod_eq)
  moreover have "?u < 1000000" unfolding u by simp
  ultimately show ?thesis
    using fetch_two_longs [OF refl, of "memory_of w" tv ?s ?u]
    by (simp add: le_nat_long_bytes)
qed

lemma demo_args_eval:
  "argv 1 (demo_state xs) = xs ! 0" "argv 2 (demo_state xs) = xs ! 1" "argv 3 (demo_state xs) = xs ! 2"
  "cur_pid (demo_state xs) = 1" "memory_of (demo_state xs) = demo_mem" "xt (demo_state xs) = 0"
  by (simp_all add: demo_state_def GrailApplication_def argv_def arg_def get_reg_def demo_args_def)

lemma demo_clock [simp]: "e_Now demo_env x = x"
  by (simp add: demo_env_def)

lemma demo_mapped: "mapped demo_mem 8 16"
  by (simp add: mapped_def demo_mem_def upt_rec)

theorem HandleClockGetTime_writes_now_witness:
  "\<exists>w'. HandleClockGetTime demo_env (demo_state [1, 8]) = Ret SYSC_SUCCESS w' \<and>
     le_nat (fetch (memory_of w') 8 8) * 1000000000 + le_nat (fetch (memory_of w') (8 + 8) 8) = 0"
proof -
  let ?w = "demo_state [1, 8]"
  have "\<not> cpu_clock (c_int (argv 1 ?w))" "8 = argv 2 ?w" "mapped (memory_of ?w) 8 16"
    "e_Now demo_env (xt ?w) < 2 ^ 63"
    unfolding demo_args_eval by (simp_all add: cpu_clock_def c_int_def demo_mapped)
  from HandleClockGetTime_writes_now [OF this(1,2) _ this(3,4)]
  show ?thesis by (simp only: demo_args_eval demo_clock) auto
qed

theorem HandleGetTimeOfDay_writes_now_witness:
  "\<exists>w'. HandleGetTimeOfDay demo_env (demo_state [8, 0]) = Ret SYSC_SUCCESS w' \<and>
     le_nat (fetch (memory_of w') 8 8) * 1000000 + le_nat (fetch (memory_of w') (8 + 8) 8) = 0"
proof -
  let ?w = "demo_state [8, 0]"
  have "argv 2 ?w = 0" "8 = argv 1 ?w" "mapped (memory_of ?w) 8 16"
    "e_Now demo_env (xt ?w) < 2 ^ 63"
    unfolding demo_args_eval by (simp_all add: demo_mapped)
  from HandleGetTimeOfDay_writes_now [OF demo_getpid this(1,2) _ this(3,4)]
  show ?thesis by (simp only: demo_args_eval demo_clock) auto
qed


lemma long_bytes_zero: "long_bytes 0 = [0, 0, 0, 0, 0, 0, 0, 0]"
proof -
  have "le_bytes k 0 = replicate k 0" for k by (induction k) simp_all
  then show ?thesis by (simp add: long_bytes_def numeral_eq_Suc)
qed


text \<open>
  \<open>clone\<close>: the kernel runs the call with the tracing flag added to the tracee's flags and
  nothing else changed; the thread it reports is recorded last and is scheduled for its
  first system call 100 ns later.
\<close>

theorem HandleClone_traces_thread:
  assumes "t0 = set_reg (cur_pid w) RDI (argv 1 w OR CLONE_PTRACE) (tr w)"
    and "WaitForSyscall E (cur_pid w) t0 = Some (0, t)"
  shows "\<exists>w' e. HandleClone E w = Ret SYSC_SUCCESS w' \<and> tr w' = t \<and>
    tid_vector w' = tid_vector w @ [c_int (get_reg (cur_pid w) RAX t)] \<and>
    events w' = events w @ [e] \<and>
    ev_do e = EvHandleSyscallBefore (c_int (get_reg (cur_pid w) RAX t)) \<and>
    ev_time e = int (e_Now E (ext t)) + 100"
  using assms by (simp add: HandleClone_def HandleSyscallAfterClone_def Let_def Schedule_def)

theorem HandleClone_traces_thread_witness:
  "\<exists>w'. HandleClone demo_env (demo_state [0]) = Ret SYSC_SUCCESS w' \<and> tid_vector w' = [1, 4711]"
proof -
  let ?w = "demo_state [0]"
  have "tid_vector ?w = [1]" by (simp add: demo_state_def)
  moreover have "c_int 4711 = 4711" by (simp add: c_int_def)
  ultimately show ?thesis
    using HandleClone_traces_thread [OF refl demo_wait, of ?w] by (simp add: demo_args_eval) blast
qed

end
