(* ===== verification/Grail_Socket.thy ===== *)
theory Grail_Socket
  imports Netlink Grail_File Grail_Time
begin

text \<open>
  The socket handlers of \<^verbatim>\<open>src/model/grail.cc\<close> and the closures they register with the
  simulator's sockets: \<open>HandleSocket\<close>, \<open>HandleListen\<close>, \<open>HandleConnect\<close>, \<open>HandleAccept\<close>,
  \<open>HandleBind\<close>, \<open>HandleSendTo\<close>, \<open>HandleRecvFrom\<close>, \<open>HandleGetSockName\<close>, \<open>HandleGetPeerName\<close>,
  \<open>HandleGetSockOpt\<close>, \<open>HandleSetSockOpt\<close>, \<open>HandleRecvMsg\<close>, \<open>HandleSendMsg\<close> and \<open>HandlePoll\<close>.
  A closure that the simulator calls is a function of its own; registering it is an entry in
  one of the callback maps of the state.
\<close>

section \<open>socket, listen, connect, accept\<close>

definition HandleSocket :: "'x env \<Rightarrow> 'x grail \<Rightarrow> (sysc, 'x grail) outcome" where
  "HandleSocket E w =
     (let domain = c_int (argv 1 w); type = c_int (argv 2 w); protocol = c_int (argv 3 w) in
      if domain = AF_INET then
        if \<not> (type = SOCK_DGRAM \<or> type = SOCK_STREAM) then
          FAKE E (cur_pid w) (c_reg (- EPROTONOSUPPORT)) w (Ret SYSC_FAILURE)
        else if type = SOCK_DGRAM then
          let (socket, x) = e_CreateSocket E False (xt w) in
          and_then (GetNextFD (set_ext x w)) (\<lambda>new_socket_fd w.
            let w1 = w\<lparr>m_sockets := (m_sockets w)(new_socket_fd \<mapsto> socket)\<rparr> in
            FAKE E (cur_pid w1) (c_reg new_socket_fd) w1 (Ret SYSC_SUCCESS))
        else
          let (socket, x) = e_CreateSocket E True (xt w) in
          and_then (GetNextFD (set_ext x w)) (\<lambda>new_socket_fd w.
            let w1 = w\<lparr>m_sockets := (m_sockets w)(new_socket_fd \<mapsto> socket),
                  m_tcpSockets := insert new_socket_fd (m_tcpSockets w)\<rparr> in
            FAKE E (cur_pid w1) (c_reg new_socket_fd) w1 (Ret SYSC_SUCCESS))
      else if domain = AF_NETLINK then
        if type \<noteq> SOCK_RAW \<and> type \<noteq> SOCK_DGRAM then
          FAKE E (cur_pid w) (c_reg (- EPROTOTYPE)) w (Ret SYSC_FAILURE)
        else if protocol = NETLINK_ROUTE then
          and_then (GetNextFD w) (\<lambda>new_socket_fd w.
            let n = nl_next w;
                w1 = w\<lparr>m_netlinks := (m_netlinks w)(new_socket_fd \<mapsto> n),
                  nl_objs := (nl_objs w)(n \<mapsto> NetlinkSocket E (cur_pid w) NETLINK_ROUTE),
                  nl_next := Suc n\<rparr>
            in FAKE E (cur_pid w1) (c_reg new_socket_fd) w1 (Ret SYSC_SUCCESS))
        else FAKE E (cur_pid w) (c_reg (- EPROTONOSUPPORT)) w (Ret SYSC_ERROR)
      else FAKE E (cur_pid w) (c_reg (- EAFNOSUPPORT)) w (Ret SYSC_FAILURE))"

text \<open>\<open>m_sockets.at(fd)\<close>.\<close>

definition socket_at ::
  "fd \<Rightarrow> 'x grail \<Rightarrow> (sockid \<Rightarrow> ('a, 'x grail) outcome) \<Rightarrow> ('a, 'x grail) outcome" where
  "socket_at fd w k = (case m_sockets w fd of None \<Rightarrow> Halt OutOfRange w | Some s \<Rightarrow> k s)"

definition HandleListen :: "'x env \<Rightarrow> 'x grail \<Rightarrow> (sysc, 'x grail) outcome" where
  "HandleListen E w =
     (let sockfd = c_int (argv 1 w) in
      if sockfd \<notin> m_tcpSockets w then
        FAKE E (cur_pid w) (c_reg (- EOPNOTSUPP)) w (Ret SYSC_FAILURE)
      else if sockfd \<in> m_isListenTcpSocket w then
        FAKE E (cur_pid w) (c_reg (- EOPNOTSUPP)) w (Ret SYSC_FAILURE)
      else socket_at sockfd w (\<lambda>sock.
        let (ret, x) = e_Listen E sock (xt w);
            w1 = set_ext x w;
            w2 = w1\<lparr>m_isListenTcpSocket := insert sockfd (m_isListenTcpSocket w1)\<rparr>
        in FAKE E (cur_pid w2) (c_reg ret) w2 (\<lambda>w.
          if ret \<noteq> 0 then Ret SYSC_FAILURE w
          else socket_at sockfd w (\<lambda>sock.
            Ret SYSC_SUCCESS (w\<lparr>cb_accept := (cb_accept w)(sock \<mapsto> AcceptFake sockfd)\<rparr>)))))"

definition HandleConnect :: "'x env \<Rightarrow> 'x grail \<Rightarrow> (sysc, 'x grail) outcome" where
  "HandleConnect E w =
     (let sockfd = c_int (argv 1 w); a = argv 2 w; addrlen = c_uint (argv 3 w) in
      if m_sockets w sockfd = None then
        FAKE E (cur_pid w) (c_reg (- 1)) w (Ret SYSC_FAILURE)
      else and_then (GetNs3Address E a addrlen w) (\<lambda>ns3addr w.
        case ns3addr of
          None \<Rightarrow> Ret SYSC_ERROR w
        | Some ad \<Rightarrow> socket_at sockfd w (\<lambda>sock.
            let w1 = w\<lparr>cb_connect := (cb_connect w)(sock \<mapsto> ConnectBlocked sockfd (cur_pid w))\<rparr>
            in Ret SYSC_DELAYED (set_ext (e_Connect E sock ad (xt w1)) w1))))"

definition connect_success :: "'x env \<Rightarrow> fd \<Rightarrow> pid \<Rightarrow> 'x grail \<Rightarrow> (unit, 'x grail) outcome" where
  "connect_success E sockfd saved_pid w =
     (let w1 = w\<lparr>m_connectedSockets := insert sockfd (m_connectedSockets w)\<rparr> in
      FAKE4 E saved_pid 0 SYSC_SUCCESS w1 (\<lambda>res w. ProcessStatusCode E res saved_pid w))"

definition connect_failure :: "'x env \<Rightarrow> pid \<Rightarrow> 'x grail \<Rightarrow> (unit, 'x grail) outcome" where
  "connect_failure E saved_pid w =
     FAKE4 E saved_pid (c_reg (- 1)) SYSC_FAILURE w (\<lambda>res w. ProcessStatusCode E res saved_pid w)"

text \<open>A new connection gets a descriptor and is entered as a connected TCP socket.\<close>

definition enter_connection :: "fd \<Rightarrow> sockid \<Rightarrow> 'x grail \<Rightarrow> 'x grail" where
  "enter_connection new_socket_fd ns3Sock w =
     w\<lparr>m_sockets := (m_sockets w)(new_socket_fd \<mapsto> ns3Sock),
       m_tcpSockets := insert new_socket_fd (m_tcpSockets w),
       m_connectedSockets := insert new_socket_fd (m_connectedSockets w)\<rparr>"

definition HandleAccept :: "'x env \<Rightarrow> 'x grail \<Rightarrow> (sysc, 'x grail) outcome" where
  "HandleAccept E w =
     (let sockfd = c_int (argv 1 w); a = argv 2 w; addrlen = argv 3 w in
      NS_ASSERT (FdIsEmulatedSocket sockfd w \<and> sockfd \<in> m_isListenTcpSocket w) w (\<lambda>w.
        let dont_block = sockfd \<in> m_nonblocking_sockets w in
        case m_fakeAcceptedSockets w sockfd of
          Some (ns3Sock, ns3Addr) \<Rightarrow>
            let w1 = w\<lparr>m_fakeAcceptedSockets := (m_fakeAcceptedSockets w)(sockfd := None)\<rparr> in
            and_then (SetBsdAddress E ns3Addr a addrlen w1) (\<lambda>_ w.
              and_then (GetNextFD w) (\<lambda>new_socket_fd w.
                let w1 = enter_connection new_socket_fd ns3Sock w in
                FAKE E (cur_pid w1) (c_reg new_socket_fd) w1 (Ret SYSC_SUCCESS)))
        | None \<Rightarrow>
            if dont_block then FAKE E (cur_pid w) (c_reg (- EWOULDBLOCK)) w (Ret SYSC_FAILURE)
            else socket_at sockfd w (\<lambda>sock. Ret SYSC_DELAYED
              (w\<lparr>cb_accept := (cb_accept w)(sock \<mapsto> AcceptBlocked sockfd a addrlen (cur_pid w))\<rparr>))))"

text \<open>\<open>FAKE2\<close> uses the current \<open>pid\<close>, only the status is processed for the saved one.\<close>

definition accept_callback ::
  "'x env \<Rightarrow> addr \<Rightarrow> addr \<Rightarrow> pid \<Rightarrow> sockid \<Rightarrow> address \<Rightarrow> 'x grail \<Rightarrow> (unit, 'x grail) outcome" where
  "accept_callback E a addrlen saved_pid ns3Sock ns3Addr w =
     and_then (SetBsdAddress E ns3Addr a addrlen w) (\<lambda>_ w.
       and_then (GetNextFD w) (\<lambda>new_socket_fd w.
         let w1 = enter_connection new_socket_fd ns3Sock w in
         FAKE2 E (cur_pid w1) (c_reg new_socket_fd) SYSC_SUCCESS w1 (\<lambda>res w.
           ProcessStatusCode E res saved_pid w)))"

definition fakeAccept :: "fd \<Rightarrow> sockid \<Rightarrow> address \<Rightarrow> 'x grail \<Rightarrow> (unit, 'x grail) outcome" where
  "fakeAccept sockfd newSock newAddr w =
     Ret () (w\<lparr>m_fakeAcceptedSockets := (m_fakeAcceptedSockets w)(sockfd \<mapsto> (newSock, newAddr))\<rparr>)"

section \<open>bind, sendto, recvfrom\<close>

definition HandleBind :: "'x env \<Rightarrow> 'x grail \<Rightarrow> (sysc, 'x grail) outcome" where
  "HandleBind E w =
     (let sockfd = c_int (argv 1 w); a = argv 2 w; addrlen = c_uint (argv 3 w) in
      case m_sockets w sockfd of
        Some sock \<Rightarrow>
          and_then (GetNs3Address E a addrlen w) (\<lambda>ns3addr w.
            case ns3addr of
              None \<Rightarrow> Ret SYSC_ERROR w
            | Some ad \<Rightarrow>
                let (ret, x) = e_Bind E sock ad (xt w); w1 = set_ext x w in
                FAKE E (cur_pid w1) (c_reg ret) w1 (Ret SYSC_SUCCESS))
      | None \<Rightarrow>
          (case m_netlinks w sockfd of
             Some n \<Rightarrow> nl_HandleBind E n a w
           | None \<Rightarrow> Ret SYSC_ERROR w))"

definition HandleSendTo ::
  "'x env \<Rightarrow> (nat \<Rightarrow> select_capture \<Rightarrow> 'x grail \<Rightarrow> (unit, 'x grail) outcome)
   \<Rightarrow> 'x grail \<Rightarrow> (sysc, 'x grail) outcome" where
  "HandleSendTo E cb w =
     (let sockfd = c_int (argv 1 w); buf = argv 2 w; len = argv 3 w;
          flags = (ucast (argv 4 w) :: 32 word); dest_addr = argv 5 w; addrlen = c_uint (argv 6 w) in
      case m_sockets w sockfd of
        Some sock \<Rightarrow>
          let dontroute = (flags AND of_int MSG_DONTROUTE \<noteq> 0);
              flags_left = (if dontroute then flags - of_int MSG_DONTROUTE else flags);
              ns3flags = (if dontroute then MSG_DONTROUTE else 0)
          in if flags_left \<noteq> 0 then Ret SYSC_ERROR w
             else
               let buf' = copy_in (memory_of w) buf (unat len) in
               and_then (if dest_addr \<noteq> 0 then GetNs3Address E dest_addr addrlen w
                         else Ret (Some OtherAddress) w) (\<lambda>ns3addr w.
                 case ns3addr of
                   None \<Rightarrow> Halt NullPointer w
                 | Some ad \<Rightarrow>
                     let (ret, x) = e_SendTo E sock buf' ns3flags ad (xt w); w1 = set_ext x w in
                     FAKE E (cur_pid w1) (c_reg ret) w1 (Ret SYSC_SUCCESS))
      | None \<Rightarrow>
          (case m_netlinks w sockfd of
             Some n \<Rightarrow> nl_HandleSendTo E cb n buf len (sint flags) w
           | None \<Rightarrow> Ret SYSC_ERROR w))"

definition recvfrom_callback ::
  "'x env \<Rightarrow> pid \<Rightarrow> addr \<Rightarrow> nat \<Rightarrow> int \<Rightarrow> addr \<Rightarrow> addr \<Rightarrow> sockid \<Rightarrow> 'x grail
   \<Rightarrow> (unit, 'x grail) outcome" where
  "recvfrom_callback E saved_pid buffer len flags a address_len sock w =
     (let ((rlen, bs, ns3Address), x) = e_RecvFrom E sock len flags (xt w);
          finish = (\<lambda>res w. and_then (ProcessStatusCode E res saved_pid w) (\<lambda>_ w.
            Ret () (w\<lparr>cb_recv := (cb_recv w)(sock := None)\<rparr>)));
          reply = (\<lambda>w. FAKE4 E saved_pid (c_reg rlen) SYSC_SUCCESS w (\<lambda>res w.
            let res = SYSC_SUCCESS in finish res w))
      in and_then (SetBsdAddress E ns3Address a address_len (set_ext x w)) (\<lambda>ok w.
           if \<not> ok then finish SYSC_ERROR w
           else if 0 < rlen then copy_to buffer (take (min len (nat rlen)) bs) w reply
           else reply w))"

definition HandleRecvFrom :: "'x env \<Rightarrow> 'x grail \<Rightarrow> (sysc, 'x grail) outcome" where
  "HandleRecvFrom E w =
     (let socket = c_int (argv 1 w); buffer = argv 2 w; len = unat (argv 3 w);
          flags = c_int (argv 4 w); a = argv 5 w; address_len = argv 6 w in
      case m_sockets w socket of
        None \<Rightarrow> Ret SYSC_ERROR w
      | Some ns3socket \<Rightarrow>
          let flags = (if flags \<noteq> 0 \<and> e_IsTcp E ns3socket (xt w) then 0 else flags);
              saved_pid = cur_pid w
          in if e_GetRxAvailable E ns3socket (xt w) \<noteq> 0 then
               and_then (recvfrom_callback E saved_pid buffer len flags a address_len ns3socket w)
                 (\<lambda>_. Ret SYSC_MANUAL)
             else if socket \<in> m_nonblocking_sockets w then
               FAKE E (cur_pid w) (c_reg (- EWOULDBLOCK)) w (Ret SYSC_SUCCESS)
             else Ret SYSC_DELAYED (w\<lparr>cb_recv := (cb_recv w)(ns3socket \<mapsto>
               RecvRecvFrom saved_pid buffer len flags a address_len)\<rparr>))"

section \<open>Names\<close>

definition HandleGetSockName :: "'x env \<Rightarrow> 'x grail \<Rightarrow> (sysc, 'x grail) outcome" where
  "HandleGetSockName E w =
     (let sockfd = c_int (argv 1 w); a = argv 2 w; addrlen = argv 3 w in
      case m_netlinks w sockfd of
        Some n \<Rightarrow> nl_HandleGetSockName E n a addrlen w
      | None \<Rightarrow>
          (case m_sockets w sockfd of
             Some sock \<Rightarrow>
               let (ret, ns3addr) = e_GetSockName E sock (xt w) in
               and_then (SetBsdAddress E ns3addr a addrlen w) (\<lambda>_ w.
                 FAKE E (cur_pid w) (c_reg ret) w (\<lambda>w.
                   if 0 \<le> ret then Ret SYSC_SUCCESS w else Ret SYSC_FAILURE w))
           | None \<Rightarrow> Ret SYSC_ERROR w))"

definition HandleGetPeerName :: "'x env \<Rightarrow> 'x grail \<Rightarrow> (sysc, 'x grail) outcome" where
  "HandleGetPeerName E w =
     (let sockfd = c_int (argv 1 w); a = argv 2 w; addrlen = argv 3 w in
      NS_ASSERT (sockfd \<in> m_tcpSockets w) w (\<lambda>w. socket_at sockfd w (\<lambda>sock.
        let (ret, ns3addr) = e_GetPeerName E sock (xt w) in
        and_then (SetBsdAddress E ns3addr a addrlen w) (\<lambda>_ w.
          FAKE E (cur_pid w) (c_reg ret) w (\<lambda>w.
            if 0 \<le> ret then Ret SYSC_SUCCESS w else Ret SYSC_FAILURE w)))))"

section \<open>Options\<close>

text \<open>An option's value and length go to the tracee, and the call returns 0.\<close>

definition reply_opt ::
  "'x env \<Rightarrow> addr \<Rightarrow> addr \<Rightarrow> byte list \<Rightarrow> 'x grail \<Rightarrow> (sysc, 'x grail) outcome" where
  "reply_opt E optval optlen bs w =
     copy_to optval bs w (\<lambda>w. copy_to optlen (le_bytes 4 (length bs)) w (\<lambda>w.
       FAKE E (cur_pid w) 0 w (Ret SYSC_SUCCESS)))"

text \<open>\<open>GetAttribute\<close> of a missing attribute is fatal.\<close>

definition reply_attribute ::
  "'x env \<Rightarrow> string \<Rightarrow> sockid \<Rightarrow> addr \<Rightarrow> addr \<Rightarrow> 'x grail \<Rightarrow> (sysc, 'x grail) outcome" where
  "reply_attribute E name sock optval optlen w =
     (case e_GetAttribute E sock name (xt w) of
        None \<Rightarrow> Halt AssertFailure w
      | Some v \<Rightarrow> reply_opt E optval optlen (int_bytes 4 (int v)) w)"

text \<open>
  \<open>TCP_CONGESTION\<close> copies from the address of the pointer to \<open>"reno"\<close>, so five bytes of the
  pointer.
\<close>

definition HandleGetSockOpt :: "'x env \<Rightarrow> 'x grail \<Rightarrow> (sysc, 'x grail) outcome" where
  "HandleGetSockOpt E w =
     (let sockfd = c_int (argv 1 w); level = c_int (argv 2 w); optname = c_int (argv 3 w);
          optval = argv 4 w; optlen = argv 5 w in
      if \<not> FdIsEmulatedSocket sockfd w then HandleSyscallAfter E w
      else NS_ASSERT (optval \<noteq> 0) w (\<lambda>w.
        if level = SOL_SOCKET then
          if optname = SO_SNDBUF then
            socket_at sockfd w (\<lambda>sock. reply_attribute E ''SndBufSize'' sock optval optlen w)
          else if optname = SO_RCVBUF then
            socket_at sockfd w (\<lambda>sock.
              if \<not> e_IsTcp E sock (xt w) then Halt NullPointer w
              else reply_attribute E ''RcvBufSize'' sock optval optlen w)
          else if optname = SO_BROADCAST then
            socket_at sockfd w (\<lambda>sock.
              reply_opt E optval optlen
                (int_bytes 4 (if e_GetAllowBroadcast E sock (xt w) then 1 else 0)) w)
          else Ret SYSC_ERROR w
        else if level = IPPROTO_IP then Ret SYSC_ERROR w
        else if level = IPPROTO_TCP then
          if optname = TCP_MAXSEG then
            socket_at sockfd w (\<lambda>sock.
              if \<not> e_IsTcp E sock (xt w) then Halt NullPointer w
              else reply_attribute E ''SegmentSize'' sock optval optlen w)
          else if optname = TCP_CONGESTION then
            reply_opt E optval optlen (take 5 (word_bytes (e_reno E))) w
          else if optname = TCP_INFO then
            FAKE E (cur_pid w) (c_reg (- ENOPROTOOPT)) w (Ret SYSC_FAILURE)
          else Ret SYSC_ERROR w
        else FAKE E (cur_pid w) (c_reg (- ENOPROTOOPT)) w (Ret SYSC_FAILURE)))"

text \<open>An \<open>int\<close> that is 0 before \<open>optlen\<close> bytes are copied over it.\<close>

definition partial_int :: "memory \<Rightarrow> addr \<Rightarrow> nat \<Rightarrow> int" where
  "partial_int m optval optlen = le_int (copy_in m optval optlen @ replicate (4 - optlen) 0)"

definition HandleSetSockOpt :: "'x env \<Rightarrow> 'x grail \<Rightarrow> (sysc, 'x grail) outcome" where
  "HandleSetSockOpt E w =
     (let sockfd = c_int (argv 1 w); level = c_int (argv 2 w); optname = c_int (argv 3 w);
          optval = argv 4 w; optlen = c_uint (argv 5 w);
          ok = (\<lambda>w. FAKE E (cur_pid w) 0 w (Ret SYSC_SUCCESS))
      in
      if \<not> FdIsEmulatedSocket sockfd w then HandleSyscallAfter E w
      else if level = SOL_SOCKET then
        if optname = SO_BROADCAST then
          NS_ASSERT (optlen \<le> 4) w (\<lambda>w. socket_at sockfd w (\<lambda>sock.
            let myoptval = partial_int (memory_of w) optval optlen in
            ok (set_ext (e_SetAllowBroadcast E sock (myoptval \<noteq> 0) (xt w)) w)))
        else if optname = SO_REUSEADDR then ok w
        else if optname = SO_RCVBUF then NS_ASSERT (optlen \<le> 4) w ok
        else if optname = SO_BINDTODEVICE then ok w
        else if optname = SO_PRIORITY then
          if 4 < optlen then Halt OutOfBounds w else ok w
        else Ret SYSC_ERROR w
      else if level = IPPROTO_IP then
        if optname = IP_TOS then ok w else Ret SYSC_ERROR w
      else if level = IPPROTO_TCP then
        if optname = TCP_CONGESTION then NS_ASSERT (optlen \<le> 4) w (Ret SYSC_ERROR)
        else Ret SYSC_ERROR w
      else FAKE E (cur_pid w) (c_reg (- ENOPROTOOPT)) w (Ret SYSC_FAILURE))"

section \<open>Messages and poll\<close>

definition HandleRecvMsg :: "'x env \<Rightarrow> 'x grail \<Rightarrow> (sysc, 'x grail) outcome" where
  "HandleRecvMsg E w =
     (case m_netlinks w (c_int (argv 1 w)) of
        Some n \<Rightarrow> nl_HandleRecvMsg E n (argv 2 w) w
      | None \<Rightarrow> Halt AssertFailure w)"

definition HandleSendMsg ::
  "'x env \<Rightarrow> (nat \<Rightarrow> select_capture \<Rightarrow> 'x grail \<Rightarrow> (unit, 'x grail) outcome)
   \<Rightarrow> 'x grail \<Rightarrow> (sysc, 'x grail) outcome" where
  "HandleSendMsg E cb w =
     (case m_netlinks w (c_int (argv 1 w)) of
        None \<Rightarrow> Halt AssertFailure w
      | Some n \<Rightarrow> nl_HandleSendMsg E cb n (argv 2 w) w)"

text \<open>A \<open>pollfd\<close> has eight bytes, the first four of them the descriptor.\<close>

definition HandlePoll :: "'x env \<Rightarrow> 'x grail \<Rightarrow> (sysc, 'x grail) outcome" where
  "HandlePoll E w =
     (let fds = argv 1 w; nfds = unat (argv 2 w);
          fds' = copy_in (memory_of w) fds (unat (argv 2 w * 8))
      in if list_ex (\<lambda>i. m_sockets w (le_int (take 4 (drop (8 * i) fds'))) \<noteq> None) [0..<nfds]
         then Ret SYSC_ERROR w
         else HandleSyscallAfter E w)"

section \<open>The descriptor table is kept\<close>

lemma keeps_socket_at [keeps_intros]:
  "(\<And>s. m_sockets w fd = Some s \<Longrightarrow> keeps I (k s)) \<Longrightarrow> keeps I (socket_at fd w k)"
  by (simp add: socket_at_def split: option.split)

lemma fresh_connection: "fresh_fd fd w \<Longrightarrow> fd_inv (enter_connection fd s w)"
  using fresh_tcp by (simp add: enter_connection_def)

lemma fd_keeps_socket [keeps_intros]: "fd_inv w \<Longrightarrow> keeps fd_inv (HandleSocket E w)"
  unfolding HandleSocket_def Let_def split_def
  by (rule fd_GetNextFD | rule keeps_intros | simp add: fresh_netlink fresh_udp fresh_tcp)+

lemma fd_keeps_listen [keeps_intros]: "fd_inv w \<Longrightarrow> keeps fd_inv (HandleListen E w)"
  unfolding HandleListen_def Let_def split_def set_ext_def
  by (intro keeps_intros | simp add: fd_listen)+

lemma fd_keeps_connect [keeps_intros]: "fd_inv w \<Longrightarrow> keeps fd_inv (HandleConnect E w)"
  unfolding HandleConnect_def Let_def by (intro keeps_intros | simp)+

lemma fd_keeps_connect_callbacks [keeps_intros]:
  "fd_inv w \<Longrightarrow> keeps fd_inv (connect_success E fd p w)"
  "fd_inv w \<Longrightarrow> keeps fd_inv (connect_failure E p w)"
  unfolding connect_success_def connect_failure_def Let_def by (intro keeps_intros | simp)+

lemma fd_keeps_accept [keeps_intros]: "fd_inv w \<Longrightarrow> keeps fd_inv (HandleAccept E w)"
  unfolding HandleAccept_def Let_def split_def
  by (rule fd_GetNextFD | rule keeps_intros | simp add: fresh_connection)+

lemma fd_keeps_accept_callback [keeps_intros]:
  "fd_inv w \<Longrightarrow> keeps fd_inv (accept_callback E a l p s ad w)"
  "fd_inv w \<Longrightarrow> keeps fd_inv (fakeAccept fd s ad w)"
  unfolding accept_callback_def fakeAccept_def Let_def
  by (rule fd_GetNextFD | rule keeps_intros | simp add: fresh_connection)+

lemmas fd_nl_handlers = fdn.keeps_nl_bind fdn.keeps_nl_getsockname fdn.keeps_nl_recvmsg
  fdn.keeps_nl_sendmsg fdn.keeps_nl_sendto

lemma fd_keeps_bind [keeps_intros]: "fd_inv w \<Longrightarrow> keeps fd_inv (HandleBind E w)"
  unfolding HandleBind_def Let_def split_def by (intro keeps_intros fd_nl_handlers | simp)+

lemma fd_keeps_recvfrom_callback [keeps_intros]:
  "fd_inv w \<Longrightarrow> keeps fd_inv (recvfrom_callback E p b n fl a l s w)"
  unfolding recvfrom_callback_def Let_def split_def by (intro keeps_intros | simp)+

lemma fd_keeps_recvfrom [keeps_intros]: "fd_inv w \<Longrightarrow> keeps fd_inv (HandleRecvFrom E w)"
  unfolding HandleRecvFrom_def Let_def split_def by (intro keeps_intros | simp)+

lemma fd_keeps_names [keeps_intros]:
  "fd_inv w \<Longrightarrow> keeps fd_inv (HandleGetSockName E w)"
  "fd_inv w \<Longrightarrow> keeps fd_inv (HandleGetPeerName E w)"
  unfolding HandleGetSockName_def HandleGetPeerName_def Let_def split_def
  by (intro keeps_intros fd_nl_handlers | simp)+

lemma fd_keeps_options [keeps_intros]:
  "fd_inv w \<Longrightarrow> keeps fd_inv (HandleGetSockOpt E w)"
  "fd_inv w \<Longrightarrow> keeps fd_inv (HandleSetSockOpt E w)"
  unfolding HandleGetSockOpt_def HandleSetSockOpt_def reply_attribute_def reply_opt_def Let_def
  by (intro keeps_intros | simp)+

lemma fd_keeps_msgs [keeps_intros]:
  "fd_inv w \<Longrightarrow> keeps fd_inv (HandleRecvMsg E w)" "fd_inv w \<Longrightarrow> keeps fd_inv (HandlePoll E w)"
  unfolding HandleRecvMsg_def HandlePoll_def Let_def
  by (intro keeps_intros fd_nl_handlers | simp)+

lemma fd_keeps_send [keeps_intros]:
  assumes "\<forall>n f w. fd_inv w \<longrightarrow> keeps fd_inv (cb n f w)" and "fd_inv w"
  shows "keeps fd_inv (HandleSendMsg E cb w)" "keeps fd_inv (HandleSendTo E cb w)"
  unfolding HandleSendMsg_def HandleSendTo_def Let_def split_def
  by (intro keeps_intros fd_nl_handlers assms | simp add: assms(2))+

section \<open>Properties\<close>



end
