(* ===== verification/Grail_Select.thy ===== *)
theory Grail_Select
  imports Grail_Socket
begin

text \<open>
  \<open>HandleSelect\<close> of \<^verbatim>\<open>src/model/grail.cc\<close> and its five closures. One call allocates two cells
  that its closures share, under one identity: \<open>already_handled\<close>, which the first closure to
  run sets, and the event of the timeout. An \<open>fd_set\<close> is its 128 bytes.
\<close>

section \<open>Descriptor sets\<close>

definition FD_ISSET :: "fd \<Rightarrow> byte list \<Rightarrow> bool" where
  "FD_ISSET fd s \<longleftrightarrow> bit (s ! (nat fd div 8)) (nat fd mod 8)"

definition FD_SET :: "fd \<Rightarrow> byte list \<Rightarrow> byte list" where
  "FD_SET fd s = s[nat fd div 8 := s ! (nat fd div 8) OR push_bit (nat fd mod 8) 1]"

definition FD_ZERO :: "byte list" where
  "FD_ZERO = replicate 128 0"

lemma length_FD_SET [simp]: "length (FD_SET fd s) = length s"
  by (simp add: FD_SET_def)

lemma length_FD_ZERO [simp]: "length FD_ZERO = 128"
  by (simp add: FD_ZERO_def)

lemma FD_ISSET_ZERO [simp]: "0 \<le> fd \<Longrightarrow> fd < 1024 \<Longrightarrow> \<not> FD_ISSET fd FD_ZERO"
proof -
  assume "0 \<le> fd" "fd < 1024"
  then have "nat fd div 8 < 128" by (simp add: div_less_iff_less_mult nat_less_iff)
  then show ?thesis by (simp add: FD_ISSET_def FD_ZERO_def)
qed

lemma FD_ISSET_SET:
  assumes "0 \<le> d" and "0 \<le> fd" and "fd < 1024" and "length s = 128"
  shows "FD_ISSET d (FD_SET fd s) \<longleftrightarrow> d = fd \<or> FD_ISSET d s"
proof -
  have lt: "nat fd div 8 < length s"
    using assms by (simp add: div_less_iff_less_mult nat_less_iff)
  have m: "nat d mod 8 < 8" "nat fd mod 8 < 8" by simp_all
  have eq: "d = fd \<longleftrightarrow> nat d div 8 = nat fd div 8 \<and> nat d mod 8 = nat fd mod 8"
    using assms(1,2) by (metis div_mult_mod_eq eq_nat_nat_iff)
  show ?thesis
  proof (cases "nat d div 8 = nat fd div 8")
    case True
    then show ?thesis using lt m eq
      by (auto simp: FD_ISSET_def FD_SET_def bit_simps)
  next
    case False
    then show ?thesis using eq by (auto simp: FD_ISSET_def FD_SET_def)
  qed
qed

section \<open>The closures\<close>

text \<open>The first closure to run claims the call and cancels its timeout.\<close>

definition claim :: "nat \<Rightarrow> 'x grail \<Rightarrow> 'x grail" where
  "claim n w = Cancel (timeout_event w n) (w\<lparr>already_handled := (already_handled w)(n := True)\<rparr>)"

text \<open>The three sets go to the tracee, the call returns 1, and the thread goes on.\<close>

definition select_result ::
  "'x env \<Rightarrow> select_capture \<Rightarrow> byte list \<Rightarrow> byte list \<Rightarrow> pid \<Rightarrow> 'x grail \<Rightarrow> (unit, 'x grail) outcome" where
  "select_result E c newreadfds newwritefds p w =
     store_to (sc_readfds c) newreadfds w (\<lambda>w.
       store_to (sc_writefds c) newwritefds w (\<lambda>w.
         store_to (sc_exceptfds c) FD_ZERO w (\<lambda>w.
           FAKE4 E p 1 SYSC_SUCCESS w (\<lambda>res w. ProcessStatusCode E res (sc_pid c) w))))"

definition select_send_callback ::
  "'x env \<Rightarrow> select_capture \<Rightarrow> sockid \<Rightarrow> 'x grail \<Rightarrow> (unit, 'x grail) outcome" where
  "select_send_callback E c sock w =
     (if already_handled w (sc_id c) then Ret () w
      else and_then (select_result E c FD_ZERO (FD_SET (sc_fd c) FD_ZERO) (sc_pid c) (claim (sc_id c) w))
        (\<lambda>_ w. Ret () (w\<lparr>cb_send := (cb_send w)(sock := None)\<rparr>)))"

text \<open>The default callback is set and at once replaced by none.\<close>

definition select_accept_callback ::
  "'x env \<Rightarrow> select_capture \<Rightarrow> sockid \<Rightarrow> address \<Rightarrow> 'x grail \<Rightarrow> (unit, 'x grail) outcome" where
  "select_accept_callback E c newSock newAddr w =
     (if already_handled w (sc_id c) then Ret () w
      else
        let w1 = claim (sc_id c) w;
            w2 = w1\<lparr>m_fakeAcceptedSockets := (m_fakeAcceptedSockets w1)(sc_fd c \<mapsto> (newSock, newAddr))\<rparr>
        in socket_at (sc_fd c) w2 (\<lambda>sock.
             let w3 = w2\<lparr>cb_accept := (cb_accept w2)(sock \<mapsto> AcceptFake (sc_fd c))\<rparr>;
                 w4 = w3\<lparr>cb_accept := (cb_accept w3)(sock := None)\<rparr>
             in select_result E c (FD_SET (sc_fd c) FD_ZERO) FD_ZERO (sc_pid c) w4))"

text \<open>\<open>FAKE2\<close>: the faked call is the current thread's, not the one that called \<open>select\<close>.\<close>

definition select_recv_callback ::
  "'x env \<Rightarrow> select_capture \<Rightarrow> sockid \<Rightarrow> 'x grail \<Rightarrow> (unit, 'x grail) outcome" where
  "select_recv_callback E c sock w =
     (if already_handled w (sc_id c) then Ret () w
      else and_then (select_result E c (FD_SET (sc_fd c) FD_ZERO) FD_ZERO (cur_pid w) (claim (sc_id c) w))
        (\<lambda>_ w. Ret () (w\<lparr>cb_recv := (cb_recv w)(sock := None)\<rparr>)))"

definition select_netlink_callback ::
  "'x env \<Rightarrow> nat \<Rightarrow> select_capture \<Rightarrow> 'x grail \<Rightarrow> (unit, 'x grail) outcome" where
  "select_netlink_callback E n c w =
     (if already_handled w (sc_id c) then Ret () w
      else and_then (select_result E c (FD_SET (sc_fd c) FD_ZERO) FD_ZERO (sc_pid c) (claim (sc_id c) w))
        (\<lambda>_ w. with_nl n w (\<lambda>s. Ret () (put_nl n (UnsetRecvCallback s) w))))"

definition select_timeout_event ::
  "'x env \<Rightarrow> nat \<Rightarrow> pid \<Rightarrow> 'x grail \<Rightarrow> (unit, 'x grail) outcome" where
  "select_timeout_event E n saved_pid w =
     (if already_handled w n then Ret () w
      else FAKE4 E saved_pid 0 SYSC_SUCCESS (w\<lparr>already_handled := (already_handled w)(n := True)\<rparr>)
        (\<lambda>res w. ProcessStatusCode E res saved_pid w))"

section \<open>HandleSelect\<close>

text \<open>What a call works with: the tracee's pointers and the copies of its sets.\<close>

record select_call =
  readfds :: addr
  writefds :: addr
  exceptfds :: addr
  myreadfds :: "byte list"
  mywritefds :: "byte list"
  myexceptfds :: "byte list"

definition wants_read :: "select_call \<Rightarrow> fd \<Rightarrow> bool" where
  "wants_read s fd \<longleftrightarrow> readfds s \<noteq> 0 \<and> FD_ISSET fd (myreadfds s)"

definition wants_write :: "select_call \<Rightarrow> fd \<Rightarrow> bool" where
  "wants_write s fd \<longleftrightarrow> writefds s \<noteq> 0 \<and> FD_ISSET fd (mywritefds s)"

definition wants_except :: "select_call \<Rightarrow> fd \<Rightarrow> bool" where
  "wants_except s fd \<longleftrightarrow> exceptfds s \<noteq> 0 \<and> FD_ISSET fd (myexceptfds s)"

text \<open>Pass 1: is there data, or an unsupported set? A map is traversed in the order of its keys.\<close>

datatype scan = HasDataNow | NoData | Unsupported

fun pass1_sockets :: "'x env \<Rightarrow> select_call \<Rightarrow> 'x grail \<Rightarrow> (fd \<times> sockid) list \<Rightarrow> scan" where
  "pass1_sockets E s w [] = NoData"
| "pass1_sockets E s w ((fd, sock) # kvs) =
     (if wants_write s fd \<and> e_GetTxAvailable E sock (xt w) \<noteq> 0 then HasDataNow
      else if wants_read s fd \<and> e_GetRxAvailable E sock (xt w) \<noteq> 0 then HasDataNow
      else if wants_read s fd \<and> m_fakeAcceptedSockets w fd \<noteq> None then HasDataNow
      else if wants_except s fd then Unsupported
      else pass1_sockets E s w kvs)"

fun pass1_netlinks :: "select_call \<Rightarrow> 'x grail \<Rightarrow> (fd \<times> nat) list \<Rightarrow> scan" where
  "pass1_netlinks s w [] = NoData"
| "pass1_netlinks s w ((fd, n) # kvs) =
     (if wants_read s fd \<and> (case nl_objs w n of Some nl \<Rightarrow> HasData nl | None \<Rightarrow> False) then HasDataNow
      else if wants_except s fd then Unsupported
      else pass1_netlinks s w kvs)"

definition map_items :: "(fd \<rightharpoonup> 'b) \<Rightarrow> (fd \<times> 'b) list" where
  "map_items m = map (\<lambda>k. (k, the (m k))) (sorted_list_of_set (dom m))"

definition pass1 :: "'x env \<Rightarrow> select_call \<Rightarrow> 'x grail \<Rightarrow> scan" where
  "pass1 E s w =
     (case pass1_sockets E s w (map_items (m_sockets w)) of
        NoData \<Rightarrow> pass1_netlinks s w (map_items (m_netlinks w))
      | r \<Rightarrow> r)"

text \<open>The local variables that the loops update.\<close>

record select_vars =
  newreadfds :: "byte list"
  newwritefds :: "byte list"
  may_block :: bool
  does_block :: bool
  ctx :: nat

definition ready_read :: "fd \<Rightarrow> select_vars \<Rightarrow> select_vars" where
  "ready_read fd v = v\<lparr>newreadfds := FD_SET fd (newreadfds v), may_block := False, ctx := Suc (ctx v)\<rparr>"

definition ready_write :: "fd \<Rightarrow> select_vars \<Rightarrow> select_vars" where
  "ready_write fd v = v\<lparr>newwritefds := FD_SET fd (newwritefds v), may_block := False, ctx := Suc (ctx v)\<rparr>"

definition blocked :: "select_vars \<Rightarrow> select_vars" where
  "blocked v = v\<lparr>does_block := True\<rparr>"

definition capture :: "select_call \<Rightarrow> nat \<Rightarrow> fd \<Rightarrow> pid \<Rightarrow> select_capture" where
  "capture s n fd p = \<lparr>sc_id = n, sc_fd = fd, sc_readfds = readfds s, sc_writefds = writefds s,
     sc_exceptfds = exceptfds s, sc_pid = p\<rparr>"

text \<open>One socket: first the set of writers, then the unsupported one, then the set of readers.\<close>

definition socket_write ::
  "'x env \<Rightarrow> select_call \<Rightarrow> nat \<Rightarrow> fd \<Rightarrow> sockid \<Rightarrow> select_vars \<times> 'x grail \<Rightarrow> select_vars \<times> 'x grail" where
  "socket_write E s n fd sock vw =
     (let (v, w) = vw in
      if wants_write s fd then
        if e_GetTxAvailable E sock (xt w) \<noteq> 0 then (ready_write fd v, w)
        else if may_block v then
          (blocked v, w\<lparr>cb_send := (cb_send w)(sock \<mapsto> SendSelect (capture s n fd (cur_pid w)))\<rparr>)
        else (v, w)
      else (v, w))"

definition socket_read ::
  "'x env \<Rightarrow> select_call \<Rightarrow> nat \<Rightarrow> fd \<Rightarrow> sockid \<Rightarrow> select_vars \<times> 'x grail \<Rightarrow> select_vars \<times> 'x grail" where
  "socket_read E s n fd sock vw =
     (let (v, w) = vw in
      if wants_read s fd then
        if e_GetRxAvailable E sock (xt w) \<noteq> 0 then (ready_read fd v, w)
        else if m_fakeAcceptedSockets w fd \<noteq> None then (ready_read fd v, w)
        else if may_block v \<and> fd \<in> m_isListenTcpSocket w then
          (blocked v, w\<lparr>cb_accept := (cb_accept w)(sock \<mapsto> AcceptSelect (capture s n fd (cur_pid w)))\<rparr>)
        else if may_block v then
          (blocked v, w\<lparr>cb_recv := (cb_recv w)(sock \<mapsto> RecvSelect (capture s n fd (cur_pid w)))\<rparr>)
        else (v, w)
      else (v, w))"

text \<open>\<open>None\<close> is the return of \<open>SYSC_ERROR\<close> from inside the loop.\<close>

fun sockets_loop ::
  "'x env \<Rightarrow> select_call \<Rightarrow> nat \<Rightarrow> (fd \<times> sockid) list \<Rightarrow> select_vars \<times> 'x grail
   \<Rightarrow> select_vars option \<times> 'x grail" where
  "sockets_loop E s n [] vw = (Some (fst vw), snd vw)"
| "sockets_loop E s n ((fd, sock) # kvs) vw =
     (let vw1 = socket_write E s n fd sock vw in
      if wants_except s fd then (None, snd vw1)
      else sockets_loop E s n kvs (socket_read E s n fd sock vw1))"

fun netlinks_loop ::
  "select_call \<Rightarrow> nat \<Rightarrow> (fd \<times> nat) list \<Rightarrow> select_vars \<times> 'x grail \<Rightarrow> select_vars \<times> 'x grail" where
  "netlinks_loop s n [] vw = vw"
| "netlinks_loop s n ((fd, i) # kvs) vw =
     (let (v, w) = vw in
      netlinks_loop s n kvs
        (if wants_read s fd then
           (case nl_objs w i of
              None \<Rightarrow> (v, w)
            | Some nl \<Rightarrow>
                if HasData nl then (ready_read fd v, w)
                else if may_block v then
                  (blocked v, put_nl i (SetRecvCallback (capture s n fd (cur_pid w)) nl) w)
                else (v, w))
         else (v, w)))"

text \<open>After the loops: wait with or without a timeout, or return what is ready.\<close>

definition select_finish ::
  "'x env \<Rightarrow> select_call \<Rightarrow> nat \<Rightarrow> addr \<Rightarrow> int \<Rightarrow> select_vars \<Rightarrow> 'x grail \<Rightarrow> (sysc, 'x grail) outcome" where
  "select_finish E s n timeout delay v w =
     (if may_block v \<and> does_block v then
        if timeout \<noteq> 0 then
          let w1 = Schedule E delay (EvSelectTimeout n (cur_pid w)) w in
          Ret SYSC_DELAYED (w1\<lparr>timeout_event := (timeout_event w1)(n \<mapsto> ev_next w)\<rparr>)
        else Ret SYSC_DELAYED w
      else
        let w1 = (if \<not> may_block v \<and> does_block v
                  then w\<lparr>already_handled := (already_handled w)(n := True)\<rparr> else w)
        in store_to (readfds s) (newreadfds v) w1 (\<lambda>w.
             store_to (writefds s) (newwritefds v) w (\<lambda>w.
               store_to (exceptfds s) FD_ZERO w (\<lambda>w.
                 (if timeout \<noteq> 0 then store_to timeout (long_bytes 0 @ long_bytes 0) w else (\<lambda>k. k w))
                   (\<lambda>w. FAKE E (cur_pid w) (of_nat (ctx v)) w (Ret SYSC_SUCCESS))))))"

definition HandleSelect :: "'x env \<Rightarrow> 'x grail \<Rightarrow> (sysc, 'x grail) outcome" where
  "HandleSelect E w =
     (let timeout = argv 5 w;
          mytimeout = LoadFromTracee (memory_of w) (replicate 16 0) timeout;
          tv_sec = le_long (take 8 mytimeout);
          tv_usec = le_long (drop 8 mytimeout);
          load = LoadFromTracee (memory_of w) (uninit E 128);
          s = \<lparr>readfds = argv 2 w, writefds = argv 3 w, exceptfds = argv 4 w,
               myreadfds = load (argv 2 w), mywritefds = load (argv 3 w), myexceptfds = load (argv 4 w)\<rparr>;
          block = (timeout = 0 \<or> tv_sec \<noteq> 0 \<or> tv_usec \<noteq> 0);
          n = sel_next w;
          w1 = w\<lparr>already_handled := (already_handled w)(n := False),
                 timeout_event := (timeout_event w)(n := None), sel_next := Suc n\<rparr>;
          scanned = (if block then pass1 E s w1 else NoData)
      in if scanned = Unsupported then Ret SYSC_ERROR w1
         else
           let v = \<lparr>newreadfds = FD_ZERO, newwritefds = FD_ZERO, may_block = (block \<and> scanned \<noteq> HasDataNow),
                    does_block = False, ctx = 0\<rparr>;
               (v1, w2) = sockets_loop E s n (map_items (m_sockets w1)) (v, w1)
           in case v1 of
                None \<Rightarrow> Ret SYSC_ERROR w2
              | Some v1 \<Rightarrow>
                  let (v2, w3) = netlinks_loop s n (map_items (m_netlinks w2)) (v1, w2) in
                  select_finish E s n timeout (tv_sec * 1000000000 + tv_usec * 1000) v2 w3)"

section \<open>The invariants are kept\<close>

text \<open>
  What \<open>select\<close> changes of the program's own state: its two cells, the callback maps, the
  accepted connections and the receive callbacks of netlink objects.
\<close>

locale select_invariant = netlink_invariant +
  assumes I_cells: "I w \<Longrightarrow> I (w\<lparr>already_handled := x1\<rparr>)" "I w \<Longrightarrow> I (w\<lparr>sel_next := x3\<rparr>)"
    and I_no_timeout: "I w \<Longrightarrow> I (w\<lparr>timeout_event := (timeout_event w)(n := None)\<rparr>)"
    and I_timeout: "I w \<Longrightarrow> I ((Schedule E d (EvSelectTimeout n p) w)\<lparr>timeout_event :=
        (timeout_event (Schedule E d (EvSelectTimeout n p) w))(n \<mapsto> ev_next w)\<rparr>)"
    and I_callbacks: "I w \<Longrightarrow> I (w\<lparr>cb_recv := y1\<rparr>)" "I w \<Longrightarrow> I (w\<lparr>cb_send := y2\<rparr>)"
      "I w \<Longrightarrow> I (w\<lparr>cb_accept := y3\<rparr>)"
    and I_accepted: "I w \<Longrightarrow> I (w\<lparr>m_fakeAcceptedSockets := z\<rparr>)"
begin

lemma keep_claim: "I w \<Longrightarrow> I (claim n w)"
  unfolding claim_def by (intro keep_Cancel I_cells)

lemma keeps_select_result: "I w \<Longrightarrow> keeps I (select_result E c r t p w)"
  unfolding select_result_def by (intro keeps_store_to keeps_FAKE4 keeps_ProcessStatusCode)

lemma keeps_select_callbacks:
  assumes "I w"
  shows "keeps I (select_send_callback E c sock w)" "keeps I (select_recv_callback E c sock w)"
    "keeps I (select_netlink_callback E n c w)" "keeps I (select_timeout_event E n p w)"
    "keeps I (select_accept_callback E c sock ad w)"
  unfolding select_send_callback_def select_recv_callback_def select_netlink_callback_def
    select_timeout_event_def select_accept_callback_def Let_def
  using assms
  by (intro keeps_if keeps_and_then keeps_select_result keep_claim keeps_with_nl keeps_socket_at
      keeps_FAKE4 keeps_ProcessStatusCode;
      simp add: I_callbacks I_put I_cells I_accepted keep_claim)+

lemma keep_socket_step:
  "I (snd vw) \<Longrightarrow> I (snd (socket_write E s n fd sock vw))"
  "I (snd vw) \<Longrightarrow> I (snd (socket_read E s n fd sock vw))"
  by (cases vw; simp add: socket_write_def socket_read_def I_callbacks)+

lemma keep_sockets_loop: "I (snd vw) \<Longrightarrow> I (snd (sockets_loop E s n kvs vw))"
proof (induction kvs arbitrary: vw)
  case Nil
  then show ?case by simp
next
  case (Cons kv kvs)
  obtain fd sock where "kv = (fd, sock)" by (cases kv)
  with Cons show ?case by (simp add: Let_def keep_socket_step)
qed

lemma keep_netlinks_loop: "I (snd vw) \<Longrightarrow> I (snd (netlinks_loop s n kvs vw))"
proof (induction kvs arbitrary: vw)
  case Nil
  then show ?case by simp
next
  case (Cons kv kvs)
  obtain fd i v w where "kv = (fd, i)" "vw = (v, w)" by (cases kv, cases vw)
  with Cons show ?case by (simp add: I_put split: option.split)
qed

lemma keeps_select_finish: "I w \<Longrightarrow> keeps I (select_finish E s n t d v w)"
  unfolding select_finish_def Let_def
  by (cases "t = 0") (simp_all add: I_timeout I_cells keeps_store_to keeps_FAKE)

lemma keeps_select: "I w \<Longrightarrow> keeps I (HandleSelect E w)"
proof -
  assume "I w"
  then have w1: "I (w\<lparr>already_handled := a, timeout_event := (timeout_event w)(b := None), sel_next := c\<rparr>)"
    for a b c using I_no_timeout [where w = "w\<lparr>already_handled := a\<rparr>" and n = b] by (intro I_cells(2)) (simp add: I_cells)
  have two: "I (snd (netlinks_loop s n k2 (v1, snd (sockets_loop E s n k1 (v,
      w\<lparr>already_handled := a, timeout_event := (timeout_event w)(b := None), sel_next := c\<rparr>)))))" for s n k1 k2 v v1 a b c
    by (rule keep_netlinks_loop, simp only: snd_conv, rule keep_sockets_loop) (simp add: w1)
  have one: "I (snd (sockets_loop E s n k1 (v,
      w\<lparr>already_handled := a, timeout_event := (timeout_event w)(b := None), sel_next := c\<rparr>)))" for s n k1 v a b c
    by (rule keep_sockets_loop) (simp add: w1)
  show ?thesis
    unfolding HandleSelect_def Let_def split_def
    by (intro keeps_if keeps_option keeps_select_finish two) (simp_all add: w1 one)
qed

end

interpretation fds: select_invariant fd_inv
  by unfold_locales (simp_all add: Schedule_def)

interpretation nls: select_invariant nl_inv
  by unfold_locales (simp_all add: Schedule_def)

interpretation rtsel: select_invariant rts_inv
  by unfold_locales (simp_all add: rts_inv_def Schedule_def)

section \<open>At most one closure of a call\<close>

text \<open>The closures that share the cells of call \<open>n\<close>.\<close>

inductive_set select_closures ::
  "'x env \<Rightarrow> nat \<Rightarrow> ('x grail \<Rightarrow> (unit, 'x grail) outcome) set" for E :: "'x env" and n :: nat where
  on_send: "sc_id c = n \<Longrightarrow> select_send_callback E c sock \<in> select_closures E n"
| on_recv: "sc_id c = n \<Longrightarrow> select_recv_callback E c sock \<in> select_closures E n"
| on_accept: "sc_id c = n \<Longrightarrow> select_accept_callback E c sock ad \<in> select_closures E n"
| on_netlink: "sc_id c = n \<Longrightarrow> select_netlink_callback E i c \<in> select_closures E n"
| on_timeout: "select_timeout_event E n p \<in> select_closures E n"

lemma closure_skips: "f \<in> select_closures E n \<Longrightarrow> already_handled w n \<Longrightarrow> f w = Ret () w"
  by (erule select_closures.cases)
    (simp_all add: select_send_callback_def select_recv_callback_def select_accept_callback_def
      select_netlink_callback_def select_timeout_event_def)

definition handled :: "nat \<Rightarrow> 'x grail \<Rightarrow> bool" where
  "handled n w = already_handled w n"

interpretation hd_inv: priv_invariant "handled n"
  by unfold_locales (simp_all add: handled_def Schedule_def Cancel_def split: option.split)

lemma handled_claim: "handled n (claim n w)"
  by (simp add: claim_def Cancel_def handled_def split: option.split)

lemma handled_frame [simp]:
  "handled n (w\<lparr>m_fakeAcceptedSockets := a\<rparr>) = handled n w" "handled n (w\<lparr>cb_accept := b\<rparr>) = handled n w"
  "handled n (w\<lparr>cb_recv := c\<rparr>) = handled n w" "handled n (w\<lparr>cb_send := d\<rparr>) = handled n w"
  "handled n (put_nl i s w) = handled n w"
  by (simp_all add: handled_def put_nl_def)

lemma handled_result: "handled n w \<Longrightarrow> keeps (handled n) (select_result E c r t p w)"
  unfolding select_result_def
  by (intro hd_inv.keeps_store_to hd_inv.keeps_FAKE4 hd_inv.keeps_ProcessStatusCode)

lemma closure_claims: "f \<in> select_closures E n \<Longrightarrow> keeps (handled n) (f w)"
proof (induction rule: select_closures.induct)
  case (on_send c sock)
  then show ?case unfolding select_send_callback_def
    by (intro keeps_if keeps_and_then handled_result) (simp_all add: handled_claim, simp add: handled_def)
next
  case (on_recv c sock)
  then show ?case unfolding select_recv_callback_def
    by (intro keeps_if keeps_and_then handled_result) (simp_all add: handled_claim, simp add: handled_def)
next
  case (on_accept c sock ad)
  then show ?case unfolding select_accept_callback_def Let_def
    by (intro keeps_if keeps_socket_at handled_result) (simp_all add: handled_claim, simp add: handled_def)
next
  case (on_netlink c i)
  then show ?case unfolding select_netlink_callback_def
    by (intro keeps_if keeps_and_then handled_result)
      (simp_all add: handled_claim with_nl_def split: option.split, simp add: handled_def)
next
  case (on_timeout p)
  have "handled n (w\<lparr>already_handled := (already_handled w)(n := True)\<rparr>)" by (simp add: handled_def)
  then show ?case unfolding select_timeout_event_def
    by (intro keeps_if hd_inv.keeps_FAKE4 hd_inv.keeps_ProcessStatusCode) (simp_all add: handled_def)
qed

text \<open>What accepts connections: the pending ones and the callbacks of listening sockets.\<close>

definition accepting :: "(fd \<rightharpoonup> sockid \<times> address) \<Rightarrow> (sockid \<Rightarrow> accept_cb option) \<Rightarrow> 'x grail \<Rightarrow> bool" where
  "accepting a b w \<longleftrightarrow> m_fakeAcceptedSockets w = a \<and> cb_accept w = b"

interpretation acc: priv_invariant "accepting a b"
  by unfold_locales (simp_all add: accepting_def Schedule_def Cancel_def split: option.split)

lemma accepting_recv:
  assumes "accepting a b w"
  shows "keeps (accepting a b) (select_recv_callback E c sock w)"
proof -
  have "accepting a b (claim (sc_id c) w)"
    unfolding claim_def using assms by (intro acc.keep_Cancel) (simp add: accepting_def)
  then have "keeps (accepting a b) (select_result E c r t p (claim (sc_id c) w))" for r t p
    unfolding select_result_def
    by (intro acc.keeps_store_to acc.keeps_FAKE4 acc.keeps_ProcessStatusCode)
  then show ?thesis unfolding select_recv_callback_def
    using assms by (intro keeps_if keeps_and_then) (auto simp: accepting_def)
qed

section \<open>Properties\<close>

text \<open>
  (C7) Of the closures one \<open>select\<close> call registered, on sockets, on netlink sockets and for its
  timeout, at most one has an effect: after any of them has run, every other, and the same one
  again, returns without touching the state.
\<close>

theorem select_closures_once:
  assumes "f \<in> select_closures E n" and "g \<in> select_closures E n"
  shows "case f w of Ret _ w' \<Rightarrow> g w' = Ret () w' | Halt _ _ \<Rightarrow> True"
proof (cases "f w")
  case (Ret u w')
  then have "already_handled w' n" using closure_claims [OF assms(1), of w] by (simp add: handled_def)
  then show ?thesis using Ret closure_skips [OF assms(2)] by simp
qed simp

theorem select_closures_once_witness:
  "case select_timeout_event demo_env 0 1 (demo_state []) of
     Ret _ w' \<Rightarrow> select_timeout_event demo_env 0 2 w' = Ret () w' | Halt _ _ \<Rightarrow> True"
  by (rule select_closures_once [OF on_timeout on_timeout])

text \<open>
  (C35) A connection is lost: when another closure of the same call has run, the closure left
  on a listening socket neither records the connection nor gives the socket its usual
  callback back.
\<close>

theorem select_drops_connection:
  assumes "select_recv_callback E c sock w = Ret () w1" and "sc_id c' = sc_id c"
    and "cb_accept w lsock = Some (AcceptSelect c')"
  shows "select_accept_callback E c' newSock newAddr w1 = Ret () w1 \<and>
    m_fakeAcceptedSockets w1 = m_fakeAcceptedSockets w \<and>
    cb_accept w1 lsock = Some (AcceptSelect c')"
proof -
  have r: "select_recv_callback E c sock \<in> select_closures E (sc_id c)"
    and a: "select_accept_callback E c' newSock newAddr \<in> select_closures E (sc_id c)"
    using assms(2) by (auto intro: select_closures.intros)
  have "accepting (m_fakeAcceptedSockets w) (cb_accept w) w" by (simp add: accepting_def)
  then have "accepting (m_fakeAcceptedSockets w) (cb_accept w) w1"
    using accepting_recv [of "m_fakeAcceptedSockets w" "cb_accept w" w E c sock] assms(1) by simp
  moreover have "already_handled w1 (sc_id c)"
    using closure_claims [OF r, of w] assms(1) by (simp add: handled_def)
  ultimately show ?thesis
    using closure_skips [OF a] assms(3) by (simp add: accepting_def)
qed

definition demo_capture :: "fd \<Rightarrow> select_capture" where
  "demo_capture fd = \<lparr>sc_id = 0, sc_fd = fd, sc_readfds = 0, sc_writefds = 0, sc_exceptfds = 0, sc_pid = 1\<rparr>"

lemma demo_recv_runs: "\<exists>w1. select_recv_callback demo_env (demo_capture fd) 5 (demo_state []) = Ret () w1"
proof -
  have "\<not> already_handled (demo_state []) 0" by (simp add: demo_state_def GrailApplication_def)
  then show ?thesis
    by (simp add: select_recv_callback_def demo_capture_def select_result_def store_to_def
        StoreToTracee_def fakes [OF demo_getpid] ProcessStatusCode_def Let_def set_mem_def)
qed

theorem select_drops_connection_witness:
  "\<exists>w1. select_recv_callback demo_env (demo_capture 101) 5
       ((demo_state [])\<lparr>cb_accept := [4 \<mapsto> AcceptSelect (demo_capture 100)]\<rparr>) = Ret () w1 \<and>
     select_accept_callback demo_env (demo_capture 100) 9 OtherAddress w1 = Ret () w1 \<and>
     m_fakeAcceptedSockets w1 100 = None"
proof -
  let ?w = "(demo_state [])\<lparr>cb_accept := [4 \<mapsto> AcceptSelect (demo_capture 100)]\<rparr>"
  have "\<not> already_handled ?w 0" by (simp add: demo_state_def GrailApplication_def)
  then obtain w1 where w1: "select_recv_callback demo_env (demo_capture 101) 5 ?w = Ret () w1"
    by (simp add: select_recv_callback_def demo_capture_def select_result_def store_to_def
        StoreToTracee_def fakes [OF demo_getpid] ProcessStatusCode_def Let_def set_mem_def)
  have "m_fakeAcceptedSockets ?w 100 = None" by (simp add: demo_state_def GrailApplication_def)
  then show ?thesis
    using w1 select_drops_connection [OF w1, of "demo_capture 100" 4 9 OtherAddress]
    by (simp add: demo_capture_def)
qed

section \<open>Polling\<close>

text \<open>What the loops do when the call may not block: they collect the ready descriptors.\<close>

definition sock_readable :: "'x env \<Rightarrow> 'x grail \<Rightarrow> fd \<Rightarrow> sockid \<Rightarrow> bool" where
  "sock_readable E w fd sock \<longleftrightarrow>
     e_GetRxAvailable E sock (xt w) \<noteq> 0 \<or> m_fakeAcceptedSockets w fd \<noteq> None"

definition nl_readable :: "'x grail \<Rightarrow> nat \<Rightarrow> bool" where
  "nl_readable w i \<longleftrightarrow> (case nl_objs w i of Some nl \<Rightarrow> HasData nl | None \<Rightarrow> False)"

definition readable :: "'x env \<Rightarrow> 'x grail \<Rightarrow> fd \<Rightarrow> bool" where
  "readable E w fd \<longleftrightarrow> (\<exists>sock. m_sockets w fd = Some sock \<and> sock_readable E w fd sock) \<or>
     (\<exists>i. m_netlinks w fd = Some i \<and> nl_readable w i)"

lemma may_block_ready: "\<not> may_block v \<Longrightarrow> ready_read fd v = v\<lparr>newreadfds := FD_SET fd (newreadfds v), ctx := Suc (ctx v)\<rparr>"
  by (cases v) (simp add: ready_read_def)

lemma sockets_loop_poll:
  assumes "writefds s = 0" and "exceptfds s = 0" and "\<not> may_block v"
  shows "sockets_loop E s n kvs (v, w) = (Some (fold ready_read
    (map fst (filter (\<lambda>(fd, sock). wants_read s fd \<and> sock_readable E w fd sock) kvs)) v), w)"
  using assms
proof (induction kvs arbitrary: v)
  case Nil
  then show ?case by simp
next
  case (Cons kv kvs)
  obtain fd sock where kv: "kv = (fd, sock)" by (cases kv)
  have step: "socket_read E s n fd sock (socket_write E s n fd sock (v, w))
      = (if wants_read s fd \<and> sock_readable E w fd sock then ready_read fd v else v, w)"
    using Cons.prems by (simp add: socket_write_def socket_read_def wants_write_def sock_readable_def)
  have "\<not> may_block (ready_read fd v)" by (simp add: ready_read_def)
  then show ?case
    using Cons step by (simp add: kv Let_def wants_except_def)
qed

lemma netlinks_loop_poll:
  assumes "\<not> may_block v"
  shows "netlinks_loop s n kvs (v, w) = (fold ready_read
    (map fst (filter (\<lambda>(fd, i). wants_read s fd \<and> nl_readable w i) kvs)) v, w)"
  using assms
proof (induction kvs arbitrary: v)
  case Nil
  then show ?case by simp
next
  case (Cons kv kvs)
  obtain fd i where kv: "kv = (fd, i)" by (cases kv)
  have "\<not> may_block (ready_read fd v)" by (simp add: ready_read_def)
  then show ?case
    using Cons by (simp add: kv nl_readable_def split: option.split)
qed

lemma fold_ready_read:
  "length (newreadfds v) = 128 \<Longrightarrow> list_all (\<lambda>fd. 0 \<le> fd \<and> fd < 1024) ds \<Longrightarrow>
   length (newreadfds (fold ready_read ds v)) = 128 \<and>
   (\<forall>d. 0 \<le> d \<longrightarrow> FD_ISSET d (newreadfds (fold ready_read ds v)) = (d \<in> set ds \<or> FD_ISSET d (newreadfds v))) \<and>
   ctx (fold ready_read ds v) = length ds + ctx v \<and>
   newwritefds (fold ready_read ds v) = newwritefds v \<and>
   does_block (fold ready_read ds v) = does_block v \<and>
   (\<not> may_block v \<longrightarrow> \<not> may_block (fold ready_read ds v))"
proof (induction ds arbitrary: v)
  case Nil
  then show ?case by simp
next
  case (Cons fd ds)
  have l: "length (newreadfds (ready_read fd v)) = 128" using Cons.prems by (simp add: ready_read_def)
  have "FD_ISSET d (newreadfds (ready_read fd v)) = (d = fd \<or> FD_ISSET d (newreadfds v))" if "0 \<le> d" for d
    using Cons.prems that by (simp add: ready_read_def FD_ISSET_SET)
  moreover have "ctx (ready_read fd v) = Suc (ctx v)" "newwritefds (ready_read fd v) = newwritefds v"
    "does_block (ready_read fd v) = does_block v" "\<not> may_block (ready_read fd v)"
    by (simp_all add: ready_read_def)
  ultimately show ?case using Cons.IH [OF l] Cons.prems by auto
qed

lemma map_items_set: "finite (dom m) \<Longrightarrow> set (map_items m) = {(k, v). m k = Some v}"
  by (force simp: map_items_def)

lemma map_items_distinct: "distinct (map fst (map_items m))"
  by (simp add: map_items_def comp_def)

lemma fd_inv_finite_tables: "fd_inv w \<Longrightarrow> finite (dom (m_sockets w)) \<and> finite (dom (m_netlinks w))"
proof -
  assume "fd_inv w"
  then have "dom (m_sockets w) \<union> dom (m_netlinks w) \<subseteq> {100..<100 + MAX_NUM_FDS}"
    unfolding fd_inv_def by blast
  then have "finite (dom (m_sockets w) \<union> dom (m_netlinks w))" by (rule finite_subset) simp
  then show ?thesis by simp
qed

text \<open>The ready descriptors, in the order the two loops find them.\<close>

definition ready_list :: "'x env \<Rightarrow> select_call \<Rightarrow> 'x grail \<Rightarrow> fd list" where
  "ready_list E s w =
     map fst (filter (\<lambda>(fd, sock). wants_read s fd \<and> sock_readable E w fd sock) (map_items (m_sockets w)))
     @ map fst (filter (\<lambda>(fd, i). wants_read s fd \<and> nl_readable w i) (map_items (m_netlinks w)))"

lemma ready_list_set:
  assumes "fd_inv w"
  shows "set (ready_list E s w) = {d. wants_read s d \<and> readable E w d}"
  using fd_inv_finite_tables [OF assms]
  by (force simp: ready_list_def map_items_set readable_def image_iff)

lemma ready_list_distinct:
  assumes "fd_inv w"
  shows "distinct (ready_list E s w)"
proof -
  have "dom (m_sockets w) \<inter> dom (m_netlinks w) = {}" using assms unfolding fd_inv_def by blast
  moreover have "set (map fst (filter P (map_items m))) \<subseteq> dom m" if "finite (dom m)" for P and m :: "fd \<rightharpoonup> 'b"
    using that by (auto simp: map_items_set)
  ultimately show ?thesis
    using fd_inv_finite_tables [OF assms]
    unfolding ready_list_def distinct_append
    by (auto simp: distinct_map_filter map_items_distinct map_items_set)
qed

lemma readable_range: "fd_inv w \<Longrightarrow> readable E w d \<Longrightarrow> 100 \<le> d \<and> d < 200"
  by (rule fd_inv_emulated_range) (auto simp: readable_def FdIsEmulatedSocket_def)

lemma ready_list_range:
  assumes "fd_inv w"
  shows "list_all (\<lambda>fd. 0 \<le> fd \<and> fd < 1024) (ready_list E s w)"
  using readable_range [OF assms] unfolding list_all_iff ready_list_set [OF assms] by force

lemma store_to_null: "store_to 0 bs w k = k w"
  by (simp add: store_to_def StoreToTracee_def set_mem_def)

lemma le_long_zero: "le_long (replicate 8 0) = 0"
proof -
  have "le_nat (replicate k 0) = 0" for k by (induction k) simp_all
  then show ?thesis by (simp add: le_long_def bytes_word_def)
qed

lemma ready_list_cells [simp]:
  "ready_list E s (w\<lparr>already_handled := a, timeout_event := (timeout_event w)(b := None), sel_next := c\<rparr>) = ready_list E s w"
  by (simp add: ready_list_def sock_readable_def nl_readable_def)

lemma fold_may_block: "\<not> may_block v \<Longrightarrow> \<not> may_block (fold ready_read ds v)"
  by (induction ds arbitrary: v) (simp_all add: ready_read_def)

text \<open>The variables after both loops of a call that may not block.\<close>

lemma loops_poll:
  assumes "writefds s = 0" and "exceptfds s = 0"
    and "v = \<lparr>newreadfds = FD_ZERO, newwritefds = FD_ZERO, may_block = False, does_block = False, ctx = 0\<rparr>"
  shows "\<exists>v1. sockets_loop E s n (map_items (m_sockets w)) (v, w) = (Some v1, w) \<and>
    netlinks_loop s n (map_items (m_netlinks w)) (v1, w) = (fold ready_read (ready_list E s w) v, w)"
proof -
  let ?ds = "map fst (filter (\<lambda>(fd, sock). wants_read s fd \<and> sock_readable E w fd sock) (map_items (m_sockets w)))"
  have "\<not> may_block (fold ready_read ds v)" for ds
    using assms(3) by (intro fold_may_block) simp
  then show ?thesis
    using assms by (simp add: sockets_loop_poll netlinks_loop_poll ready_list_def)
qed

text \<open>The call as its loops see it, and the state with its two cells.\<close>

definition select_of :: "'x env \<Rightarrow> 'x grail \<Rightarrow> select_call" where
  "select_of E w = \<lparr>readfds = argv 2 w, writefds = argv 3 w, exceptfds = argv 4 w,
     myreadfds = LoadFromTracee (memory_of w) (uninit E 128) (argv 2 w),
     mywritefds = LoadFromTracee (memory_of w) (uninit E 128) (argv 3 w),
     myexceptfds = LoadFromTracee (memory_of w) (uninit E 128) (argv 4 w)\<rparr>"

definition fresh_cells :: "'x grail \<Rightarrow> 'x grail" where
  "fresh_cells w = w\<lparr>already_handled := (already_handled w)(sel_next w := False),
     timeout_event := (timeout_event w)(sel_next w := None), sel_next := Suc (sel_next w)\<rparr>"

definition poll_vars :: select_vars where
  "poll_vars = \<lparr>newreadfds = FD_ZERO, newwritefds = FD_ZERO, may_block = False, does_block = False, ctx = 0\<rparr>"

lemma HandleSelect_poll_eq:
  assumes "argv 3 w = 0" and "argv 4 w = 0" and "argv 5 w \<noteq> 0" and "s = select_of E w"
    and "copy_in (memory_of w) (argv 5 w) 16 = replicate 16 0"
  shows "HandleSelect E w =
    select_finish E s (sel_next w) (argv 5 w) 0 (fold ready_read (ready_list E s w) poll_vars) (fresh_cells w)"
proof -
  have s0: "writefds s = 0" "exceptfds s = 0" using assms(1,2,4) by (simp_all add: select_of_def)
  obtain v1 where loops:
    "sockets_loop E s (sel_next w) (map_items (m_sockets (fresh_cells w))) (poll_vars, fresh_cells w)
      = (Some v1, fresh_cells w)"
    "netlinks_loop s (sel_next w) (map_items (m_netlinks (fresh_cells w))) (v1, fresh_cells w)
      = (fold ready_read (ready_list E s w) poll_vars, fresh_cells w)"
    using loops_poll [OF s0 poll_vars_def, of E "sel_next w" "fresh_cells w"] by (auto simp: fresh_cells_def)
  have "LoadFromTracee (memory_of w) (replicate 16 0) (argv 5 w) = replicate 16 0"
    using assms(3,5) by (simp add: LoadFromTracee_def)
  then show ?thesis
    using assms(3) loops
    unfolding HandleSelect_def Let_def select_of_def [symmetric] assms(4) [symmetric]
      fresh_cells_def [symmetric]
    by (simp add: le_long_zero flip: poll_vars_def)
qed

text \<open>What a poll collects: the ready descriptors and their number.\<close>

lemma poll_collects:
  assumes "fd_inv w" and "R = {d. wants_read s d \<and> readable E w d}" and "v = fold ready_read (ready_list E s w) poll_vars"
  shows "length (newreadfds v) = 128" "ctx v = card R" "newwritefds v = FD_ZERO" "\<not> may_block v" "\<not> does_block v"
    "0 \<le> d \<Longrightarrow> d < 1024 \<Longrightarrow> FD_ISSET d (newreadfds v) = (d \<in> R)"
proof -
  have ds: "set (ready_list E s w) = R" using ready_list_set [OF assms(1)] assms(2) by simp
  then have "length (ready_list E s w) = card R"
    using distinct_card [OF ready_list_distinct [OF assms(1), of E s]] by simp
  with fold_ready_read [OF _ ready_list_range [OF assms(1)], of poll_vars E s] ds
  show "length (newreadfds v) = 128" "ctx v = card R" "newwritefds v = FD_ZERO" "\<not> may_block v" "\<not> does_block v"
    "0 \<le> d \<Longrightarrow> d < 1024 \<Longrightarrow> FD_ISSET d (newreadfds v) = (d \<in> R)"
    unfolding assms(3) by (simp_all add: poll_vars_def)
qed


definition demo_select :: "nat grail" where
  "demo_select = set_mem (\<lambda>a. if a < 400 then Some (if a = 20 then 16 else 0) else None)
     ((demo_state [101, 8, 0, 0, 200])\<lparr>m_sockets := [100 \<mapsto> 7], availableFDs := {101..<200}\<rparr>)"

lemma demo_select_args:
  "argv 2 demo_select = 8" "argv 3 demo_select = 0" "argv 4 demo_select = 0" "argv 5 demo_select = 200"
  "cur_pid demo_select = 1" "m_sockets demo_select = [100 \<mapsto> 7]" "m_netlinks demo_select = Map.empty"
  by (simp_all add: demo_select_def set_mem_def demo_state_def GrailApplication_def argv_def arg_def
      get_reg_def demo_args_def)

lemma demo_select_mapped: "n \<le> 128 \<Longrightarrow> a + 128 \<le> 400 \<Longrightarrow> mapped (memory_of demo_select) (of_nat a) n"
proof -
  assume n: "n \<le> 128" and a: "a + 128 \<le> 400"
  have "(of_nat a + of_nat i :: 64 word) < 400" if "i < n" for i
  proof -
    have "unat (of_nat (a + i) :: 64 word) = a + i" using that n a by (intro unat_of_nat64) simp
    then show ?thesis using that n a by (simp add: word_less_nat_alt del: of_nat_add flip: of_nat_add)
  qed
  then show ?thesis by (simp add: mapped_iff demo_select_def set_mem_def)
qed

lemma demo_select_inv: "fd_inv demo_select"
  by (auto simp: fd_inv_def demo_select_def set_mem_def demo_state_def GrailApplication_def MAX_NUM_FDS_def)


text \<open>
  \<open>select\<close> as a sleep: with no sets and a timeout, whatever its length, the call returns 0
  at once and schedules nothing, so no simulated time passes.
\<close>

theorem HandleSelect_sleep_returns:
  assumes "getpid_ok E" and "argv 2 w = 0" and "argv 3 w = 0" and "argv 4 w = 0"
    and "tv = argv 5 w" and "tv \<noteq> 0" and "mapped (memory_of w) tv 16"
  shows "\<exists>w'. HandleSelect E w = Ret SYSC_SUCCESS w' \<and> events w' = events w \<and>
    get_reg (cur_pid w) RAX (tr w') = 0"
proof -
  define s where "s = \<lparr>readfds = 0, writefds = 0, exceptfds = 0,
    myreadfds = LoadFromTracee (memory_of w) (uninit E 128) 0,
    mywritefds = LoadFromTracee (memory_of w) (uninit E 128) 0,
    myexceptfds = LoadFromTracee (memory_of w) (uninit E 128) 0\<rparr>"
  have no: "\<not> wants_read s fd" "\<not> wants_write s fd" "\<not> wants_except s fd" for fd
    by (simp_all add: s_def wants_read_def wants_write_def wants_except_def)
  have l1: "sockets_loop E s n kvs (v, w') = (Some v, w')" for n kvs v w'
    by (induction kvs) (auto simp: no socket_write_def socket_read_def Let_def)
  have l2: "netlinks_loop s n kvs (v, w') = (v, w')" for n kvs v and w' :: "'a grail"
    by (induction kvs) (auto simp: no)
  have "pass1_sockets E s w' kvs = NoData" for w' kvs by (induction kvs) (auto simp: no)
  moreover have "pass1_netlinks s w' kvs = NoData" for w' :: "'a grail" and kvs by (induction kvs) (auto simp: no)
  ultimately have p: "pass1 E s w' = NoData" for w' by (simp add: pass1_def)
  show ?thesis
    using assms
    by (simp add: HandleSelect_def Let_def s_def [symmetric] l1 l2 p select_finish_def)
      (simp add: s_def store_to_null store_to_mapped round8_def fakes [OF assms(1)] faked_def set_mem_def)
qed

theorem HandleSelect_sleep_returns_witness:
  "\<exists>w'. HandleSelect demo_env (demo_state [0, 0, 0, 0, 8]) = Ret SYSC_SUCCESS w' \<and> events w' = []"
proof -
  let ?w = "demo_state [0, 0, 0, 0, 8]"
  have a: "argv 2 ?w = 0" "argv 3 ?w = 0" "argv 4 ?w = 0" "8 = argv 5 ?w" "events ?w = []"
    by (simp_all add: demo_state_def GrailApplication_def argv_def arg_def get_reg_def demo_args_def)
  have "mapped (memory_of ?w) 8 16" unfolding demo_args_eval by (rule demo_mapped)
  from HandleSelect_sleep_returns [OF demo_getpid a(1-4) _ this] a(5) show ?thesis by auto
qed

end
