(* ===== verification/Grail_Ioctl.thy ===== *)
theory Grail_Ioctl
  imports Netlink
begin

text \<open>
  \<open>HandleIoctl\<close> and \<open>GetNetDeviceByName\<close> of \<^verbatim>\<open>src/model/grail.cc\<close>. An \<open>ifreq\<close> is 40 bytes and
  an \<open>iwreq\<close> 32, the name in the first 16 and the answer from byte 16 on.
\<close>

section \<open>Requests\<close>

abbreviation (input) TCGETS :: "64 word" where "TCGETS \<equiv> 0x5401"
abbreviation (input) SIOCGIFFLAGS :: "64 word" where "SIOCGIFFLAGS \<equiv> 0x8913"
abbreviation (input) SIOCGIFADDR :: "64 word" where "SIOCGIFADDR \<equiv> 0x8915"
abbreviation (input) SIOCGIFBRDADDR :: "64 word" where "SIOCGIFBRDADDR \<equiv> 0x8919"
abbreviation (input) SIOCGIFNETMASK :: "64 word" where "SIOCGIFNETMASK \<equiv> 0x891b"
abbreviation (input) SIOCGIFMTU :: "64 word" where "SIOCGIFMTU \<equiv> 0x8921"
abbreviation (input) SIOCGIWNAME :: "64 word" where "SIOCGIWNAME \<equiv> 0x8b01"
abbreviation (input) IFF_UP :: nat where "IFF_UP \<equiv> 1"
abbreviation (input) IFF_BROADCAST :: nat where "IFF_BROADCAST \<equiv> 2"
abbreviation (input) IFF_POINTOPOINT :: nat where "IFF_POINTOPOINT \<equiv> 16"
abbreviation (input) IFF_RUNNING :: nat where "IFF_RUNNING \<equiv> 64"
abbreviation (input) IFF_MULTICAST :: nat where "IFF_MULTICAST \<equiv> 4096"

section \<open>Devices by name\<close>

definition if_name :: "byte list \<Rightarrow> string" where
  "if_name bs = map (\<lambda>b. char_of (unat b)) (takeWhile (\<lambda>b. b \<noteq> 0) (take 16 bs))"

definition find_device :: "'x env \<Rightarrow> device \<Rightarrow> 'x \<Rightarrow> nat option" where
  "find_device E d x = List.find (\<lambda>i. e_Device E i x = d) [0..<e_NDevices E x]"

text \<open>The first device of the kind the name starts with; a null pointer if there is none.\<close>

definition GetNetDeviceByName ::
  "'x env \<Rightarrow> string \<Rightarrow> 'x grail \<Rightarrow> (nat option, 'x grail) outcome" where
  "GetNetDeviceByName E ifname w =
     (if take 4 ifname = ''wlan'' then Ret (find_device E WifiNetDevice (xt w)) w
      else if take 3 ifname = ''eth'' then Ret (find_device E PointToPointNetDevice (xt w)) w
      else Halt AssertFailure w)"

text \<open>\<open>GetNetDeviceByName(name)->GetObject<WifiNetDevice>()\<close>.\<close>

definition wifi_by_name ::
  "'x env \<Rightarrow> string \<Rightarrow> 'x grail \<Rightarrow> (nat option, 'x grail) outcome" where
  "wifi_by_name E ifname w =
     and_then (GetNetDeviceByName E ifname w) (\<lambda>d w. case d of
       None \<Rightarrow> Halt NullPointer w
     | Some i \<Rightarrow> Ret (if e_Device E i (xt w) = WifiNetDevice then Some i else None) w)"

section \<open>HandleIoctl\<close>

text \<open>
  What the requests share: the tracee's structure of \<open>sz\<close> bytes is read, the device looked
  up, \<open>answer\<close> computes the new structure. A null argument fails; \<open>missing\<close> is what happens
  when the device is not a WiFi device.
\<close>

definition device_request ::
  "'x env \<Rightarrow> nat \<Rightarrow> ('x grail \<Rightarrow> (sysc, 'x grail) outcome) \<Rightarrow> (nat \<Rightarrow> byte list \<Rightarrow> byte list)
   \<Rightarrow> 'x grail \<Rightarrow> (sysc, 'x grail) outcome" where
  "device_request E sz missing answer w =
     (let req = argv 3 w in
      if req = 0 then FAKE E (cur_pid w) (c_reg (- 1)) w (Ret SYSC_FAILURE)
      else
        let myreq = copy_in (memory_of w) req sz in
        and_then (wifi_by_name E (if_name myreq) w) (\<lambda>wifi w. case wifi of
          None \<Rightarrow> missing w
        | Some i \<Rightarrow> copy_to req (answer i myreq) w (\<lambda>w.
            FAKE E (cur_pid w) 0 w (Ret SYSC_SUCCESS))))"

definition fake_failure :: "'x env \<Rightarrow> 'x grail \<Rightarrow> (sysc, 'x grail) outcome" where
  "fake_failure E w = FAKE E (cur_pid w) (c_reg (- 1)) w (Ret SYSC_FAILURE)"

definition put_at_16 :: "byte list \<Rightarrow> byte list \<Rightarrow> byte list" where
  "put_at_16 v req = take 16 req @ v @ drop (16 + length v) req"

definition ifr_flags :: "'x env \<Rightarrow> nat \<Rightarrow> 'x \<Rightarrow> nat" where
  "ifr_flags E i x =
     ((if e_IsLinkUp E i x then IFF_UP OR IFF_RUNNING else 0)
      OR (if e_IsBroadcast E i x then IFF_BROADCAST else 0)
      OR (if e_IsMulticast E i x then IFF_MULTICAST else 0)
      OR (if e_IsPointToPoint E i x then IFF_POINTOPOINT else 0))"

definition HandleIoctl :: "'x env \<Rightarrow> 'x grail \<Rightarrow> (sysc, 'x grail) outcome" where
  "HandleIoctl E w =
     (let fd = c_int (argv 1 w); request = argv 2 w; x = xt w in
      if fd = 1 \<and> request = TCGETS then fake_failure E w
      else if \<not> FdIsEmulatedSocket fd w then HandleSyscallAfter E w
      else if request = SIOCGIFFLAGS then
        device_request E 40 (fake_failure E) (\<lambda>i. put_at_16 (le_bytes 2 (ifr_flags E i x))) w
      else if request = SIOCGIWNAME then
        device_request E 32 (Ret SYSC_FAILURE) (\<lambda>i. put_at_16 (string_bytes ''NS3-WL-Stack'')) w
      else if request = SIOCGIFADDR \<or> request = SIOCGIFBRDADDR then
        device_request E 40 (fake_failure E) (\<lambda>i req.
          let if_idx = e_InterfaceForDevice E i x;
              ipAddr = (if request = SIOCGIFADDR then e_ifLocal E if_idx x
                        else e_ifBroadcast E if_idx x)
          in put_at_16 (MakeBsdAddress E ipAddr (take 16 (drop 16 req))) req) w
      else if request = SIOCGIFNETMASK then
        device_request E 40 (fake_failure E) (\<lambda>i req.
          let if_idx = e_InterfaceForDevice E i x in
          put_at_16 (MakeBsdAddress_mask (e_ifMask E if_idx x) (take 16 (drop 16 req))) req) w
      else if request = SIOCGIFMTU then
        device_request E 40 (fake_failure E) (\<lambda>i. put_at_16 (le_bytes 4 (e_GetMtu E i x))) w
      else Ret SYSC_ERROR w)"

section \<open>The invariants are kept\<close>

lemma keeps_GetNetDeviceByName [keeps_intros]: "I w \<Longrightarrow> keeps I (GetNetDeviceByName E s w)"
  by (simp add: GetNetDeviceByName_def)

lemma keeps_wifi_by_name [keeps_intros]: "I w \<Longrightarrow> keeps I (wifi_by_name E s w)"
  unfolding wifi_by_name_def by (intro keeps_and_then keeps_GetNetDeviceByName) (simp_all split: option.split)

context priv_invariant
begin

lemma keeps_fake_failure: "I w \<Longrightarrow> keeps I (fake_failure E w)"
  unfolding fake_failure_def by (intro keeps_FAKE) simp_all

lemma keeps_device_request:
  assumes "\<And>w. I w \<Longrightarrow> keeps I (m w)" and "I w"
  shows "keeps I (device_request E n m f w)"
  unfolding device_request_def Let_def
  using assms by (intro keeps_if keeps_FAKE keeps_and_then keeps_wifi_by_name)
    (simp_all add: keeps_copy_to keeps_FAKE split: option.split)

lemma keeps_ioctl [keeps_intros]: "I w \<Longrightarrow> keeps I (HandleIoctl E w)"
  unfolding HandleIoctl_def Let_def
  by (intro keeps_if keeps_device_request keeps_fake_failure keeps_After) simp_all

end

end
