(* ===== verification/Grail_Dispatch.thy ===== *)
theory Grail_Dispatch
  imports Grail_Select Grail_Ioctl
begin

text \<open>
  \<open>HandleSyscallBefore\<close> of \<^verbatim>\<open>src/model/grail.cc\<close>, the switch over all system calls, and the
  program as a whole: a step relation whose steps are the events the simulator runs, in the
  order of their time stamps, the callbacks its sockets invoke, and the changes of its own
  state in between. The invariants of the descriptor table, the netlink objects and the
  routing table hold in every reachable state.
\<close>

section \<open>The switch\<close>

definition passed_through :: "int list" where
  "passed_through =
     [SYS_execve, SYS_brk, SYS_mprotect,
      SYS_fstat, SYS_unlink, SYS_access, SYS_mmap, SYS_munmap, SYS_getrlimit, SYS_getcwd, SYS_lseek,
      SYS_readahead, SYS_umask, SYS_ftruncate, SYS_readlink,
      SYS_prlimit64, SYS_set_tid_address, SYS_set_robust_list, SYS_get_robust_list, SYS_arch_prctl,
      SYS_madvise, SYS_rt_sigaction, SYS_rt_sigprocmask, SYS_gettid, SYS_tgkill, SYS_uname]"

definition dispatch :: "'x env \<Rightarrow> int \<Rightarrow> 'x grail \<Rightarrow> (sysc, 'x grail) outcome" where
  "dispatch E syscall w =
     (if List.member passed_through syscall then HandleSyscallAfter E w
      else if syscall = SYS_dup \<or> syscall = SYS_stat then
        if FdIsEmulatedSocket (c_int (argv 1 w)) w then Halt ExitFailure w
        else HandleSyscallAfter E w
      else if syscall = SYS_read then HandleRead E w
      else if syscall = SYS_open then HandleOpen E w
      else if syscall = SYS_openat then HandleOpenAt E w
      else if syscall = SYS_close then HandleClose E w
      else if syscall = SYS_pipe2 then HandlePipe2 E w
      else if syscall = SYS_getpid then HandleGetPid E w
      else if syscall = SYS_ioctl then HandleIoctl E w
      else if syscall = SYS_fcntl then HandleFcntl E w
      else if syscall = SYS_exit_group then Ret SYSC_SYSTEM_EXIT w
      else if syscall = SYS_getsockname then HandleGetSockName E w
      else if syscall = SYS_getpeername then HandleGetPeerName E w
      else if syscall = SYS_write then HandleWrite E w
      else if syscall = SYS_setsockopt then HandleSetSockOpt E w
      else if syscall = SYS_getsockopt then HandleGetSockOpt E w
      else if syscall = SYS_socket then HandleSocket E w
      else if syscall = SYS_connect then HandleConnect E w
      else if syscall = SYS_listen then HandleListen E w
      else if syscall = SYS_sendto then HandleSendTo E (select_netlink_callback E) w
      else if syscall = SYS_recvfrom then HandleRecvFrom E w
      else if syscall = SYS_accept then HandleAccept E w
      else if syscall = SYS_recvmsg then HandleRecvMsg E w
      else if syscall = SYS_sendmsg then HandleSendMsg E (select_netlink_callback E) w
      else if syscall = SYS_nanosleep then HandleNanoSleep E w
      else if syscall = SYS_time then HandleTime E w
      else if syscall = SYS_alarm then HandleAlarm E w
      else if syscall = SYS_gettimeofday then HandleGetTimeOfDay E w
      else if syscall = SYS_clock_gettime then HandleClockGetTime E w
      else if syscall = SYS_clock_getres then HandleClockGetRes E w
      else if syscall = SYS_bind then HandleBind E w
      else if syscall = SYS_poll then HandlePoll E w
      else if syscall = SYS_getrandom then HandleGetRandom E w
      else if syscall = SYS_select then HandleSelect E w
      else if syscall = SYS_getrusage then HandleGetRUsage E w
      else if syscall = SYS_getuid then FAKE2 E (cur_pid w) (of_nat (uid w)) SYSC_SUCCESS w Ret
      else if syscall = SYS_geteuid then FAKE2 E (cur_pid w) (of_nat (euid w)) SYSC_SUCCESS w Ret
      else if syscall = SYS_getgid then FAKE2 E (cur_pid w) (of_nat (gid w)) SYSC_SUCCESS w Ret
      else if syscall = SYS_getegid then FAKE2 E (cur_pid w) (of_nat (egid w)) SYSC_SUCCESS w Ret
      else if syscall = SYS_clone then HandleClone E w
      else if syscall = SYS_futex then HandleFutex E w
      else if syscall = SYS_exit then HandleExit E w
      else Halt ExitFailure w)"

definition HandleSyscallBefore :: "'x env \<Rightarrow> pid \<Rightarrow> 'x grail \<Rightarrow> (unit, 'x grail) outcome" where
  "HandleSyscallBefore E p w =
     (let w0 = w\<lparr>cur_pid := p\<rparr> in
      case WaitForSyscall E p (tr w0) of
        None \<Rightarrow> Halt NoReturn w0
      | Some (r, t) \<Rightarrow>
          if r \<noteq> 0 then Ret () (w0\<lparr>tr := t\<rparr>)
          else
            let syscall = c_int (get_reg p ORIG_RAX t);
                w1 = w0\<lparr>tr := t\<rparr>;
                w2 = (if m_pollLoopDetection w1
                      then w1\<lparr>pollLoopDetector := snd (poll_handle (pollLoopDetector w1) p syscall)\<rparr>
                      else w1)
            in and_then (dispatch E syscall w2) (\<lambda>res w. ProcessStatusCode E res p w))"

section \<open>Start-up\<close>

text \<open>
  \<open>DoTrace\<close> after its \<open>waitpid\<close>; \<open>c\<close> is the result of \<open>PTRACE_SETOPTIONS\<close>. \<open>StartApplication\<close>
  in the parent, with the process the \<open>fork\<close> made; what the child runs is the tracee.
\<close>

definition DoTrace :: "'x env \<Rightarrow> int \<Rightarrow> 'x grail \<Rightarrow> (unit, 'x grail) outcome" where
  "DoTrace E c w = NS_ASSERT (c = 0) w (\<lambda>w. HandleSyscallBefore E (app_pid w) w)"

definition StartApplication :: "'x env \<Rightarrow> pid \<Rightarrow> int \<Rightarrow> 'x grail \<Rightarrow> (unit, 'x grail) outcome" where
  "StartApplication E child c w = DoTrace E c (w\<lparr>cur_pid := child, app_pid := child\<rparr>)"

section \<open>Events and callbacks\<close>

definition run_event :: "'x env \<Rightarrow> event \<Rightarrow> 'x grail \<Rightarrow> (unit, 'x grail) outcome" where
  "run_event E ev w = (case ev of
     EvHandleSyscallBefore p \<Rightarrow> HandleSyscallBefore E p w
   | EvRemoveClosedSocket sock \<Rightarrow> Ret () (set_ext (e_Close E sock (xt w)) w)
   | EvNanoSleep p \<Rightarrow> nanosleep_event E p w
   | EvSelectTimeout n p \<Rightarrow> select_timeout_event E n p w)"

definition notify_recv :: "'x env \<Rightarrow> sockid \<Rightarrow> 'x grail \<Rightarrow> (unit, 'x grail) outcome" where
  "notify_recv E sock w = (case cb_recv w sock of
     None \<Rightarrow> Ret () w
   | Some (RecvRead p buf n) \<Rightarrow> read_callback E p buf n sock w
   | Some (RecvRecvFrom p buf n fl a l) \<Rightarrow> recvfrom_callback E p buf n fl a l sock w
   | Some (RecvSelect c) \<Rightarrow> select_recv_callback E c sock w)"

text \<open>The callback of a blocked \<open>write\<close> only logs; its returned status is discarded.\<close>

definition notify_send :: "'x env \<Rightarrow> sockid \<Rightarrow> 'x grail \<Rightarrow> (unit, 'x grail) outcome" where
  "notify_send E sock w = (case cb_send w sock of
     None \<Rightarrow> Ret () w
   | Some (SendBlockedWrite p) \<Rightarrow> Ret () w
   | Some (SendSelect c) \<Rightarrow> select_send_callback E c sock w)"

definition notify_accept ::
  "'x env \<Rightarrow> sockid \<Rightarrow> sockid \<Rightarrow> address \<Rightarrow> 'x grail \<Rightarrow> (unit, 'x grail) outcome" where
  "notify_accept E sock newSock newAddr w = (case cb_accept w sock of
     None \<Rightarrow> Ret () w
   | Some (AcceptFake fd) \<Rightarrow> fakeAccept fd newSock newAddr w
   | Some (AcceptSelect c) \<Rightarrow> select_accept_callback E c newSock newAddr w
   | Some (AcceptBlocked fd a l p) \<Rightarrow> accept_callback E a l p newSock newAddr w)"

definition notify_connect :: "'x env \<Rightarrow> sockid \<Rightarrow> bool \<Rightarrow> 'x grail \<Rightarrow> (unit, 'x grail) outcome" where
  "notify_connect E sock ok w = (case cb_connect w sock of
     None \<Rightarrow> Ret () w
   | Some (ConnectBlocked fd p) \<Rightarrow> if ok then connect_success E fd p w else connect_failure E p w)"

section \<open>The order of events\<close>

text \<open>Events run in the order of their time, those of one time in the order they were scheduled.\<close>

datatype stamp = Stamp (st_time: int) (st_uid: nat)

instantiation stamp :: linorder
begin

definition less_eq_stamp :: "stamp \<Rightarrow> stamp \<Rightarrow> bool" where
  "less_eq_stamp a b \<longleftrightarrow> st_time a < st_time b \<or> st_time a = st_time b \<and> st_uid a \<le> st_uid b"

definition less_stamp :: "stamp \<Rightarrow> stamp \<Rightarrow> bool" where
  "less_stamp a b \<longleftrightarrow> st_time a < st_time b \<or> st_time a = st_time b \<and> st_uid a < st_uid b"

instance
  by standard (auto simp: less_eq_stamp_def less_stamp_def intro: stamp.expand)

end

definition stamp_of :: "sim_event \<Rightarrow> stamp" where
  "stamp_of e = Stamp (ev_time e) (ev_uid e)"

definition earliest :: "sim_event list \<Rightarrow> sim_event" where
  "earliest es = arg_min_list stamp_of es"

section \<open>Steps of the program\<close>

inductive sim_step :: "'x env \<Rightarrow> 'x grail \<Rightarrow> 'x grail \<Rightarrow> bool" for E :: "'x env" where
  step_event: "events w \<noteq> [] \<Longrightarrow> e = earliest (events w) \<Longrightarrow> int (e_Now E (xt w)) = ev_time e \<Longrightarrow>
    run_event E (ev_do e) (w\<lparr>events := remove1 e (events w)\<rparr>) = Ret () w' \<Longrightarrow> sim_step E w w'"
| step_recv: "notify_recv E sock w = Ret () w' \<Longrightarrow> sim_step E w w'"
| step_send: "notify_send E sock w = Ret () w' \<Longrightarrow> sim_step E w w'"
| step_accept: "notify_accept E sock newSock newAddr w = Ret () w' \<Longrightarrow> sim_step E w w'"
| step_connect: "notify_connect E sock ok w = Ret () w' \<Longrightarrow> sim_step E w w'"
| step_simulator: "sim_step E w (set_ext x w)"

inductive reachable :: "'x env \<Rightarrow> 'x grail \<Rightarrow> 'x grail \<Rightarrow> bool" for E :: "'x env" and w0 :: "'x grail" where
  start: "StartApplication E child c w0 = Ret () w \<Longrightarrow> reachable E w0 w"
| next_step: "reachable E w0 w \<Longrightarrow> sim_step E w w' \<Longrightarrow> reachable E w0 w'"

inductive_cases sim_stepE: "sim_step E w w'"

section \<open>Calls that leave the descriptors alone\<close>

text \<open>
  An invariant that reads of the state at most the descriptors, what they stand for, the netlink
  objects and the routes is kept by every call but the five that open or close a descriptor.
\<close>

locale frame_invariant = select_invariant +
  assumes I_fields: "I w \<Longrightarrow> I (w\<lparr>cur_pid := xa\<rparr>)"
      "I w \<Longrightarrow> I (w\<lparr>app_pid := xm\<rparr>)"
      "I w \<Longrightarrow> I (w\<lparr>m_connectedSockets := xd\<rparr>)"
      "I w \<Longrightarrow> I (w\<lparr>m_isListenTcpSocket := xe\<rparr>)"
      "I w \<Longrightarrow> I (w\<lparr>m_nonblocking_sockets := xf\<rparr>)"
      "I w \<Longrightarrow> I (w\<lparr>pollLoopDetector := xi\<rparr>)"
      "I w \<Longrightarrow> I (w\<lparr>cb_connect := xj\<rparr>)"
      "I w \<Longrightarrow> I (w\<lparr>events := remove1 xk (events w)\<rparr>)"
      "I w \<Longrightarrow> I (w\<lparr>stdout := xl\<rparr>)"
begin

lemmas I_simps = I_tr I_tids I_cells I_callbacks I_accepted I_fields

lemma keeps_files [keeps_intros]:
  assumes "I w"
  shows "keeps I (HandleGetPid E w)" "keeps I (HandlePipe2 E w)" "keeps I (HandleGetRUsage E w)"
    "keeps I (HandleGetRandom E w)" "keeps I (HandleFcntl E w)" "keeps I (read_callback E p b n s w)"
  unfolding HandleGetPid_def HandlePipe2_def HandleGetRUsage_def HandleGetRandom_def HandleFcntl_def
    read_callback_def Let_def split_def
  using assms by (intro keeps_intros | simp add: I_simps)+

lemma keeps_rw [keeps_intros]:
  assumes "I w"
  shows "keeps I (HandleRead E w)" "keeps I (HandleWrite E w)"
  unfolding HandleRead_def HandleWrite_def Let_def split_def
  using assms by (intro keeps_intros | simp add: I_simps)+

lemma keeps_connections [keeps_intros]:
  assumes "I w"
  shows "keeps I (HandleListen E w)" "keeps I (HandleConnect E w)" "keeps I (fakeAccept fd s ad w)"
    "keeps I (connect_success E fd p w)" "keeps I (connect_failure E p w)"
  unfolding HandleListen_def HandleConnect_def fakeAccept_def connect_success_def
    connect_failure_def Let_def split_def
  using assms by (intro keeps_intros | simp add: I_simps keep_set_ext)+

lemmas nl_handlers = keeps_nl_bind keeps_nl_getsockname keeps_nl_recvmsg keeps_nl_sendmsg
  keeps_nl_sendto

lemma keeps_transfer [keeps_intros]:
  assumes "I w"
  shows "keeps I (HandleBind E w)" "keeps I (HandleRecvFrom E w)"
    "keeps I (recvfrom_callback E p b n fl a l s w)"
    "keeps I (HandleGetSockName E w)" "keeps I (HandleGetPeerName E w)"
    "keeps I (HandleRecvMsg E w)" "keeps I (HandlePoll E w)"
  unfolding HandleBind_def HandleRecvFrom_def recvfrom_callback_def HandleGetSockName_def
    HandleGetPeerName_def HandleRecvMsg_def HandlePoll_def Let_def split_def
  using assms by (intro keeps_intros nl_handlers | simp add: I_simps keep_set_ext)+

lemma keeps_sockopts [keeps_intros]:
  assumes "I w"
  shows "keeps I (HandleGetSockOpt E w)" "keeps I (HandleSetSockOpt E w)"
  unfolding HandleGetSockOpt_def HandleSetSockOpt_def reply_attribute_def reply_opt_def Let_def
  using assms by (intro keeps_intros | simp add: I_simps keep_set_ext)+

lemma keeps_sends [keeps_intros]:
  assumes "I w"
  shows "keeps I (HandleSendMsg E (select_netlink_callback E) w)"
    "keeps I (HandleSendTo E (select_netlink_callback E) w)"
proof -
  have cb: "\<forall>n f w. I w \<longrightarrow> keeps I (select_netlink_callback E n f w)"
    by (simp add: keeps_select_callbacks)
  show "keeps I (HandleSendMsg E (select_netlink_callback E) w)"
    "keeps I (HandleSendTo E (select_netlink_callback E) w)"
    unfolding HandleSendMsg_def HandleSendTo_def Let_def split_def
    using assms by (intro keeps_intros nl_handlers cb | simp add: keep_set_ext)+
qed

lemma keeps_dispatch_but:
  assumes "I w"
    and "c = SYS_open \<Longrightarrow> keeps I (HandleOpen E w)" and "c = SYS_openat \<Longrightarrow> keeps I (HandleOpenAt E w)"
    and "c = SYS_close \<Longrightarrow> keeps I (HandleClose E w)" and "c = SYS_socket \<Longrightarrow> keeps I (HandleSocket E w)"
    and "c = SYS_accept \<Longrightarrow> keeps I (HandleAccept E w)"
  shows "keeps I (dispatch E c w)"
  unfolding dispatch_def
  by (intro keeps_if assms(2-) keeps_files keeps_rw keeps_connections keeps_transfer
      keeps_sockopts keeps_sends keeps_time keeps_clone keeps_select keeps_ioctl keeps_After keeps_FAKE2)
    (simp_all add: assms(1))

end

section \<open>Invariants of the other tables\<close>

text \<open>
  An invariant that no descriptor table but that of the netlink sockets matters to, and that
  survives the creation and the removal of a netlink socket, is kept by every handler. The
  netlink objects and the routing table are two such invariants.
\<close>

locale program_invariant = frame_invariant +
  assumes I_tables: "I w \<Longrightarrow> I (w\<lparr>m_sockets := xb\<rparr>)"
      "I w \<Longrightarrow> I (w\<lparr>m_tcpSockets := xc\<rparr>)"
      "I w \<Longrightarrow> I (w\<lparr>m_random_fds := xg\<rparr>)"
      "I w \<Longrightarrow> I (w\<lparr>availableFDs := xh\<rparr>)"
    and I_new_netlink: "I w \<Longrightarrow> I (w\<lparr>m_netlinks := (m_netlinks w)(fd \<mapsto> nl_next w),
        nl_objs := (nl_objs w)(nl_next w \<mapsto> s), nl_next := Suc (nl_next w)\<rparr>)"
    and I_del_netlink: "I w \<Longrightarrow> I (w\<lparr>m_netlinks := (m_netlinks w)(fd := None)\<rparr>)"
begin

lemmas I_all = I_simps I_tables I_new_netlink I_del_netlink

lemma keeps_GetNextFD [keeps_intros]: "I w \<Longrightarrow> keeps I (GetNextFD w)"
  unfolding GetNextFD_def Let_def by (intro keeps_NS_ASSERT) (simp add: I_all)

lemma keeps_open [keeps_intros]:
  assumes "I w"
  shows "keeps I (HandleOpen E w)" "keeps I (HandleOpenAt E w)" "keeps I (HandleClose E w)"
  unfolding HandleOpen_def HandleOpenAt_def open_path_def HandleClose_def Let_def set_ext_def
  using assms by (intro keeps_intros | simp add: I_all)+

lemma keeps_sockets [keeps_intros]:
  assumes "I w"
  shows "keeps I (HandleSocket E w)" "keeps I (HandleAccept E w)"
    "keeps I (accept_callback E a l p s ad w)"
  unfolding HandleSocket_def HandleAccept_def accept_callback_def enter_connection_def Let_def split_def
  using assms by (intro keeps_intros | simp add: I_all keep_set_ext)+

lemma keeps_dispatch: "I w \<Longrightarrow> keeps I (dispatch E c w)"
  by (intro keeps_dispatch_but keeps_open keeps_sockets)

end

section \<open>Runs keep an invariant\<close>

text \<open>
  What the step relation needs of an invariant: the handlers behind the switch and the
  closures keep it. The invariant of the descriptor table and those above provide it.
\<close>

locale run_invariant = select_invariant +
  assumes run_fields: "I w \<Longrightarrow> I (w\<lparr>cur_pid := a\<rparr>)" "I w \<Longrightarrow> I (w\<lparr>pollLoopDetector := b\<rparr>)"
      "I w \<Longrightarrow> I (w\<lparr>events := remove1 c (events w)\<rparr>)" "I w \<Longrightarrow> I (w\<lparr>app_pid := d\<rparr>)"
    and run_dispatch: "I w \<Longrightarrow> keeps I (dispatch E k w)"
    and run_callbacks: "I w \<Longrightarrow> keeps I (read_callback E p buf n sock w)"
      "I w \<Longrightarrow> keeps I (recvfrom_callback E p buf n fl ad l sock w)"
      "I w \<Longrightarrow> keeps I (accept_callback E ad l p sock addr w)"
      "I w \<Longrightarrow> keeps I (fakeAccept fd sock addr w)"
      "I w \<Longrightarrow> keeps I (connect_success E fd p w)" "I w \<Longrightarrow> keeps I (connect_failure E p w)"
begin

lemma keeps_HandleSyscallBefore: "I w \<Longrightarrow> keeps I (HandleSyscallBefore E p w)"
proof -
  assume "I w"
  then have w1: "I (w\<lparr>cur_pid := p, tr := t\<rparr>)" for t by (intro I_tr run_fields)
  then have "I (w\<lparr>cur_pid := p, tr := t, pollLoopDetector := d\<rparr>)" for t d by (intro run_fields)
  then have "keeps I (and_then (dispatch E c (if b then w\<lparr>cur_pid := p, tr := t, pollLoopDetector := d\<rparr>
      else w\<lparr>cur_pid := p, tr := t\<rparr>)) (\<lambda>res w. ProcessStatusCode E res p w))" for b c t d
    using w1 by (intro keeps_and_then run_dispatch keeps_ProcessStatusCode) simp_all
  then show ?thesis
    unfolding HandleSyscallBefore_def Let_def using w1 by (simp split: option.split prod.split)
qed

lemma keeps_StartApplication: "I w \<Longrightarrow> keeps I (StartApplication E child c w)"
  unfolding StartApplication_def DoTrace_def
  by (intro keeps_NS_ASSERT keeps_HandleSyscallBefore)
    (metis run_fields(1) run_fields(4))

lemma keeps_run_event: "I w \<Longrightarrow> keeps I (run_event E ev w)"
  unfolding run_event_def
  by (cases ev) (simp_all add: keeps_HandleSyscallBefore keep_set_ext keeps_nanosleep_event
      keeps_select_callbacks)

lemma keeps_notify:
  assumes "I w"
  shows "keeps I (notify_recv E sock w)" "keeps I (notify_send E sock w)"
    "keeps I (notify_accept E sock s2 ad w)" "keeps I (notify_connect E sock ok w)"
  unfolding notify_recv_def notify_send_def notify_accept_def notify_connect_def
  using assms by (simp_all add: run_callbacks keeps_select_callbacks
      split: option.split recv_cb.split send_cb.split accept_cb.split connect_cb.split)

lemma sim_step_keeps: "sim_step E w w' \<Longrightarrow> I w \<Longrightarrow> I w'"
proof (induction rule: sim_step.induct)
  case (step_event w e w')
  then show ?case using keeps_run_event [OF run_fields(3), of w] by (metis keepsD)
next
  case (step_recv sock w w')
  then show ?case using keeps_notify(1) by (metis keepsD)
next
  case (step_send sock w w')
  then show ?case using keeps_notify(2) by (metis keepsD)
next
  case (step_accept sock s2 ad w w')
  then show ?case using keeps_notify(3) by (metis keepsD)
next
  case (step_connect sock ok w w')
  then show ?case using keeps_notify(4) by (metis keepsD)
next
  case (step_simulator w x)
  then show ?case by (intro keep_set_ext)
qed

lemma reachable_keeps: "reachable E w0 w \<Longrightarrow> I w0 \<Longrightarrow> I w"
proof (induction rule: reachable.induct)
  case (start child c w)
  then show ?case using keeps_StartApplication by (metis keepsD)
next
  case (next_step w w')
  then show ?case using sim_step_keeps by blast
qed

end

sublocale program_invariant \<subseteq> run_invariant
  by unfold_locales (simp_all add: I_fields keeps_dispatch keeps_files keeps_transfer keeps_connections
      keeps_sockets)

interpretation nlr: program_invariant nl_inv
proof unfold_locales
  show "nl_inv w \<Longrightarrow> nl_inv (w\<lparr>m_netlinks := (m_netlinks w)(fd \<mapsto> nl_next w),
      nl_objs := (nl_objs w)(nl_next w \<mapsto> s), nl_next := Suc (nl_next w)\<rparr>)" for w :: "'a grail" and fd s
    by (auto simp: nl_inv_def ran_def)
  show "nl_inv w \<Longrightarrow> nl_inv (w\<lparr>m_netlinks := (m_netlinks w)(fd := None)\<rparr>)" for w :: "'a grail" and fd
    by (auto simp: nl_inv_def ran_def)
qed simp_all

interpretation rtr: program_invariant rts_inv
  by unfold_locales (simp_all add: rts_inv_def)

lemma fd_keeps_dispatch: "fd_inv w \<Longrightarrow> keeps fd_inv (dispatch E c w)"
proof -
  assume w: "fd_inv w"
  have cb: "\<forall>n f w. fd_inv w \<longrightarrow> keeps fd_inv (select_netlink_callback E n f w)"
    by (simp add: fds.keeps_select_callbacks)
  show ?thesis unfolding dispatch_def using w
    by (intro keeps_if keeps_intros fd_keeps_send [OF cb] fds.keeps_select) simp_all
qed

interpretation fdr: run_invariant fd_inv
  by unfold_locales (simp_all add: fd_keeps_dispatch fd_keeps_read_callback fd_keeps_recvfrom_callback
      fd_keeps_accept_callback fd_keeps_connect_callbacks)

section \<open>Properties\<close>

text \<open>
  (C1) In every state the program can reach, with any kernel and any simulator, the pool of
  descriptors is split without overlap between the free ones and the three tables, every
  netlink descriptor has its object, and the routing table has one entry per destination.
\<close>

theorem reachable_invariants:
  assumes "reachable E (fst (GrailApplication t a b c d e)) w"
  shows "fd_inv w \<and> nl_inv w \<and> rt_inv (rt_entries w)"
proof (intro conjI)
  show "fd_inv w" by (rule fdr.reachable_keeps [OF assms fd_inv_init])
  show "nl_inv w" by (rule nlr.reachable_keeps [OF assms nl_inv_init])
  have "rts_inv (fst (GrailApplication t a b c d e))"
    by (simp add: rts_inv_def GrailApplication_def rt_inv_def)
  from rtr.reachable_keeps [OF assms this] show "rt_inv (rt_entries w)" by (simp add: rts_inv_def)
qed

text \<open>A process whose first call is \<open>socket(AF_INET, SOCK_STREAM, 0)\<close>.\<close>

definition demo_start :: "64 word \<Rightarrow> 64 word list \<Rightarrow> nat grail" where
  "demo_start call xs = fst (GrailApplication
     \<lparr>regs = (\<lambda>p r. if r = ORIG_RAX then call else demo_args xs r), mem = demo_mem, ext = 0\<rparr>
     True False 10 True 0)"

lemma dispatch_socket: "dispatch E SYS_socket w = HandleSocket E w"
  by (simp add: dispatch_def passed_through_def)

lemma pool_first [simp]: "insert_fds (nat MAX_NUM_FDS) 100 {} \<noteq> {}"
  "Min (insert_fds (nat MAX_NUM_FDS) 100 {}) = 100"
  by (simp_all only: insert_fds_eq MAX_NUM_FDS_def, simp, intro Min_eqI) simp_all

lemma demo_socket_start:
  "\<exists>w. StartApplication demo_env 1 0 (demo_start 41 [2, 1, 0]) = Ret () w \<and> m_sockets w = [100 \<mapsto> 5]
    \<and> m_connectedSockets w = {} \<and> m_netlinks w = Map.empty \<and> m_random_fds w = {}
    \<and> cb_accept w = (\<lambda>_. None)"
  unfolding StartApplication_def DoTrace_def HandleSyscallBefore_def
  by (simp add: demo_wait NS_ASSERT_def demo_start_def GrailApplication_def get_reg_def set_reg_def
      c_int_def dispatch_socket,
    simp add: HandleSocket_def GetNextFD_def NS_ASSERT_def argv_def arg_def get_reg_def demo_args_def
      c_int_def set_ext_def FAKE_def demo_wait ProcessStatusCode_def,
    simp add: demo_env_def Schedule_def ProcessStatusCode_def)

theorem reachable_invariants_witness:
  "\<exists>w. reachable demo_env (demo_start 41 [2, 1, 0]) w \<and> m_sockets w = [100 \<mapsto> 5] \<and>
    fd_inv w \<and> nl_inv w \<and> rt_inv (rt_entries w)"
proof -
  obtain w where w: "StartApplication demo_env 1 0 (demo_start 41 [2, 1, 0]) = Ret () w"
    and s: "m_sockets w = [100 \<mapsto> 5]"
    using demo_socket_start by blast
  have r: "reachable demo_env (demo_start 41 [2, 1, 0]) w" by (rule reachable.start [OF w])
  then show ?thesis using s reachable_invariants [OF r [unfolded demo_start_def]] by blast
qed

end
