(* ===== verification/Grail_Start.thy ===== *)
theory Grail_Start
  imports Grail_Dispatch
begin

text \<open>
  How the traced program comes to life, in \<^verbatim>\<open>src/model/grail.cc\<close>: \<open>Setup\<close>, the choice of the routing
  protocol in \<open>StartApplication\<close>, the child's side of its \<open>fork\<close>, and the whole of it; and the library
  of \<^verbatim>\<open>src/novdso.c\<close> that may be loaded into the child. The file system, \<open>exec\<close> and the simulator's
  list of routing protocols are parameters.
\<close>

section \<open>Setup\<close>

definition Setup :: "(string \<Rightarrow> bool) \<Rightarrow> string list \<Rightarrow> halt + string list" where
  "Setup fileExists args =
     (case args of
        [] \<Rightarrow> Inl OutOfBounds
      | filePath # _ \<Rightarrow> if \<not> fileExists filePath then Inl ExitFailure else Inr args)"

section \<open>The routing protocol\<close>

text \<open>
  The simulator's side: which protocols are lists, the empty list, and the registration of a
  protocol with a priority.
\<close>

record 'r ipv4_lib =
  is_list :: "'r \<Rightarrow> bool"
  new_list :: 'r
  AddRoutingProtocol :: "'r \<Rightarrow> int \<Rightarrow> 'r \<Rightarrow> 'r"

definition enable_routing :: "'r ipv4_lib \<Rightarrow> 'r \<Rightarrow> 'r \<Rightarrow> 'r" where
  "enable_routing L rt oldRt =
     (if is_list L oldRt then AddRoutingProtocol L rt 100 oldRt
      else AddRoutingProtocol L rt 2 (AddRoutingProtocol L oldRt 1 (new_list L)))"

text \<open>
  What a list of protocols documents: it asks its members in the order of their priorities, the
  greatest first.
\<close>

definition list_routing_ok :: "'r ipv4_lib \<Rightarrow> ('r \<Rightarrow> ('r \<times> int) set) \<Rightarrow> bool" where
  "list_routing_ok L members \<longleftrightarrow> is_list L (new_list L) \<and> members (new_list L) = {} \<and>
     (\<forall>r k l. is_list L l \<longrightarrow> is_list L (AddRoutingProtocol L r k l) \<and>
        members (AddRoutingProtocol L r k l) = insert (r, k) (members l))"

definition asked_first :: "'r \<Rightarrow> ('r \<times> int) set \<Rightarrow> bool" where
  "asked_first r ms \<longleftrightarrow> (\<exists>k. (r, k) \<in> ms \<and> (\<forall>(q, j)\<in>ms. q \<noteq> r \<longrightarrow> j < k))"

text \<open>
  The application's routes come before those of every protocol the node had, as long as these
  have priorities below 100, and the node's own protocol stays as the next one.
\<close>

lemma enable_routing_first:
  assumes "list_routing_ok L members" and "is_list L old \<Longrightarrow> \<forall>(q, j)\<in>members old. j < 100"
  shows "asked_first rt (members (enable_routing L rt old)) \<and>
    (if is_list L old then members old \<subseteq> members (enable_routing L rt old)
     else (old, 1) \<in> members (enable_routing L rt old))"
proof (cases "is_list L old")
  case True
  then have "members (enable_routing L rt old) = insert (rt, 100) (members old)"
    using assms(1) by (simp add: enable_routing_def list_routing_ok_def)
  then show ?thesis using assms(2) True by (auto simp: asked_first_def)
next
  case False
  then have "members (enable_routing L rt old) = {(rt, 2), (old, 1)}"
    using assms(1) by (simp add: enable_routing_def list_routing_ok_def)
  then show ?thesis using False by (auto simp: asked_first_def)
qed

section \<open>The child\<close>

text \<open>The argument vector ends in a null pointer; with preloading the environment has one entry.\<close>

datatype exec_call = execvp "string option" "string option list"
  | execvpe "string option" "string option list" "string option list"

definition child_argv :: "string list \<Rightarrow> string option list" where
  "child_argv args = map Some args @ [None]"

definition newenviron :: "string option list" where
  "newenviron = [Some ''LD_PRELOAD=./build/src/grail/libnovdso.so'', None]"

definition child_exec :: "bool \<Rightarrow> string list \<Rightarrow> exec_call" where
  "child_exec enablePreloading args =
     (let argv = child_argv args in
      if \<not> enablePreloading then execvp (argv ! 0) argv
      else execvpe (argv ! 0) argv newenviron)"

text \<open>A program that passed \<open>Setup\<close> is executed with its own arguments, in their order.\<close>

lemma child_exec_args:
  assumes "Setup fileExists args = Inr args'"
  shows "child_exec False args' = execvp (Some (hd args)) (map Some args @ [None])"
    "child_exec True args' = execvpe (Some (hd args)) (map Some args @ [None]) newenviron"
  using assms
  by (auto simp: Setup_def child_exec_def child_argv_def Let_def split: list.splits if_splits)

text \<open>Preloading drops every variable of the environment but its own.\<close>

lemma newenviron_only: "Some v \<in> set newenviron \<Longrightarrow> take 11 v = ''LD_PRELOAD=''"
  by (auto simp: newenviron_def)

section \<open>The preloaded library\<close>

text \<open>
  \<^verbatim>\<open>src/novdso.c\<close> replaces four functions of the C library, which would read a page shared with
  the kernel, by the system calls they stand for.
\<close>

datatype vdso_function = vdso_gettimeofday | vdso_clock_gettime | vdso_time | vdso_getcpu

definition SYS_getcpu :: int where
  "SYS_getcpu = 309"

fun novdso :: "vdso_function \<Rightarrow> int" where
  "novdso vdso_gettimeofday = SYS_gettimeofday"
| "novdso vdso_clock_gettime = SYS_clock_gettime"
| "novdso vdso_time = SYS_time"
| "novdso vdso_getcpu = SYS_getcpu"

text \<open>The three clocks are then read from the simulation, but \<open>getcpu\<close> ends it.\<close>

lemma novdso_dispatch:
  "dispatch E (novdso vdso_gettimeofday) w = HandleGetTimeOfDay E w"
  "dispatch E (novdso vdso_clock_gettime) w = HandleClockGetTime E w"
  "dispatch E (novdso vdso_time) w = HandleTime E w"
  "dispatch E (novdso vdso_getcpu) w = Halt ExitFailure w"
  by (simp_all add: dispatch_def passed_through_def SYS_getcpu_def)

section \<open>StartApplication\<close>

text \<open>
  \<open>rt\<close> is the node's protocol before and after; \<open>child\<close> the process the \<open>fork\<close> made.
\<close>

definition GrailApplication_StartApplication ::
  "'x env \<Rightarrow> 'r ipv4_lib \<Rightarrow> bool \<Rightarrow> 'r \<Rightarrow> 'r \<Rightarrow> pid \<Rightarrow> int \<Rightarrow> 'x grail \<Rightarrow> 'r \<times> (unit, 'x grail) outcome" where
  "GrailApplication_StartApplication E L m_enableRouting rt oldRt child c w =
     (if m_enableRouting then enable_routing L rt oldRt else oldRt, StartApplication E child c w)"

text \<open>Whatever the attributes, what follows is a run of the model from its start.\<close>

lemma start_reachable:
  "snd (GrailApplication_StartApplication E L b rt old child c w0) = Ret () w \<Longrightarrow> reachable E w0 w"
  by (simp add: GrailApplication_StartApplication_def reachable.start)

end
