(* ===== verification/Grail_Table.thy ===== *)
theory Grail_Table
  imports Grail_Dispatch
begin

text \<open>
  The emulated descriptors of \<^verbatim>\<open>src/model/grail.cc\<close> against their abstract contract. The code
  keeps three tables and a pool of free numbers; a program expects one table, from which
  \<open>socket\<close>, \<open>accept\<close> and \<open>open\<close> take the least free number and \<open>close\<close> removes one. Every call
  and every callback is a step of the abstract table or leaves it alone.
\<close>

section \<open>The abstract table\<close>

datatype fd_kind = Inet sockid | NetlinkRoute nat | RandomDevice

type_synonym files = "fd \<rightharpoonup> fd_kind"

definition least_free :: "files \<Rightarrow> fd \<Rightarrow> bool" where
  "least_free T fd \<longleftrightarrow> fd \<in> {100..<200} - dom T \<and> {100..<fd} \<subseteq> dom T"

datatype table_call = Opens | Closes fd

inductive table_step :: "table_call \<Rightarrow> files \<Rightarrow> files \<Rightarrow> bool" where
  opens: "least_free T fd \<Longrightarrow> table_step Opens T (T(fd \<mapsto> f))"
| closes: "T fd \<noteq> None \<Longrightarrow> table_step (Closes fd) T (T(fd := None))"

inductive_simps table_step_simps: "table_step Opens T T'" "table_step (Closes fd) T T'"

definition some_step :: "files \<Rightarrow> files \<Rightarrow> bool" where
  "some_step T T' \<longleftrightarrow> (\<exists>l. table_step l T T')"

lemma least_free_unique: "least_free T a \<Longrightarrow> least_free T b \<Longrightarrow> a = b"
  unfolding least_free_def by (rule linorder_cases [of a b]) auto

text \<open>A step of the table never touches a descriptor that is in use, but the one it closes.\<close>

lemma table_step_other:
  "table_step l T T' \<Longrightarrow> T d = Some f \<Longrightarrow> l \<noteq> Closes d \<Longrightarrow> T' d = Some f"
  by (auto simp: least_free_def split: if_splits elim!: table_step.cases)

section \<open>The code's tables\<close>

definition files_of :: "'x grail \<Rightarrow> files" where
  "files_of w fd = (case m_sockets w fd of
     Some s \<Rightarrow> Some (Inet s)
   | None \<Rightarrow> (case m_netlinks w fd of
       Some n \<Rightarrow> Some (NetlinkRoute n)
     | None \<Rightarrow> if fd \<in> m_random_fds w then Some RandomDevice else None))"

lemma files_of_cong:
  "m_sockets w' = m_sockets w \<Longrightarrow> m_netlinks w' = m_netlinks w \<Longrightarrow> m_random_fds w' = m_random_fds w \<Longrightarrow>
   files_of w' = files_of w"
  by (rule ext) (simp add: files_of_def cong: option.case_cong)

lemma files_frame [simp]:
  "files_of (w\<lparr>tr := a1\<rparr>) = files_of w" "files_of (w\<lparr>cur_pid := a2\<rparr>) = files_of w"
  "files_of (w\<lparr>app_pid := a3\<rparr>) = files_of w" "files_of (w\<lparr>pollLoopDetector := a4\<rparr>) = files_of w"
  "files_of (w\<lparr>events := a5\<rparr>) = files_of w" "files_of (w\<lparr>ev_next := a6\<rparr>) = files_of w"
  "files_of (w\<lparr>availableFDs := b1\<rparr>) = files_of w" "files_of (w\<lparr>m_tcpSockets := b2\<rparr>) = files_of w"
  "files_of (w\<lparr>m_connectedSockets := b3\<rparr>) = files_of w" "files_of (w\<lparr>m_isListenTcpSocket := b4\<rparr>) = files_of w"
  "files_of (w\<lparr>m_nonblocking_sockets := b5\<rparr>) = files_of w"
  "files_of (w\<lparr>m_fakeAcceptedSockets := b6\<rparr>) = files_of w"
  "files_of (w\<lparr>nl_objs := c1\<rparr>) = files_of w" "files_of (w\<lparr>nl_next := c2\<rparr>) = files_of w"
  "files_of (set_ext x w) = files_of w" "files_of (Schedule E d f w) = files_of w"
  by (rule files_of_cong; simp add: set_ext_def Schedule_def)+

lemma dom_files: "dom (files_of w) = dom (m_sockets w) \<union> dom (m_netlinks w) \<union> m_random_fds w"
  by (auto simp: files_of_def split: option.splits if_splits)

lemma files_None: "files_of w fd = None \<longleftrightarrow>
    m_sockets w fd = None \<and> m_netlinks w fd = None \<and> fd \<notin> m_random_fds w"
  by (simp add: files_of_def split: option.splits)

lemma emulated_files: "FdIsEmulatedSocket fd w \<longleftrightarrow> files_of w fd \<noteq> None"
  by (simp add: FdIsEmulatedSocket_def files_None)

lemma files_enter:
  "files_of (w\<lparr>m_sockets := (m_sockets w)(fd \<mapsto> s)\<rparr>) = (files_of w)(fd \<mapsto> Inet s)"
  "m_sockets w fd = None \<Longrightarrow>
   files_of (w\<lparr>m_netlinks := (m_netlinks w)(fd \<mapsto> n)\<rparr>) = (files_of w)(fd \<mapsto> NetlinkRoute n)"
  "m_sockets w fd = None \<Longrightarrow> m_netlinks w fd = None \<Longrightarrow>
   files_of (w\<lparr>m_random_fds := insert fd (m_random_fds w)\<rparr>) = (files_of w)(fd \<mapsto> RandomDevice)"
  by (auto simp: files_of_def fun_eq_iff split: option.splits)

text \<open>The pool is what the table leaves free.\<close>

lemma pool_free: "fd_inv w \<Longrightarrow> availableFDs w = {100..<200} - dom (files_of w)"
  unfolding fd_inv_def dom_files MAX_NUM_FDS_def by simp blast

lemma pool_least:
  assumes "fd_inv w" and "availableFDs w \<noteq> {}"
  shows "least_free (files_of w) (Min (availableFDs w))"
proof -
  have fin: "finite (availableFDs w)" using assms(1) by (rule fd_inv_finite)
  then have m: "Min (availableFDs w) \<in> availableFDs w" using assms(2) by (rule Min_in)
  have "d \<in> dom (files_of w)" if "d \<in> {100..<Min (availableFDs w)}" for d
  proof (rule ccontr)
    assume "d \<notin> dom (files_of w)"
    moreover have "d < 200" using that fd_inv_range [OF assms(1) m] by simp
    ultimately have "d \<in> availableFDs w" using that unfolding pool_free [OF assms(1)] by simp
    then show False using Min_le [OF fin, of d] that by simp
  qed
  moreover have "Min (availableFDs w) \<in> {100..<200} - dom (files_of w)"
    using m unfolding pool_free [OF assms(1)] .
  ultimately show ?thesis unfolding least_free_def by blast
qed

section \<open>Two predicates on states\<close>

text \<open>
  \<open>settled T\<close>: the code's tables are consistent and stand for \<open>T\<close>. \<open>stepped L T\<close>: they stand for
  \<open>T\<close> or for the result of one step from \<open>T\<close> with a label in \<open>L\<close>.
\<close>

definition settled :: "files \<Rightarrow> 'x grail \<Rightarrow> bool" where
  "settled T w \<longleftrightarrow> fd_inv w \<and> files_of w = T"

definition stepped :: "table_call set \<Rightarrow> files \<Rightarrow> 'x grail \<Rightarrow> bool" where
  "stepped L T w \<longleftrightarrow> files_of w = T \<or> (\<exists>l\<in>L. table_step l T (files_of w))"

lemma settled_stepped: "settled T w \<Longrightarrow> stepped L T w"
  by (simp add: settled_def stepped_def)

lemma stepped_mono: "stepped L T w \<Longrightarrow> L \<subseteq> M \<Longrightarrow> stepped M T w"
  by (auto simp: stepped_def)

lemma settled_cong: "fd_inv w' = fd_inv w \<Longrightarrow> files_of w' = files_of w \<Longrightarrow> settled T w \<Longrightarrow> settled T w'"
  by (simp add: settled_def)

lemma stepped_cong: "files_of w' = files_of w \<Longrightarrow> stepped L T w \<Longrightarrow> stepped L T w'"
  by (simp add: stepped_def)

lemma files_of_Cancel [simp]: "files_of (Cancel u w) = files_of w"
  by (rule files_of_cong; simp add: Cancel_def split: option.split)

lemma fd_inv_events [simp]:
  "fd_inv (Schedule E d f w) = fd_inv w" "fd_inv (Cancel u w) = fd_inv w"
  by (simp_all add: Schedule_def Cancel_def split: option.split)

interpretation st: priv_invariant "settled T" for T
proof unfold_locales
  show "settled T w \<Longrightarrow> settled T (Schedule E d f w)" "settled T w \<Longrightarrow> settled T (Cancel u w)"
    for w :: "'a grail" and E d f u by (simp_all add: settled_def)
qed (erule settled_cong [rotated 2], simp, rule files_of_cong, simp_all)+

interpretation tb: frame_invariant "stepped L T" for L T
proof unfold_locales
  show "stepped L T w \<Longrightarrow> stepped L T (Schedule E d f w)" "stepped L T w \<Longrightarrow> stepped L T (Cancel u w)"
    for w :: "'a grail" and E d f u by (simp_all add: stepped_def)
qed (erule stepped_cong [rotated], rule files_of_cong, simp_all add: put_nl_def Schedule_def)+

section \<open>Taking and giving back a descriptor\<close>

lemma keeps_stepped_next:
  assumes "settled T w"
    and "\<And>fd w'. least_free T fd \<Longrightarrow> files_of w' = T \<Longrightarrow> keeps (stepped {Opens} T) (k fd w')"
  shows "keeps (stepped {Opens} T) (and_then (GetNextFD w) k)"
proof (cases "GetNextFD w")
  case (Ret fd w')
  from GetNextFD_Ret [OF Ret] have fd: "availableFDs w \<noteq> {}" "fd = Min (availableFDs w)"
    "w' = w\<lparr>availableFDs := availableFDs w - {fd}\<rparr>" by simp_all
  then have "least_free T fd" using assms(1) pool_least by (auto simp: settled_def)
  moreover have "files_of w' = T"
    using assms(1) unfolding fd(3) settled_def by simp
  ultimately show ?thesis using assms(2) Ret by simp
qed simp

lemma stepped_open: "least_free T fd \<Longrightarrow> files_of w' = T(fd \<mapsto> f) \<Longrightarrow> stepped {Opens} T w'"
  by (auto simp: stepped_def table_step_simps)

lemma least_free_None: "least_free T fd \<Longrightarrow> T fd = None"
  by (auto simp: least_free_def)

lemma stepped_enter:
  assumes "least_free T fd" and "files_of w = T"
  shows "stepped {Opens} T (w\<lparr>m_sockets := (m_sockets w)(fd \<mapsto> s)\<rparr>)"
    "stepped {Opens} T (w\<lparr>m_netlinks := (m_netlinks w)(fd \<mapsto> n)\<rparr>)"
    "stepped {Opens} T (w\<lparr>m_random_fds := insert fd (m_random_fds w)\<rparr>)"
proof -
  have none: "m_sockets w fd = None" "m_netlinks w fd = None"
    using least_free_None [OF assms(1)] unfolding assms(2) [symmetric] files_None by simp_all
  show "stepped {Opens} T (w\<lparr>m_sockets := (m_sockets w)(fd \<mapsto> s)\<rparr>)"
    "stepped {Opens} T (w\<lparr>m_netlinks := (m_netlinks w)(fd \<mapsto> n)\<rparr>)"
    "stepped {Opens} T (w\<lparr>m_random_fds := insert fd (m_random_fds w)\<rparr>)"
    by (rule stepped_open [OF assms(1)], simp add: none files_enter assms(2))+
qed

text \<open>A new connection is entered in three sets, only one of which is a table.\<close>

lemma stepped_connection:
  "least_free T fd \<Longrightarrow> files_of w = T \<Longrightarrow> stepped {Opens} T (enter_connection fd s w)"
  by (rule stepped_cong [OF _ stepped_enter(1) [of T fd w s]])
    (simp_all add: enter_connection_def)

lemma stepped_close:
  assumes "settled T w" and "T fd \<noteq> None"
    and "m_sockets w' = (m_sockets w)(fd := None)" and "m_netlinks w' = (m_netlinks w)(fd := None)"
    and "m_random_fds w' = m_random_fds w - {fd}"
  shows "stepped {Closes fd} T w'"
proof -
  have T: "T = files_of w" using assms(1) by (simp add: settled_def)
  have "files_of w' d = (T(fd := None)) d" for d
    unfolding T by (cases "d = fd") (simp_all add: files_of_def assms(3-5) cong: option.case_cong)
  then have "files_of w' = T(fd := None)" by (rule ext)
  then show ?thesis using assms(2) by (auto simp: stepped_def table_step_simps)
qed

section \<open>The five calls\<close>

lemma stepped_FAKE [simp]:
  "stepped L T w \<Longrightarrow> keeps (stepped L T) (FAKE E p v w (Ret r))"
  "stepped L T w \<Longrightarrow> keeps (stepped L T) (HandleSyscallAfter E w)"
  by (intro tb.keeps_FAKE tb.keeps_After, simp_all)+

lemma open_steps:
  assumes "settled T w"
  shows "keeps (stepped {Opens} T) (HandleOpen E w)" "keeps (stepped {Opens} T) (HandleOpenAt E w)"
proof -
  have "keeps (stepped {Opens} T) (open_path E a w)" for a
    by (simp add: open_path_def Let_def keeps_stepped_next [OF assms] stepped_enter
        settled_stepped [OF assms])
  then show "keeps (stepped {Opens} T) (HandleOpen E w)" "keeps (stepped {Opens} T) (HandleOpenAt E w)"
    unfolding HandleOpen_def HandleOpenAt_def by blast+
qed

lemma stepped_socket:
  assumes "least_free T fd" and "files_of w = T"
  shows "stepped {Opens} T (w\<lparr>m_sockets := (m_sockets w)(fd \<mapsto> s), m_tcpSockets := t\<rparr>)"
    "stepped {Opens} T (w\<lparr>m_netlinks := (m_netlinks w)(fd \<mapsto> n), nl_objs := os, nl_next := k\<rparr>)"
  by (rule stepped_cong [OF _ stepped_enter(1) [OF assms, of s]], simp)
    (rule stepped_cong [OF _ stepped_enter(2) [OF assms, of n]], simp)

lemma socket_steps: "settled T w \<Longrightarrow> keeps (stepped {Opens} T) (HandleSocket E w)"
  unfolding HandleSocket_def Let_def split_def
  by (assumption | rule keeps_if keeps_stepped_next stepped_FAKE stepped_enter stepped_socket
      st.keep_set_ext settled_stepped)+

lemma named_step:
  assumes "settled T w"
    and "\<And>fd w'. least_free T fd \<Longrightarrow> files_of w' = T \<Longrightarrow> keeps (stepped {Opens} T) (k fd w')"
  shows "keeps (stepped {Opens} T) (and_then (SetBsdAddress E ad a l w) (\<lambda>_ w. and_then (GetNextFD w) k))"
proof (cases "SetBsdAddress E ad a l w")
  case (Ret b w1)
  then have "settled T w1" by (rule keepsD [OF st.keeps_SetBsdAddress [OF assms(1)]])
  then show ?thesis using Ret keeps_stepped_next [OF _ assms(2)] by simp
qed simp

lemma accept_steps:
  assumes "settled T w"
  shows "keeps (stepped {Opens} T) (HandleAccept E w)"
    "keeps (stepped {Opens} T) (accept_callback E a l p s ad w)"
proof -
  have "settled T (w\<lparr>m_fakeAcceptedSockets := z\<rparr>)" for z
    using assms by (rule settled_cong [rotated 2]) simp_all
  then show "keeps (stepped {Opens} T) (HandleAccept E w)"
    by (simp add: HandleAccept_def Let_def NS_ASSERT_def named_step stepped_connection socket_at_def
        settled_stepped [OF assms] tb.I_callbacks split: option.split)
  show "keeps (stepped {Opens} T) (accept_callback E a l p s ad w)"
    unfolding accept_callback_def Let_def
    by (intro named_step assms tb.keeps_FAKE2 tb.keeps_ProcessStatusCode)
      (simp add: stepped_connection tb.I_tr)
qed

text \<open>\<open>close\<close> of a descriptor that is in one of the tables takes it out of that one.\<close>

lemma close_steps:
  assumes "settled T w"
  shows "keeps (stepped {Closes (c_int (argv 1 w))} T) (HandleClose E w)"
proof -
  define fd where "fd = c_int (argv 1 w)"
  have disj: "m_sockets w fd = Some s \<Longrightarrow> m_netlinks w fd = None \<and> fd \<notin> m_random_fds w"
    "m_netlinks w fd = Some n \<Longrightarrow> fd \<notin> m_random_fds w" for s n
    using assms unfolding settled_def fd_inv_def by blast+
  have T: "T fd \<noteq> None \<longleftrightarrow> FdIsEmulatedSocket fd w"
    using assms by (simp add: settled_def emulated_files)
  have step: "stepped {Closes fd} T w'"
    if "FdIsEmulatedSocket fd w" "m_sockets w' = (m_sockets w)(fd := None)"
      "m_netlinks w' = (m_netlinks w)(fd := None)" "m_random_fds w' = m_random_fds w - {fd}" for w'
    using stepped_close [OF assms] that T by blast
  show ?thesis
    unfolding HandleClose_def Let_def fd_def [symmetric]
    using disj by (auto simp: settled_stepped [OF assms] Schedule_def set_ext_def fun_upd_idem_iff
        split: option.split intro!: stepped_FAKE step)
qed

section \<open>The switch and the run\<close>

text \<open>What a call may do to the table.\<close>

definition table_calls :: "int \<Rightarrow> 'x grail \<Rightarrow> table_call set" where
  "table_calls c w =
     (if c \<in> {SYS_open, SYS_openat, SYS_socket, SYS_accept} then {Opens}
      else if c = SYS_close then {Closes (c_int (argv 1 w))}
      else {})"

lemma dispatch_steps: "settled T w \<Longrightarrow> keeps (stepped (table_calls c w) T) (dispatch E c w)"
  by (rule tb.keeps_dispatch_but)
    (simp_all add: settled_stepped table_calls_def open_steps close_steps socket_steps accept_steps
      del: One_nat_def)

lemma keeps_mono: "keeps I r \<Longrightarrow> (\<And>w. I w \<Longrightarrow> J w) \<Longrightarrow> keeps J r"
  by (cases r) simp_all

lemma keeps_any:
  "keeps (stepped L T) r \<Longrightarrow> keeps (stepped UNIV T) r"
  by (erule keeps_mono) (erule stepped_mono, simp)

lemma before_steps: "settled T w \<Longrightarrow> keeps (stepped UNIV T) (HandleSyscallBefore E p w)"
proof -
  assume w: "settled T w"
  have s: "settled T (w\<lparr>cur_pid := p, tr := t\<rparr>)" "settled T (w\<lparr>cur_pid := p, tr := t, pollLoopDetector := d\<rparr>)"
    for t d by (rule settled_cong [OF _ _ w]; simp)+
  have "keeps (stepped UNIV T) (and_then (dispatch E c v) (\<lambda>res w. ProcessStatusCode E res p w))"
    if "settled T v" for c v
    by (rule keeps_and_then [OF keeps_any [OF dispatch_steps [OF that]] tb.keeps_ProcessStatusCode])
  then show ?thesis
    unfolding HandleSyscallBefore_def Let_def using s
    by (simp add: settled_stepped split: option.split prod.split)
qed

lemma start_steps: "settled T w \<Longrightarrow> keeps (stepped UNIV T) (StartApplication E child c w)"
  unfolding StartApplication_def DoTrace_def
  by (intro keeps_NS_ASSERT before_steps) (rule settled_cong [rotated 2], assumption, simp_all)

lemma event_steps: "settled T w \<Longrightarrow> keeps (stepped UNIV T) (run_event E ev w)"
  unfolding run_event_def
  by (cases ev) (simp_all add: before_steps settled_stepped tb.keep_set_ext tb.keeps_nanosleep_event
      tb.keeps_select_callbacks)

lemma notify_steps:
  assumes "settled T w"
  shows "keeps (stepped UNIV T) (notify_recv E s w)" "keeps (stepped UNIV T) (notify_send E s w)"
    "keeps (stepped UNIV T) (notify_connect E s ok w)" "keeps (stepped UNIV T) (notify_accept E s s2 ad w)"
proof -
  have w: "stepped UNIV T w" using assms by (rule settled_stepped)
  show "keeps (stepped UNIV T) (notify_recv E s w)" "keeps (stepped UNIV T) (notify_send E s w)"
    "keeps (stepped UNIV T) (notify_connect E s ok w)"
    unfolding notify_recv_def notify_send_def notify_connect_def
    using w by (simp_all add: tb.keeps_files tb.keeps_transfer tb.keeps_connections tb.keeps_select_callbacks
        split: option.split recv_cb.split send_cb.split connect_cb.split)
  show "keeps (stepped UNIV T) (notify_accept E s s2 ad w)"
    unfolding notify_accept_def
    using w by (simp add: tb.keeps_connections tb.keeps_select_callbacks keeps_any [OF accept_steps(2) [OF assms]]
        split: option.split accept_cb.split)
qed

lemma sim_step_steps: "sim_step E w w' \<Longrightarrow> settled T w \<Longrightarrow> stepped UNIV T w'"
proof (induction rule: sim_step.induct)
  case (step_event w e w')
  have "settled T (w\<lparr>events := remove1 e (events w)\<rparr>)"
    by (rule settled_cong [OF _ _ step_event(5)]) simp_all
  then show ?case by (rule keepsD [OF event_steps step_event(4)])
next
  case (step_recv sock w w')
  then show ?case using keepsD [OF notify_steps(1)] by metis
next
  case (step_send sock w w')
  then show ?case using keepsD [OF notify_steps(2)] by metis
next
  case (step_accept sock s2 ad w w')
  then show ?case using keepsD [OF notify_steps(4)] by metis
next
  case (step_connect sock ok w w')
  then show ?case using keepsD [OF notify_steps(3)] by metis
next
  case (step_simulator w x)
  then show ?case by (intro settled_stepped st.keep_set_ext)
qed

lemma stepped_some: "stepped UNIV T w \<longleftrightarrow> files_of w = T \<or> some_step T (files_of w)"
  by (simp add: stepped_def some_step_def)

section \<open>Properties\<close>

text \<open>
  (C24) Every call implements at most one operation of the abstract table: \<open>socket\<close>, \<open>open\<close>,
  \<open>openat\<close> and \<open>accept\<close> may enter one new file at the least free number, \<open>close\<close> may remove the
  descriptor of its argument, and all other calls, whatever they do, leave the table as it is.
\<close>

theorem calls_refine_table:
  assumes "fd_inv w" and "dispatch E c w = Ret r w'"
  shows "files_of w' = files_of w \<or> (\<exists>l\<in>table_calls c w. table_step l (files_of w) (files_of w'))"
proof -
  have "settled (files_of w) w" using assms(1) by (simp add: settled_def)
  from keepsD [OF dispatch_steps [OF this] assms(2)] show ?thesis by (simp add: stepped_def)
qed

lemma demo_socket_call:
  "\<exists>w'. dispatch demo_env SYS_socket (demo_state [2, 1, 0]) = Ret SYSC_SUCCESS w' \<and> m_sockets w' = [100 \<mapsto> 5]"
  unfolding dispatch_socket
  by (simp add: HandleSocket_def GetNextFD_def NS_ASSERT_def argv_def arg_def get_reg_def demo_args_def
      demo_state_def GrailApplication_def c_int_def set_ext_def FAKE_def demo_wait,
    simp add: demo_env_def)

theorem calls_refine_table_witness:
  "\<exists>w'. dispatch demo_env SYS_socket (demo_state [2, 1, 0]) = Ret SYSC_SUCCESS w' \<and>
     files_of w' 100 = Some (Inet 5) \<and> table_step Opens (files_of (demo_state [2, 1, 0])) (files_of w')"
proof -
  obtain w' where w': "dispatch demo_env SYS_socket (demo_state [2, 1, 0]) = Ret SYSC_SUCCESS w'"
    "m_sockets w' = [100 \<mapsto> 5]" using demo_socket_call by blast
  have f: "files_of w' 100 = Some (Inet 5)" "files_of (demo_state [2, 1, 0]) 100 = None"
    using w'(2) by (simp_all add: files_of_def demo_state_def GrailApplication_def)
  have inv: "fd_inv (demo_state [2, 1, 0])" using fd_inv_init by (simp add: demo_state_def)
  have "files_of w' \<noteq> files_of (demo_state [2, 1, 0])" using f by (metis option.distinct(1))
  then have "table_step Opens (files_of (demo_state [2, 1, 0])) (files_of w')"
    using calls_refine_table [OF inv w'(1)] by (simp add: table_calls_def)
  then show ?thesis using w'(1) f(1) by blast
qed

text \<open>
  (C2) The program simulates the abstract table: from start-up on, through any order of
  scheduled events and socket callbacks, what the descriptors stand for is reached from the empty
  table by its operations, and each step of the program is one of them or none.
\<close>

theorem program_refines_table:
  assumes "reachable E (fst (GrailApplication t a b c d e)) w"
  shows "some_step\<^sup>*\<^sup>* Map.empty (files_of w) \<and>
    (\<forall>w'. sim_step E w w' \<longrightarrow> files_of w' = files_of w \<or> some_step (files_of w) (files_of w'))"
proof
  have inv: "fd_inv v" if "reachable E (fst (GrailApplication t a b c d e)) v" for v
    by (rule fdr.reachable_keeps [OF that fd_inv_init])
  have step: "files_of v' = files_of v \<or> some_step (files_of v) (files_of v')"
    if "reachable E (fst (GrailApplication t a b c d e)) v" "sim_step E v v'" for v v'
    using sim_step_steps [OF that(2), of "files_of v"] inv [OF that(1)] stepped_some
    by (auto simp: settled_def)
  then show "\<forall>w'. sim_step E w w' \<longrightarrow> files_of w' = files_of w \<or> some_step (files_of w) (files_of w')"
    using assms by blast
  show "some_step\<^sup>*\<^sup>* Map.empty (files_of w)"
    using assms
  proof (induction rule: reachable.induct)
    case (start child k w)
    have "files_of (fst (GrailApplication t a b c d e)) = Map.empty"
      by (rule ext) (simp add: files_of_def GrailApplication_def)
    then have "settled Map.empty (fst (GrailApplication t a b c d e))"
      using fd_inv_init by (simp add: settled_def)
    from keepsD [OF start_steps [OF this] start] show ?case by (auto simp: stepped_some)
  next
    case (next_step w w')
    then show ?case using step by (metis rtranclp.rtrancl_into_rtrancl)
  qed
qed

theorem program_refines_table_witness:
  "\<exists>w. reachable demo_env (demo_start 41 [2, 1, 0]) w \<and> files_of w 100 = Some (Inet 5) \<and>
     some_step\<^sup>*\<^sup>* Map.empty (files_of w)"
proof -
  obtain w where w: "StartApplication demo_env 1 0 (demo_start 41 [2, 1, 0]) = Ret () w"
    and s: "m_sockets w = [100 \<mapsto> 5]"
    using demo_socket_start by blast
  have r: "reachable demo_env (demo_start 41 [2, 1, 0]) w" by (rule reachable.start [OF w])
  have "files_of w 100 = Some (Inet 5)" using s by (simp add: files_of_def)
  then show ?thesis using r program_refines_table [OF r [unfolded demo_start_def]] by blast
qed

end
