(* ===== verification/Grail_Isolation.thy ===== *)
theory Grail_Isolation
  imports Grail_Dispatch
begin

text \<open>
  The emulated calls do not depend on the kernel. Two environments that differ in nothing but
  what the traced process does when it is resumed, and that agree on a pending \<open>getpid\<close>, give
  every emulated call the same answer and the same new state: what a handler lets the kernel run
  is \<open>getpid\<close> and nothing else.
\<close>

section \<open>Another kernel\<close>

abbreviation other_kernel ::
  "'x env \<Rightarrow> (pid \<Rightarrow> 'x tracee \<Rightarrow> 32 word option \<times> 'x tracee) \<Rightarrow> 32 word \<Rightarrow> 'x env" where
  "other_kernel E k j \<equiv> E\<lparr>k_wait := k, k_junk := j\<rparr>"

definition alike_on_getpid ::
  "'x env \<Rightarrow> (pid \<Rightarrow> 'x tracee \<Rightarrow> 32 word option \<times> 'x tracee) \<Rightarrow> 32 word \<Rightarrow> bool" where
  "alike_on_getpid E k j \<longleftrightarrow>
     (\<forall>p t. get_reg p ORIG_RAX t = c_reg SYS_getpid \<longrightarrow>
        WaitForSyscall (other_kernel E k j) p t = WaitForSyscall E p t)"

named_theorems iso_simps

lemma iso_fields [iso_simps]:
  "e_Now (other_kernel E k j) = e_Now E"
  "e_CreateSocket (other_kernel E k j) = e_CreateSocket E"
  "e_Close (other_kernel E k j) = e_Close E"
  "e_GetRxAvailable (other_kernel E k j) = e_GetRxAvailable E"
  "e_GetTxAvailable (other_kernel E k j) = e_GetTxAvailable E"
  "e_Recv (other_kernel E k j) = e_Recv E"
  "e_RecvFrom (other_kernel E k j) = e_RecvFrom E"
  "e_Send (other_kernel E k j) = e_Send E"
  "e_SendTo (other_kernel E k j) = e_SendTo E"
  "e_Bind (other_kernel E k j) = e_Bind E"
  "e_Listen (other_kernel E k j) = e_Listen E"
  "e_Connect (other_kernel E k j) = e_Connect E"
  "e_GetSockName (other_kernel E k j) = e_GetSockName E"
  "e_GetPeerName (other_kernel E k j) = e_GetPeerName E"
  "e_SetAllowBroadcast (other_kernel E k j) = e_SetAllowBroadcast E"
  "e_GetAllowBroadcast (other_kernel E k j) = e_GetAllowBroadcast E"
  "e_GetAttribute (other_kernel E k j) = e_GetAttribute E"
  "e_IsTcp (other_kernel E k j) = e_IsTcp E"
  "e_Random (other_kernel E k j) = e_Random E"
  "e_NDevices (other_kernel E k j) = e_NDevices E"
  "e_Device (other_kernel E k j) = e_Device E"
  "e_IsLinkUp (other_kernel E k j) = e_IsLinkUp E"
  "e_IsBroadcast (other_kernel E k j) = e_IsBroadcast E"
  "e_IsMulticast (other_kernel E k j) = e_IsMulticast E"
  "e_IsPointToPoint (other_kernel E k j) = e_IsPointToPoint E"
  "e_GetMtu (other_kernel E k j) = e_GetMtu E"
  "e_InterfaceForDevice (other_kernel E k j) = e_InterfaceForDevice E"
  "e_ifLocal (other_kernel E k j) = e_ifLocal E"
  "e_ifBroadcast (other_kernel E k j) = e_ifBroadcast E"
  "e_ifMask (other_kernel E k j) = e_ifMask E"
  "e_PrefixLength (other_kernel E k j) = e_PrefixLength E"
  "e_Ipv4Address (other_kernel E k j) = e_Ipv4Address E"
  "e_Print (other_kernel E k j) = e_Print E"
  "e_nlmsg_ok (other_kernel E k j) = e_nlmsg_ok E"
  "e_nlmsg_next (other_kernel E k j) = e_nlmsg_next E"
  "e_nlmsg_hdr (other_kernel E k j) = e_nlmsg_hdr E"
  "e_junk (other_kernel E k j) = e_junk E"
  "e_reno (other_kernel E k j) = e_reno E"
  by simp_all

lemma iso_base [iso_simps]:
  "Schedule (other_kernel E k j) = Schedule E" "uninit (other_kernel E k j) = uninit E"
  "ProcessStatusCode (other_kernel E k j) = ProcessStatusCode E"
  by (simp_all add: fun_eq_iff Schedule_def uninit_def ProcessStatusCode_def)

lemma iso_FAKE:
  assumes "alike_on_getpid E k j"
  shows "FAKE (other_kernel E k j) = FAKE E" "FAKE2 (other_kernel E k j) = FAKE2 E"
    "FAKE4 (other_kernel E k j) = FAKE4 E"
  using assms by (simp_all add: alike_on_getpid_def FAKE_def FAKE2_def FAKE4_def fun_eq_iff)

section \<open>Helpers that do not wait\<close>

lemma iso_random [iso_simps]: "random_bytes (other_kernel E k j) = random_bytes E"
proof (intro ext)
  show "random_bytes (other_kernel E k j) n x = random_bytes E n x" for n x
    by (induction n arbitrary: x) (simp_all add: Let_def split_def)
qed

lemma iso_address [iso_simps]:
  "GetNs3Address (other_kernel E k j) = GetNs3Address E"
  "SetBsdAddress (other_kernel E k j) = SetBsdAddress E"
  "MakeBsdAddress (other_kernel E k j) = MakeBsdAddress E"
  "BsdInAddr4ToNs3Address (other_kernel E k j) = BsdInAddr4ToNs3Address E"
  unfolding fun_eq_iff GetNs3Address_def SetBsdAddress_def MakeBsdAddress_def
    BsdInAddr4ToNs3Address_def iso_simps by simp_all

lemma iso_devices [iso_simps]:
  "find_device (other_kernel E k j) = find_device E" "ifr_flags (other_kernel E k j) = ifr_flags E"
  "wifi_by_name (other_kernel E k j) = wifi_by_name E"
  unfolding fun_eq_iff wifi_by_name_def GetNetDeviceByName_def find_device_def ifr_flags_def iso_simps
  by simp_all

lemma iso_route_attr [iso_simps]: "route_attr (other_kernel E k j) = route_attr E"
  unfolding fun_eq_iff route_attr_def iso_simps by simp

lemma iso_rta_loop [iso_simps]: "rta_loop (other_kernel E k j) = rta_loop E"
proof (intro ext)
  show "rta_loop (other_kernel E k j) i buf cur r a = rta_loop E i buf cur r a" for i buf cur r a
  proof (induction E i buf cur r a rule: rta_loop.induct)
    case (1 E i buf cur r a)
    show ?case
      unfolding rta_loop.simps [of "other_kernel E k j" i buf cur r a] rta_loop.simps [of E i buf cur r a]
        iso_route_attr
      using "1.IH" [OF _ _ refl] by (simp add: Let_def split: sum.split)
  qed
qed

lemma iso_replies [iso_simps]:
  "link_reply (other_kernel E k j) = link_reply E" "addr_reply (other_kernel E k j) = addr_reply E"
  "ack_msg (other_kernel E k j) = ack_msg E"
  unfolding fun_eq_iff link_reply_def addr_reply_def ack_msg_def iso_simps by simp_all

lemma iso_dumps [iso_simps]:
  "GETLINK_loop (other_kernel E k j) = GETLINK_loop E"
  "GETADDR_loop (other_kernel E k j) = GETADDR_loop E"
proof -
  have "GETLINK_loop (other_kernel E k j) x i n c s = GETLINK_loop E x i n c s" for x i n c s
    by (induction n arbitrary: i c s)
      (simp_all add: iso_simps split_def Let_def split: option.split)
  moreover have "GETADDR_loop (other_kernel E k j) x i n s = GETADDR_loop E x i n s" for x i n s
    by (induction n arbitrary: i s) (simp_all add: iso_simps Let_def)
  ultimately show "GETLINK_loop (other_kernel E k j) = GETLINK_loop E"
    and "GETADDR_loop (other_kernel E k j) = GETADDR_loop E"
    by (simp_all add: fun_eq_iff)
qed

lemma iso_process [iso_simps]:
  "ProcessNlmsghdr (other_kernel E k j) = ProcessNlmsghdr E"
  unfolding fun_eq_iff ProcessNlmsghdr_def ROUTE_request_def iso_simps by simp

lemma nlmsg_loop_same_env:
  assumes "ProcessNlmsghdr E' = ProcessNlmsghdr E" and "e_nlmsg_ok E' = e_nlmsg_ok E"
    and "e_nlmsg_next E' = e_nlmsg_next E" and "nlmsg_loop E cb n buf off rem w = Some r"
  shows "nlmsg_loop E' cb n buf off rem w = Some r"
proof -
  define P where "P F cb n buf off rem w r \<longleftrightarrow>
      (ProcessNlmsghdr E' = ProcessNlmsghdr F \<and> e_nlmsg_ok E' = e_nlmsg_ok F \<and>
       e_nlmsg_next E' = e_nlmsg_next F \<longrightarrow> nlmsg_loop E' cb n buf off rem w = Some r)"
    for F cb n buf off rem w r
  have "P E cb n buf off rem w r"
  proof (rule nlmsg_loop.raw_induct [OF _ assms(4), of P])
    fix f F cb n buf off rem w r
    assume IH: "\<And>F cb n buf off rem w r. f F cb n buf off rem w = Some r \<Longrightarrow> P F cb n buf off rem w r"
      and step: "(let nlmsg_len = le_nat (take 4 (drop off buf)) in
        if e_nlmsg_ok F nlmsg_len rem then
          case ProcessNlmsghdr F cb n buf off w of
            Ret x w1 \<Rightarrow> f F cb n buf (off + fst (e_nlmsg_next F nlmsg_len rem))
              (snd (e_nlmsg_next F nlmsg_len rem)) w1
          | Halt h w1 \<Rightarrow> Some (Halt h w1)
        else Some (Ret rem w)) = Some r"
    show "P F cb n buf off rem w r"
      unfolding P_def nlmsg_loop.simps [of E' cb n buf off rem w] Let_def
      using step IH by (auto simp: Let_def P_def split: outcome.splits if_splits)
  qed
  then show ?thesis using assms(1-3) by (simp add: P_def)
qed

lemma iso_nlmsg_loop [iso_simps]: "nlmsg_loop (other_kernel E k j) = nlmsg_loop E"
proof (intro ext)
  fix cb n buf off rem w
  note same = nlmsg_loop_same_env [where cb = cb and n = n and buf = buf and off = off and rem = rem and w = w]
  show "nlmsg_loop (other_kernel E k j) cb n buf off rem w = nlmsg_loop E cb n buf off rem w"
    using same [of "other_kernel E k j" E] same [of E "other_kernel E k j"]
    by (cases "nlmsg_loop E cb n buf off rem w"; cases "nlmsg_loop (other_kernel E k j) cb n buf off rem w")
      (simp_all add: iso_simps)
qed

section \<open>The handlers\<close>

lemma iso_socket_options:
  assumes "alike_on_getpid E k j"
  shows "reply_opt (other_kernel E k j) = reply_opt E"
    "reply_attribute (other_kernel E k j) = reply_attribute E"
    "fake_failure (other_kernel E k j) = fake_failure E"
    "device_request (other_kernel E k j) = device_request E"
  unfolding fun_eq_iff reply_opt_def reply_attribute_def fake_failure_def device_request_def
    iso_simps iso_FAKE [OF assms] by simp_all

lemma iso_netlink:
  assumes "alike_on_getpid E k j"
  shows "NetlinkSocket (other_kernel E k j) = NetlinkSocket E"
    "nl_HandleBind (other_kernel E k j) = nl_HandleBind E"
    "nl_HandleGetSockName (other_kernel E k j) = nl_HandleGetSockName E"
    "nl_HandleRecvMsg (other_kernel E k j) = nl_HandleRecvMsg E"
    "nl_HandleSendTo (other_kernel E k j) = nl_HandleSendTo E"
  unfolding fun_eq_iff NetlinkSocket_def nl_HandleBind_def nl_HandleGetSockName_def
    nl_HandleRecvMsg_def nl_HandleSendTo_def run_nlmsgs_def iso_simps iso_FAKE [OF assms] by simp_all

lemma iso_sendmsg:
  assumes "alike_on_getpid E k j"
  shows "nl_HandleSendMsg (other_kernel E k j) = nl_HandleSendMsg E"
proof -
  have "iov_loop (other_kernel E k j) cb n iovp i total = iov_loop E cb n iovp i total"
    for cb n iovp i total
  proof (induction i arbitrary: iovp total)
    case (Suc i)
    then show ?case by (intro ext) (simp add: run_nlmsgs_def iso_simps Let_def)
  qed (simp add: fun_eq_iff)
  then show ?thesis
    unfolding fun_eq_iff nl_HandleSendMsg_def iso_FAKE [OF assms] by simp
qed

lemma iso_callbacks:
  assumes "alike_on_getpid E k j"
  shows "read_callback (other_kernel E k j) = read_callback E"
    "recvfrom_callback (other_kernel E k j) = recvfrom_callback E"
    "select_netlink_callback (other_kernel E k j) = select_netlink_callback E"
  unfolding fun_eq_iff read_callback_def recvfrom_callback_def select_netlink_callback_def
    select_result_def iso_simps iso_FAKE [OF assms] by simp_all

lemma iso_select:
  assumes "alike_on_getpid E k j"
  shows "HandleSelect (other_kernel E k j) = HandleSelect E"
proof -
  have 1: "pass1_sockets (other_kernel E k j) s w kvs = pass1_sockets E s w kvs" for s w kvs
    by (induction kvs) (auto simp: iso_simps)
  have 2: "sockets_loop (other_kernel E k j) s n kvs vw = sockets_loop E s n kvs vw" for s n kvs vw
    by (induction kvs arbitrary: vw) (auto simp: Let_def socket_write_def socket_read_def iso_simps)
  show ?thesis
    unfolding fun_eq_iff HandleSelect_def pass1_def 1 2 select_finish_def iso_simps iso_FAKE [OF assms]
    by simp
qed

lemmas iso_handler_simps = iso_simps iso_FAKE iso_socket_options iso_netlink iso_sendmsg iso_callbacks

text \<open>The handlers that never pass a call on, whatever the descriptor.\<close>

lemma iso_always:
  assumes "alike_on_getpid E k j"
  shows "HandleGetPid (other_kernel E k j) = HandleGetPid E"
    "HandleGetRUsage (other_kernel E k j) = HandleGetRUsage E"
    "HandleGetRandom (other_kernel E k j) = HandleGetRandom E"
    "HandleNanoSleep (other_kernel E k j) = HandleNanoSleep E"
    "HandleTime (other_kernel E k j) = HandleTime E"
    "HandleGetTimeOfDay (other_kernel E k j) = HandleGetTimeOfDay E"
    "HandleSocket (other_kernel E k j) = HandleSocket E"
    "HandleListen (other_kernel E k j) = HandleListen E"
    "HandleConnect (other_kernel E k j) = HandleConnect E"
    "HandleAccept (other_kernel E k j) = HandleAccept E"
    "HandleBind (other_kernel E k j) = HandleBind E"
    "HandleSendTo (other_kernel E k j) = HandleSendTo E"
    "HandleRecvFrom (other_kernel E k j) = HandleRecvFrom E"
    "HandleGetSockName (other_kernel E k j) = HandleGetSockName E"
    "HandleGetPeerName (other_kernel E k j) = HandleGetPeerName E"
    "HandleRecvMsg (other_kernel E k j) = HandleRecvMsg E"
    "HandleSendMsg (other_kernel E k j) = HandleSendMsg E"
  unfolding fun_eq_iff HandleGetPid_def HandleGetRUsage_def HandleGetRandom_def HandleNanoSleep_def
    HandleTime_def HandleGetTimeOfDay_def HandleSocket_def HandleListen_def HandleConnect_def
    HandleAccept_def HandleBind_def HandleSendTo_def HandleRecvFrom_def HandleGetSockName_def
    HandleGetPeerName_def HandleRecvMsg_def HandleSendMsg_def iso_simps iso_FAKE [OF assms]
    iso_netlink [OF assms] iso_sendmsg [OF assms] iso_callbacks [OF assms]
  by (simp_all only: refl simp_thms)

text \<open>Those that pass a call on unless its first argument is an emulated descriptor.\<close>

lemma iso_on_emulated_fd:
  assumes iso: "alike_on_getpid E k j" and fd: "FdIsEmulatedSocket (c_int (argv 1 w)) w"
  shows "HandleRead (other_kernel E k j) w = HandleRead E w"
    "HandleWrite (other_kernel E k j) w = HandleWrite E w"
    "HandleClose (other_kernel E k j) w = HandleClose E w"
    "HandleFcntl (other_kernel E k j) w = HandleFcntl E w"
    "HandleIoctl (other_kernel E k j) w = HandleIoctl E w"
    "HandleGetSockOpt (other_kernel E k j) w = HandleGetSockOpt E w"
    "HandleSetSockOpt (other_kernel E k j) w = HandleSetSockOpt E w"
  unfolding HandleRead_def HandleWrite_def HandleClose_def HandleFcntl_def HandleIoctl_def
    HandleGetSockOpt_def HandleSetSockOpt_def iso_simps iso_FAKE [OF iso]
    iso_socket_options [OF iso] iso_callbacks [OF iso] Let_def
  by (simp_all only: fd simp_thms if_True if_False)

section \<open>Properties\<close>

definition always_emulated :: "int list" where
  "always_emulated = [SYS_getpid, SYS_getrusage, SYS_getrandom, SYS_nanosleep, SYS_time,
     SYS_gettimeofday, SYS_socket, SYS_listen, SYS_connect, SYS_accept, SYS_bind, SYS_sendto,
     SYS_recvfrom, SYS_getsockname, SYS_getpeername, SYS_recvmsg, SYS_sendmsg, SYS_select,
     SYS_getuid, SYS_geteuid, SYS_getgid, SYS_getegid]"

definition emulated_on_fd :: "int list" where
  "emulated_on_fd = [SYS_read, SYS_write, SYS_close, SYS_fcntl, SYS_ioctl, SYS_getsockopt,
     SYS_setsockopt]"

definition emulated :: "int \<Rightarrow> 'x grail \<Rightarrow> bool" where
  "emulated c w \<longleftrightarrow> List.member always_emulated c
     \<or> List.member emulated_on_fd c \<and> FdIsEmulatedSocket (c_int (argv 1 w)) w"


text \<open>A kernel that kills the process at any call but \<open>getpid\<close>.\<close>

definition deadly :: "pid \<Rightarrow> nat tracee \<Rightarrow> 32 word option \<times> nat tracee" where
  "deadly p t = (if get_reg p ORIG_RAX t = c_reg SYS_getpid then k_wait demo_env p t else (Some 0, t))"

lemma deadly_wait:
  "WaitForSyscall (other_kernel demo_env deadly 0) p t =
     Some (if get_reg p ORIG_RAX t = c_reg SYS_getpid then (0, set_reg p RAX 4711 t) else (1, t))"
  unfolding WaitForSyscall_def
  by (subst wait_loop_done) (auto simp: wait_once_def demo_env_def deadly_def wait_done_def
      syscall_stop_def WIFSTOPPED_def WSTOPSIG_def WIFEXITED_def)


end
