(* ===== verification/Grail_Events.thy ===== *)
theory Grail_Events
  imports Grail_Dispatch
begin

text \<open>
  The identifiers of scheduled events. A \<open>select\<close> with a timeout remembers the event it scheduled
  by an \<open>EventId\<close> and cancels it when a socket answers first, possibly long after the event has
  run. That this takes nothing else off the schedule rests on an invariant of the identifiers,
  which every step of the program keeps.
\<close>

section \<open>The invariant\<close>

text \<open>
  Identifiers in use are distinct and were given out; one that a \<open>select\<close> remembers was given
  out, and if an event still has it, the event is the timeout of that \<open>select\<close>.
\<close>

definition event_inv :: "'x grail \<Rightarrow> bool" where
  "event_inv w \<longleftrightarrow> distinct (map ev_uid (events w)) \<and> (\<forall>e\<in>set (events w). ev_uid e < ev_next w) \<and>
     (\<forall>n u. timeout_event w n = Some u \<longrightarrow> u < ev_next w \<and>
        (\<forall>e\<in>set (events w). ev_uid e = u \<longrightarrow> (\<exists>p. ev_do e = EvSelectTimeout n p)))"

lemma event_inv_cong:
  "events w' = events w \<Longrightarrow> ev_next w' = ev_next w \<Longrightarrow> timeout_event w' = timeout_event w \<Longrightarrow>
   event_inv w \<Longrightarrow> event_inv w'"
  by (simp add: event_inv_def)

lemma event_inv_Schedule: "event_inv w \<Longrightarrow> event_inv (Schedule E d f w)"
  by (auto simp: event_inv_def Schedule_def less_Suc_eq)

lemma event_inv_sub:
  assumes "event_inv w" and "set es \<subseteq> set (events w)" and "distinct (map ev_uid es)"
  shows "event_inv (w\<lparr>events := es\<rparr>)"
  using assms by (auto simp: event_inv_def)

lemma event_inv_Cancel: "event_inv w \<Longrightarrow> event_inv (Cancel u w)"
  by (auto simp: Cancel_def event_inv_def distinct_map_filter split: option.split
      intro!: event_inv_sub)

lemma event_inv_remove: "event_inv w \<Longrightarrow> event_inv (w\<lparr>events := remove1 e (events w)\<rparr>)"
  by (rule event_inv_sub) (auto simp: event_inv_def distinct_map inj_on_def dest: notin_set_remove1)

lemma event_inv_timeout:
  assumes "event_inv w"
  shows "event_inv ((Schedule E d (EvSelectTimeout n p) w)\<lparr>timeout_event :=
    (timeout_event (Schedule E d (EvSelectTimeout n p) w))(n \<mapsto> ev_next w)\<rparr>)"
  using assms by (auto simp: event_inv_def Schedule_def less_Suc_eq)

interpretation evr: program_invariant event_inv
proof unfold_locales
  show "event_inv w \<Longrightarrow> event_inv (Schedule E d f w)" "event_inv w \<Longrightarrow> event_inv (Cancel u w)"
    "event_inv w \<Longrightarrow> event_inv (w\<lparr>events := remove1 e (events w)\<rparr>)"
    for w :: "'a grail" and E d f u e
    by (rule event_inv_Schedule event_inv_Cancel event_inv_remove, assumption)+
  show "event_inv w \<Longrightarrow> event_inv ((Schedule E d (EvSelectTimeout n p) w)\<lparr>timeout_event :=
      (timeout_event (Schedule E d (EvSelectTimeout n p) w))(n \<mapsto> ev_next w)\<rparr>)"
    for w :: "'a grail" and E d n p by (rule event_inv_timeout)
  show "event_inv w \<Longrightarrow> event_inv (w\<lparr>timeout_event := (timeout_event w)(n := None)\<rparr>)"
    for w :: "'a grail" and n by (simp add: event_inv_def)
qed (rule event_inv_cong, simp_all add: put_nl_def)+

lemma event_inv_init: "event_inv (fst (GrailApplication t a b c d e))"
  by (simp add: event_inv_def GrailApplication_def)

section \<open>Properties\<close>

text \<open>
  (C8) In every reachable state the events on the schedule have distinct identifiers, and a
  \<open>select\<close> that is answered takes at most one event off the schedule: its own timeout, even
  if the identifier it remembers is old.
\<close>

theorem claim_cancels_own_timeout:
  assumes "reachable E (fst (GrailApplication t a b c d e)) w"
  shows "distinct (map ev_uid (events w)) \<and>
    length (events w) \<le> Suc (length (events (claim n w))) \<and>
    (\<forall>ev\<in>set (events w). ev \<in> set (events (claim n w)) \<or> (\<exists>p. ev_do ev = EvSelectTimeout n p))"
proof -
  have inv: "event_inv w" by (rule evr.reachable_keeps [OF assms event_inv_init])
  have one: "length xs \<le> Suc (length (filter (\<lambda>e. ev_uid e \<noteq> u) xs))"
    if "distinct (map ev_uid xs)" for xs :: "sim_event list" and u
    using that
  proof (induction xs)
    case (Cons x xs)
    have "filter (\<lambda>e. ev_uid e \<noteq> u) xs = xs" if "ev_uid x = u"
      using Cons.prems that by (auto simp: filter_id_conv image_iff)
    with Cons show ?case by auto
  qed simp
  show ?thesis
    using inv one by (auto simp: event_inv_def claim_def Cancel_def split: option.split)
qed

theorem claim_cancels_own_timeout_witness:
  "\<exists>w. StartApplication demo_env 1 0 (demo_start 41 [2, 1, 0]) = Ret () w \<and>
    distinct (map ev_uid (events w)) \<and> length (events w) \<le> Suc (length (events (claim 0 w)))"
proof -
  obtain w where w: "StartApplication demo_env 1 0 (demo_start 41 [2, 1, 0]) = Ret () w"
    using demo_socket_start by blast
  then have "reachable demo_env (demo_start 41 [2, 1, 0]) w" by (rule reachable.start)
  from claim_cancels_own_timeout [OF this [unfolded demo_start_def], of 0] w show ?thesis by blast
qed

end
