(* ===== verification/Grail_Protocol.thy ===== *)
theory Grail_Protocol
  imports Grail_Events
begin

text \<open>
  The protocol between the program and a traced thread. A thread that stops at a call is let
  through to the stop at its end exactly once when the call is answered and not at all while the
  call is pending, and it is scheduled to run on exactly when it was answered. \<open>accounted\<close> states
  this of a status code and the state it comes with; the handlers are shown to keep it one
  after the other, over rules for the operations they are built from.
\<close>

section \<open>Counting stops and resumptions\<close>

text \<open>
  \<open>N\<close> reads off the world outside the program how often \<open>WaitForSyscall\<close> came back for the
  thread \<open>p\<close>. What the program asks of the simulator does not change the count.
\<close>

definition counts_waits :: "'x env \<Rightarrow> pid \<Rightarrow> ('x \<Rightarrow> nat) \<Rightarrow> bool" where
  "counts_waits E p N \<longleftrightarrow>
     (\<forall>t r t'. WaitForSyscall E p t = Some (r, t') \<longrightarrow> N (ext t') = Suc (N (ext t))) \<and>
     (\<forall>tcp x. N (snd (e_CreateSocket E tcp x)) = N x) \<and>
     (\<forall>s x. N (e_Close E s x) = N x) \<and>
     (\<forall>s n x. N (snd (e_Recv E s n x)) = N x) \<and>
     (\<forall>s n f x. N (snd (e_RecvFrom E s n f x)) = N x) \<and>
     (\<forall>s bs x. N (snd (e_Send E s bs x)) = N x) \<and>
     (\<forall>s bs f a x. N (snd (e_SendTo E s bs f a x)) = N x) \<and>
     (\<forall>s a x. N (snd (e_Bind E s a x)) = N x) \<and>
     (\<forall>s x. N (snd (e_Listen E s x)) = N x) \<and>
     (\<forall>s a x. N (e_Connect E s a x) = N x) \<and>
     (\<forall>s b x. N (e_SetAllowBroadcast E s b x) = N x) \<and>
     (\<forall>x. N (snd (e_Random E x)) = N x)"

lemma counts_wait: "counts_waits E p N \<Longrightarrow> WaitForSyscall E p t = Some (r, t') \<Longrightarrow>
    N (ext t') = Suc (N (ext t))"
  by (auto simp: counts_waits_def)

lemma counts_simulator:
  assumes "counts_waits E p N"
  shows "N (snd (e_CreateSocket E tcp x)) = N x" "N (e_Close E s x) = N x"
    "N (snd (e_Recv E s n x)) = N x" "N (snd (e_RecvFrom E s n f x)) = N x"
    "N (snd (e_Send E s bs x)) = N x" "N (snd (e_SendTo E s bs f a x)) = N x"
    "N (snd (e_Bind E s ad x)) = N x" "N (snd (e_Listen E s x)) = N x"
    "N (e_Connect E s ad x) = N x" "N (e_SetAllowBroadcast E s b x) = N x"
    "N (snd (e_Random E x)) = N x"
  using assms by (simp_all add: counts_waits_def)

lemma counts_random: "counts_waits E p N \<Longrightarrow> N (snd (random_bytes E n x)) = N x"
  by (induction n arbitrary: x) (simp_all add: split_def Let_def counts_simulator)

definition resumes :: "pid \<Rightarrow> 'x grail \<Rightarrow> nat" where
  "resumes p w = length (filter (\<lambda>e. ev_do e = EvHandleSyscallBefore p) (events w))"

text \<open>The thread a closure or an event answers; the closure of a blocked \<open>write\<close> answers none.\<close>

fun recv_thread :: "recv_cb \<Rightarrow> pid" where
  "recv_thread (RecvRead p buf n) = p"
| "recv_thread (RecvRecvFrom p buf n fl a l) = p"
| "recv_thread (RecvSelect c) = sc_pid c"

fun send_thread :: "send_cb \<Rightarrow> pid option" where
  "send_thread (SendBlockedWrite p) = None"
| "send_thread (SendSelect c) = Some (sc_pid c)"

fun accept_thread :: "accept_cb \<Rightarrow> pid option" where
  "accept_thread (AcceptFake fd) = None"
| "accept_thread (AcceptSelect c) = Some (sc_pid c)"
| "accept_thread (AcceptBlocked fd a l p) = Some p"

fun connect_thread :: "connect_cb \<Rightarrow> pid" where
  "connect_thread (ConnectBlocked fd p) = p"

fun event_thread :: "event \<Rightarrow> pid option" where
  "event_thread (EvHandleSyscallBefore p) = None"
| "event_thread (EvRemoveClosedSocket s) = None"
| "event_thread (EvNanoSleep p) = Some p"
| "event_thread (EvSelectTimeout n p) = Some p"

definition waiting :: "pid \<Rightarrow> 'x grail \<Rightarrow> bool" where
  "waiting p w \<longleftrightarrow>
     (\<exists>s cb. cb_recv w s = Some cb \<and> recv_thread cb = p) \<or>
     (\<exists>s cb. cb_send w s = Some cb \<and> send_thread cb = Some p) \<or>
     (\<exists>s cb. cb_accept w s = Some cb \<and> accept_thread cb = Some p) \<or>
     (\<exists>s cb. cb_connect w s = Some cb \<and> connect_thread cb = p) \<or>
     (\<exists>n nl c. nl_objs w n = Some nl \<and> recv_callback nl = Some c \<and> sc_pid c = p) \<or>
     (\<exists>e\<in>set (events w). event_thread (ev_do e) = Some p)"

lemma waiting_closures:
  "recv_thread r = p \<Longrightarrow> waiting p (w\<lparr>cb_recv := (cb_recv w)(s \<mapsto> r)\<rparr>)"
  "send_thread sd = Some p \<Longrightarrow> waiting p (w\<lparr>cb_send := (cb_send w)(s \<mapsto> sd)\<rparr>)"
  "accept_thread a = Some p \<Longrightarrow> waiting p (w\<lparr>cb_accept := (cb_accept w)(s \<mapsto> a)\<rparr>)"
  "connect_thread c = p \<Longrightarrow> waiting p (w\<lparr>cb_connect := (cb_connect w)(s \<mapsto> c)\<rparr>)"
  "event_thread ev = Some p \<Longrightarrow> waiting p (Schedule E d ev w)"
  unfolding waiting_def Schedule_def by (simp_all add: exI [of _ s])

lemma waiting_frame [simp]:
  "waiting p (w\<lparr>tr := t\<rparr>) = waiting p w" "waiting p (w\<lparr>timeout_event := u\<rparr>) = waiting p w"
  "waiting p (set_ext x w) = waiting p w"
  by (simp_all add: waiting_def set_ext_def)

text \<open>
  What a status code says of the thread: \<open>n\<close> and \<open>m\<close> are the stops and the resumptions before
  the handler, \<open>d\<close> allows a pending call that nothing will answer.
\<close>

definition accounted :: "bool \<Rightarrow> pid \<Rightarrow> ('x \<Rightarrow> nat) \<Rightarrow> nat \<Rightarrow> nat \<Rightarrow> sysc \<Rightarrow> 'x grail \<Rightarrow> bool" where
  "accounted d p N n m res w = (case res of
     SYSC_SUCCESS \<Rightarrow> N (xt w) = Suc n \<and> resumes p w = m
   | SYSC_FAILURE \<Rightarrow> N (xt w) = Suc n \<and> resumes p w = m
   | SYSC_MANUAL \<Rightarrow> N (xt w) = Suc n \<and> resumes p w = Suc m
   | SYSC_DELAYED \<Rightarrow> N (xt w) = n \<and> resumes p w = m \<and> (waiting p w \<or> d)
   | SYSC_SYSTEM_EXIT \<Rightarrow> N (xt w) = n \<and> resumes p w = m \<and> d
   | SYSC_ERROR \<Rightarrow> True)"

section \<open>Rules for the operations\<close>

text \<open>\<open>counted\<close>: \<open>n\<close> stops and \<open>m\<close> resumptions of \<open>p\<close> were counted, and the thread at hand is \<open>q\<close>,
  which is \<open>p\<close> itself in the handler of its call.\<close>

definition counted ::
  "'x env \<Rightarrow> pid \<Rightarrow> ('x \<Rightarrow> nat) \<Rightarrow> pid \<Rightarrow> nat \<Rightarrow> nat \<Rightarrow> 'x grail \<Rightarrow> bool" where
  "counted E p N q n m w \<longleftrightarrow>
     counts_waits E p N \<and> cur_pid w = q \<and> N (xt w) = n \<and> resumes p w = m"

definition answers ::
  "bool \<Rightarrow> 'x env \<Rightarrow> pid \<Rightarrow> ('x \<Rightarrow> nat) \<Rightarrow> nat \<Rightarrow> nat \<Rightarrow> (sysc, 'x grail) outcome \<Rightarrow> bool" where
  "answers d E p N n m r = holds (accounted d p N n m) r"

named_theorems answer_intros

lemma counted_ext: "N x = N (xt w) \<Longrightarrow> counted E p N cp n m (set_ext x w) = counted E p N cp n m w"
  by (simp add: counted_def set_ext_def resumes_def)

text \<open>What the program asks of the simulator, and the random bytes it draws.\<close>

lemma counted_simulator [simp]:
  assumes "x = xt w"
  shows "counted E p N cp n m (set_ext (snd (e_CreateSocket E tcp x)) w) = counted E p N cp n m w"
    "counted E p N cp n m (set_ext (e_Close E s x) w) = counted E p N cp n m w"
    "counted E p N cp n m (set_ext (snd (e_Recv E s l x)) w) = counted E p N cp n m w"
    "counted E p N cp n m (set_ext (snd (e_RecvFrom E s l fl x)) w) = counted E p N cp n m w"
    "counted E p N cp n m (set_ext (snd (e_Send E s bs x)) w) = counted E p N cp n m w"
    "counted E p N cp n m (set_ext (snd (e_SendTo E s bs fl ad x)) w) = counted E p N cp n m w"
    "counted E p N cp n m (set_ext (snd (e_Bind E s ad x)) w) = counted E p N cp n m w"
    "counted E p N cp n m (set_ext (snd (e_Listen E s x)) w) = counted E p N cp n m w"
    "counted E p N cp n m (set_ext (e_Connect E s ad x) w) = counted E p N cp n m w"
    "counted E p N cp n m (set_ext (e_SetAllowBroadcast E s b x) w) = counted E p N cp n m w"
    "counted E p N cp n m (set_ext (snd (random_bytes E l x)) w) = counted E p N cp n m w"
  using assms counts_simulator [of E p N] counts_random [of E p N]
  by (auto simp: counted_def set_ext_def resumes_def)

lemma counted_mem [simp]: "counted E p N cp n m (set_mem s w) = counted E p N cp n m w"
  by (simp add: counted_def set_mem_def resumes_def)

lemma counted_reg [simp]: "counted E p N cp n m (w\<lparr>tr := set_reg q r v (tr w)\<rparr>) = counted E p N cp n m w"
  by (simp add: counted_def set_reg_def resumes_def)

lemma counted_Schedule [simp]:
  "ev \<noteq> EvHandleSyscallBefore p \<Longrightarrow> counted E p N cp n m (Schedule F d ev w) = counted E p N cp n m w"
  by (simp add: counted_def Schedule_def resumes_def)

lemma counted_frame [simp]:
  "counted E p N cp n m (w\<lparr>tid_vector := xa\<rparr>) = counted E p N cp n m w"
  "counted E p N cp n m (w\<lparr>m_sockets := xb\<rparr>) = counted E p N cp n m w"
  "counted E p N cp n m (w\<lparr>m_fakeAcceptedSockets := xc\<rparr>) = counted E p N cp n m w"
  "counted E p N cp n m (w\<lparr>m_tcpSockets := xd\<rparr>) = counted E p N cp n m w"
  "counted E p N cp n m (w\<lparr>m_connectedSockets := xe\<rparr>) = counted E p N cp n m w"
  "counted E p N cp n m (w\<lparr>m_isListenTcpSocket := xf\<rparr>) = counted E p N cp n m w"
  "counted E p N cp n m (w\<lparr>m_nonblocking_sockets := xg\<rparr>) = counted E p N cp n m w"
  "counted E p N cp n m (w\<lparr>m_random_fds := xh\<rparr>) = counted E p N cp n m w"
  "counted E p N cp n m (w\<lparr>m_netlinks := xi\<rparr>) = counted E p N cp n m w"
  "counted E p N cp n m (w\<lparr>availableFDs := xj\<rparr>) = counted E p N cp n m w"
  "counted E p N cp n m (w\<lparr>stdout := xk\<rparr>) = counted E p N cp n m w"
  "counted E p N cp n m (w\<lparr>nl_objs := xl\<rparr>) = counted E p N cp n m w"
  "counted E p N cp n m (w\<lparr>nl_next := xm\<rparr>) = counted E p N cp n m w"
  "counted E p N cp n m (w\<lparr>already_handled := xn\<rparr>) = counted E p N cp n m w"
  "counted E p N cp n m (w\<lparr>timeout_event := xo\<rparr>) = counted E p N cp n m w"
  "counted E p N cp n m (w\<lparr>sel_next := xp\<rparr>) = counted E p N cp n m w"
  "counted E p N cp n m (w\<lparr>cb_recv := xq\<rparr>) = counted E p N cp n m w"
  "counted E p N cp n m (w\<lparr>cb_send := xr\<rparr>) = counted E p N cp n m w"
  "counted E p N cp n m (w\<lparr>cb_accept := xs\<rparr>) = counted E p N cp n m w"
  "counted E p N cp n m (w\<lparr>cb_connect := xu\<rparr>) = counted E p N cp n m w"
  by (simp_all add: counted_def resumes_def)

lemma counted_enter_connection [simp]:
  "counted E p N cp n m (enter_connection fd s w) = counted E p N cp n m w"
  "cur_pid (enter_connection fd s w) = cur_pid w"
  by (simp_all add: enter_connection_def counted_def resumes_def)

lemma cur_pid_set_ext [simp]: "cur_pid (set_ext x w) = cur_pid w"
  by (simp add: set_ext_def)

lemma counted_pid: "counted E p N cp n m w \<Longrightarrow> cur_pid w = cp"
  by (simp add: counted_def)

lemma answers_done [answer_intros]:
  "counted E p N p (Suc n) m w \<Longrightarrow> answers d E p N n m (Ret SYSC_SUCCESS w)"
  "counted E p N p (Suc n) m w \<Longrightarrow> answers d E p N n m (Ret SYSC_FAILURE w)"
  "answers d E p N n m (Ret SYSC_ERROR w)" "answers d E p N n m (Halt h w)"
  by (simp_all add: answers_def accounted_def counted_def)

lemma answers_delayed:
  "counted E p N p n m w \<Longrightarrow> waiting p w \<Longrightarrow> answers d E p N n m (Ret SYSC_DELAYED w)"
  by (simp add: answers_def accounted_def counted_def)

lemma answers_unanswered:
  "counted E p N p n m w \<Longrightarrow> answers True E p N n m (Ret SYSC_DELAYED w)"
  "counted E p N p n m w \<Longrightarrow> answers True E p N n m (Ret SYSC_SYSTEM_EXIT w)"
  by (simp_all add: answers_def accounted_def counted_def)

lemmas delayed_intros = answers_delayed waiting_closures

lemma answers_FAKE [answer_intros]:
  assumes "counted E p N p n m w" and "q = cur_pid w"
    and "\<And>t. counted E p N p (Suc n) m (w\<lparr>tr := t\<rparr>) \<Longrightarrow> answers d E p N n m (k (w\<lparr>tr := t\<rparr>))"
  shows "answers d E p N n m (FAKE E q v w k)"
proof (cases "WaitForSyscall E q (set_reg q ORIG_RAX (c_reg SYS_getpid) (tr w))")
  case None
  then show ?thesis by (simp add: FAKE_def answers_def)
next
  case (Some rt)
  obtain r t where rt: "rt = (r, t)" by (cases rt)
  have "counted E p N p (Suc n) m (w\<lparr>tr := set_reg q RAX v t\<rparr>)"
    using assms(1,2) Some rt counts_wait [of E p N "set_reg q ORIG_RAX (c_reg SYS_getpid) (tr w)" r t]
    by (simp add: counted_def resumes_def set_reg_def)
  then show ?thesis using assms(3) Some rt by (simp add: FAKE_def answers_def accounted_def)
qed

lemma answers_FAKE2 [answer_intros]:
  "counted E p N p n m w \<Longrightarrow> q = cur_pid w \<Longrightarrow> answers d E p N n m (FAKE2 E q v SYSC_SUCCESS w Ret)"
  using answers_FAKE [of E p N n m w q d "Ret SYSC_SUCCESS" v] answers_done(1)
  by (fastforce simp: FAKE_def FAKE2_def split: option.splits)

lemma answers_After [answer_intros]:
  "counted E p N p n m w \<Longrightarrow> answers d E p N n m (HandleSyscallAfter E w)"
  using counts_wait [of E p N "tr w"]
  by (auto simp: HandleSyscallAfter_def answers_def accounted_def counted_def resumes_def split: option.splits)

lemma answers_NS_ASSERT [answer_intros]:
  "(b \<Longrightarrow> answers d E p N n m (k w)) \<Longrightarrow> answers d E p N n m (NS_ASSERT b w k)"
  by (simp add: NS_ASSERT_def answers_def)

lemma answers_if [answer_intros]:
  "(b \<Longrightarrow> answers d E p N n m r) \<Longrightarrow> (\<not> b \<Longrightarrow> answers d E p N n m s) \<Longrightarrow>
   answers d E p N n m (if b then r else s)"
  by simp

lemma answers_option [answer_intros]:
  "(x = None \<Longrightarrow> answers d E p N n m r) \<Longrightarrow> (\<And>y. x = Some y \<Longrightarrow> answers d E p N n m (s y)) \<Longrightarrow>
   answers d E p N n m (case x of None \<Rightarrow> r | Some y \<Rightarrow> s y)"
  by (cases x) simp_all

lemma answers_socket_at [answer_intros]:
  "(\<And>s. m_sockets w fd = Some s \<Longrightarrow> answers d E p N n m (k s)) \<Longrightarrow> answers d E p N n m (socket_at fd w k)"
  by (simp add: socket_at_def answers_def split: option.split)

lemma answers_copy_to [answer_intros]:
  "counted E p N p n m w \<Longrightarrow> (\<And>s. counted E p N p n m (set_mem s w) \<Longrightarrow>
     answers d E p N n m (k (set_mem s w))) \<Longrightarrow>
   answers d E p N n m (copy_to a bs w k)"
  by (simp add: copy_to_def answers_def split: option.split)

lemma answers_store_to [answer_intros]:
  "counted E p N p n m w \<Longrightarrow> (\<And>s. counted E p N p n m (set_mem s w) \<Longrightarrow>
     answers d E p N n m (k (set_mem s w))) \<Longrightarrow>
   answers d E p N n m (store_to a bs w k)"
  by (simp add: store_to_def answers_def split: option.split)

lemma answers_and_then:
  "holds (\<lambda>a w. counted E p N p n m w) r \<Longrightarrow>
   (\<And>a w. counted E p N p n m w \<Longrightarrow> answers d E p N n m (k a w)) \<Longrightarrow> answers d E p N n m (and_then r k)"
  by (cases r) (simp_all add: answers_def)

lemma counted_helpers:
  assumes "counted E p N cp n m w"
  shows "holds (\<lambda>a. counted E p N cp n m) (GetNextFD w)"
    "holds (\<lambda>a. counted E p N cp n m) (GetNs3Address E ad l w)"
    "holds (\<lambda>b. counted E p N cp n m) (SetBsdAddress E na ad la w)"
    "holds (\<lambda>d. counted E p N cp n m) (wifi_by_name E name w)"
    "holds (\<lambda>a. counted E p N cp n m) (if b then GetNs3Address E ad l w else Ret v w)"
proof -
  show "holds (\<lambda>a. counted E p N cp n m) (GetNextFD w)"
    using assms by (simp add: GetNextFD_def NS_ASSERT_def Let_def counted_def resumes_def)
  show ns3: "holds (\<lambda>a. counted E p N cp n m) (GetNs3Address E ad l w)"
    using assms by (simp add: GetNs3Address_def NS_ASSERT_def Let_def)
  then show "holds (\<lambda>a. counted E p N cp n m) (if b then GetNs3Address E ad l w else Ret v w)"
    using assms by simp
  show "holds (\<lambda>b. counted E p N cp n m) (SetBsdAddress E na ad la w)"
    using assms by (simp add: SetBsdAddress_def copy_to_def Let_def split: address.split option.split)
  show "holds (\<lambda>d. counted E p N cp n m) (wifi_by_name E name w)"
    using assms by (simp add: wifi_by_name_def GetNetDeviceByName_def split: option.split)
qed

lemmas answers_helpers [answer_intros] = answers_and_then [OF counted_helpers(1)]
  answers_and_then [OF counted_helpers(2)] answers_and_then [OF counted_helpers(3)]
  answers_and_then [OF counted_helpers(4)] answers_and_then [OF counted_helpers(5)]

lemma resumes_ProcessStatusCode:
  "counted E p N cp n m w \<Longrightarrow> res \<in> {SYSC_SUCCESS, SYSC_FAILURE, SYSC_ERROR} \<Longrightarrow>
   holds (\<lambda>_. counted E p N cp n (Suc m)) (ProcessStatusCode E res p w)"
  by (auto simp: ProcessStatusCode_def Let_def counted_def resumes_def Schedule_def)

lemma holds_FAKE4:
  assumes "counted E p N cp n m w"
    and "\<And>r t. r = res \<or> r = SYSC_ERROR \<Longrightarrow> counted E p N cp (Suc n) m (w\<lparr>tr := t\<rparr>) \<Longrightarrow>
      holds P (k r (w\<lparr>tr := t\<rparr>))"
  shows "holds P (FAKE4 E p v res w k)"
proof (cases "WaitForSyscall E p (set_reg p ORIG_RAX (c_reg SYS_getpid) (tr w))")
  case None
  then show ?thesis by (simp add: FAKE4_def)
next
  case (Some rt)
  obtain r t where rt: "rt = (r, t)" by (cases rt)
  have t: "counted E p N cp (Suc n) m (w\<lparr>tr := t\<rparr>)" "counted E p N cp (Suc n) m (w\<lparr>tr := set_reg p RAX v t\<rparr>)"
    using assms(1) Some rt counts_wait [of E p N "set_reg p ORIG_RAX (c_reg SYS_getpid) (tr w)" r t]
    by (simp_all add: counted_def resumes_def set_reg_def)
  show ?thesis using assms(2) [OF _ t(1)] assms(2) [OF _ t(2)] Some rt by (simp add: FAKE4_def)
qed

text \<open>The callbacks a call with data at hand runs itself.\<close>

lemma counted_finish:
  assumes "counted E p N cp n m w"
  shows "holds (\<lambda>_. counted E p N cp n (Suc m)) (and_then (ProcessStatusCode E SYSC_SUCCESS p w) (\<lambda>_ w.
    Ret () (w\<lparr>cb_recv := (cb_recv w)(s := None)\<rparr>)))"
  using resumes_ProcessStatusCode [OF assms, of SYSC_SUCCESS]
  by (cases "ProcessStatusCode E SYSC_SUCCESS p w") (simp_all add: counted_def resumes_def)

lemma counted_reply:
  assumes "counted E p N cp n m w"
  shows "holds (\<lambda>_. counted E p N cp (Suc n) (Suc m)) (FAKE4 E p v SYSC_SUCCESS w (\<lambda>res w.
    and_then (ProcessStatusCode E SYSC_SUCCESS p w) (\<lambda>_ w.
      Ret () (w\<lparr>cb_recv := (cb_recv w)(s := None)\<rparr>))))"
  using assms by (rule holds_FAKE4) (rule counted_finish)

lemma counted_callbacks:
  assumes "counted E p N cp n m w"
  shows "holds (\<lambda>_. counted E p N cp (Suc n) (Suc m)) (read_callback E p b l s w)"
    "holds (\<lambda>_. counted E p N cp (Suc n) (Suc m)) (recvfrom_callback E p b l fl ad al s w)"
proof -
  have c: "counts_waits E p N" using assms by (simp add: counted_def)
  have copied: "holds (\<lambda>_. counted E p N cp (Suc n) (Suc m)) (copy_to a bs w' (\<lambda>w.
      FAKE4 E p v SYSC_SUCCESS w (\<lambda>res w. and_then (ProcessStatusCode E SYSC_SUCCESS p w) (\<lambda>_ w.
        Ret () (w\<lparr>cb_recv := (cb_recv w)(s := None)\<rparr>)))))"
    if "counted E p N cp n m w'" for a bs v w'
    unfolding copy_to_def using that by (simp add: counted_reply split: option.split)
  show "holds (\<lambda>_. counted E p N cp (Suc n) (Suc m)) (read_callback E p b l s w)"
    unfolding read_callback_def Let_def split_def using assms
    by (simp add: copied counted_reply counts_simulator [OF c] counted_ext)
  have w1: "counted E p N cp n m (set_ext (snd (e_RecvFrom E s l fl (xt w))) w)"
    using assms by (simp add: counts_simulator [OF c] counted_ext)
  have err: "ProcessStatusCode E SYSC_ERROR p w = Halt ExitFailure w" for w
    by (simp add: ProcessStatusCode_def)
  show "holds (\<lambda>_. counted E p N cp (Suc n) (Suc m)) (recvfrom_callback E p b l fl ad al s w)"
    unfolding recvfrom_callback_def Let_def split_def
    using counted_helpers(3) [OF w1, of "snd (snd (fst (e_RecvFrom E s l fl (xt w))))" ad al]
    by (cases "SetBsdAddress E (snd (snd (fst (e_RecvFrom E s l fl (xt w))))) ad al
        (set_ext (snd (e_RecvFrom E s l fl (xt w))) w)") (simp_all add: copied counted_reply err)
qed

lemma answers_callbacks [answer_intros]:
  assumes "counted E p N p n m w" and "q = p"
  shows "answers d E p N n m (and_then (read_callback E q b l s w) (\<lambda>_. Ret SYSC_MANUAL))"
    "answers d E p N n m (and_then (recvfrom_callback E q b l fl ad al s w) (\<lambda>_. Ret SYSC_MANUAL))"
proof -
  have manual: "answers d E p N n m (and_then r (\<lambda>_. Ret SYSC_MANUAL))"
    if "holds (\<lambda>_. counted E p N p (Suc n) (Suc m)) r" for r :: "(unit, 'a grail) outcome"
    using that by (cases r) (simp_all add: answers_def accounted_def counted_def)
  show "answers d E p N n m (and_then (read_callback E q b l s w) (\<lambda>_. Ret SYSC_MANUAL))"
    using assms counted_callbacks(1) manual by blast
  show "answers d E p N n m (and_then (recvfrom_callback E q b l fl ad al s w) (\<lambda>_. Ret SYSC_MANUAL))"
    using assms counted_callbacks(2) manual by blast
qed

section \<open>The handlers\<close>


lemma answers_open [answer_intros]:
  assumes "counted E p N p n m w"
  shows "answers d E p N n m (open_path E a w)"
  unfolding open_path_def Let_def split_def
  using assms by (intro answer_intros | simp add: counted_pid)+

lemma answers_files [answer_intros]:
  assumes "counted E p N p n m w"
  shows "answers d E p N n m (HandleGetPid E w)" 
    "answers d E p N n m (HandlePipe2 E w)" 
    "answers d E p N n m (HandleGetRUsage E w)" 
    "answers d E p N n m (HandleGetRandom E w)" 
    "answers d E p N n m (HandleFcntl E w)" 
    "answers d E p N n m (HandleOpen E w)" 
    "answers d E p N n m (HandleOpenAt E w)" 
    "answers d E p N n m (HandleClose E w)"
  unfolding HandleGetPid_def HandlePipe2_def HandleGetRUsage_def HandleGetRandom_def HandleFcntl_def
    HandleOpen_def HandleOpenAt_def HandleClose_def Let_def split_def
  using assms by (intro answer_intros | simp add: counted_pid)+

lemma answers_data [answer_intros]:
  assumes "counted E p N p n m w"
  shows "answers d E p N n m (HandleRead E w)"
    "answers d E p N n m (HandleRecvFrom E w)"
  unfolding HandleRead_def HandleRecvFrom_def Let_def split_def
  using assms by (intro answer_intros delayed_intros | simp add: counted_pid)+

lemma answers_time [answer_intros]:
  assumes "counted E p N p n m w"
  shows "answers d E p N n m (HandleTime E w)"
    "answers d E p N n m (HandleAlarm E w)"
    "answers d E p N n m (HandleGetTimeOfDay E w)"
    "answers d E p N n m (HandleFutex E w)"
    "answers d E p N n m (HandleNanoSleep E w)"
  unfolding HandleTime_def HandleAlarm_def HandleGetTimeOfDay_def HandleFutex_def
    HandleNanoSleep_def Let_def split_def
  using assms by (intro answer_intros delayed_intros | simp add: counted_pid)+

lemma answers_sockets [answer_intros]:
  assumes "counted E p N p n m w"
  shows "answers d E p N n m (HandleSocket E w)"
    "answers d E p N n m (HandleListen E w)"
    "answers d E p N n m (HandleConnect E w)"
    "answers d E p N n m (HandleAccept E w)"
    "answers d E p N n m (HandleGetPeerName E w)"
    "answers d E p N n m (HandlePoll E w)"
  unfolding HandleSocket_def HandleListen_def HandleConnect_def HandleAccept_def
    HandleGetPeerName_def HandlePoll_def Let_def split_def
  using assms by (intro answer_intros delayed_intros | simp add: counted_pid)+

lemma answers_reply [answer_intros]:
  assumes "counted E p N p n m w"
  shows "answers d E p N n m (reply_opt E a l bs w)"
    "answers d E p N n m (fake_failure E w)"
  unfolding reply_opt_def fake_failure_def Let_def split_def
  using assms by (intro answer_intros delayed_intros | simp add: counted_pid)+

lemma answers_attribute [answer_intros]:
  assumes "counted E p N p n m w"
  shows "answers d E p N n m (reply_attribute E s k a l w)"
  unfolding reply_attribute_def Let_def split_def
  using assms by (intro answer_intros delayed_intros | simp add: counted_pid)+

lemma answers_options [answer_intros]:
  assumes "counted E p N p n m w"
  shows "answers d E p N n m (HandleGetSockOpt E w)"
    "answers d E p N n m (HandleSetSockOpt E w)"
  unfolding HandleGetSockOpt_def HandleSetSockOpt_def Let_def split_def
  using assms by (intro answer_intros delayed_intros | simp add: counted_pid)+

lemma answers_unless_netlink [answer_intros]:
  assumes "counted E p N p n m w" and "m_netlinks w (c_int (argv 1 w)) = None"
  shows "answers d E p N n m (HandleBind E w)"
    "answers d E p N n m (HandleGetSockName E w)"
    "answers d E p N n m (HandleRecvMsg E w)"
    "answers d E p N n m (HandleSendTo E cb w)"
    "answers d E p N n m (HandleSendMsg E cb w)"
  unfolding HandleBind_def HandleGetSockName_def HandleRecvMsg_def HandleSendTo_def
    HandleSendMsg_def Let_def split_def
  using assms by (intro answer_intros delayed_intros | simp add: counted_pid)+

lemma answers_device_request [answer_intros]:
  assumes "counted E p N p n m w" and "\<And>w. counted E p N p n m w \<Longrightarrow> answers d E p N n m (missing w)"
  shows "answers d E p N n m (device_request E sz missing answer w)"
  unfolding device_request_def Let_def
  using assms by (intro answer_intros | simp add: counted_pid)+

lemma answers_ioctl [answer_intros]:
  assumes "counted E p N p n m w" and "argv 2 w \<noteq> SIOCGIWNAME"
  shows "answers d E p N n m (HandleIoctl E w)"
  unfolding HandleIoctl_def Let_def split_def
  using assms by (intro answer_intros delayed_intros | simp add: counted_pid)+

lemma answers_write [answer_intros]:
  assumes "counted E p N p n m w"
  shows "answers True E p N n m (HandleWrite E w)"
  unfolding HandleWrite_def Let_def split_def
  using assms by (intro answer_intros answers_unanswered | simp add: counted_pid)+

section \<open>Select\<close>

text \<open>A \<open>select\<close> that blocks has installed a closure of its thread.\<close>

definition installed :: "pid \<Rightarrow> select_vars \<times> 'x grail \<Rightarrow> bool" where
  "installed p vw \<longleftrightarrow> (does_block (fst vw) \<longrightarrow> waiting p (snd vw))"

lemma socket_passes:
  assumes "counted E p N p n m (snd vw)" and "installed p vw"
  shows "counted E p N p n m (snd (socket_write E s k fd sock vw))"
    "installed p (socket_write E s k fd sock vw)"
    "counted E p N p n m (snd (socket_read E s k fd sock vw))"
    "installed p (socket_read E s k fd sock vw)"
  using assms counted_pid [OF assms(1)]
  by (simp_all add: socket_write_def socket_read_def split_def Let_def installed_def blocked_def
      ready_read_def ready_write_def waiting_closures capture_def)

lemma sockets_pass:
  assumes "counted E p N p n m (snd vw)" and "installed p vw"
  shows "counted E p N p n m (snd (sockets_loop E s k kvs vw)) \<and>
    (\<forall>v. fst (sockets_loop E s k kvs vw) = Some v \<longrightarrow> installed p (v, snd (sockets_loop E s k kvs vw)))"
  using assms
proof (induction kvs arbitrary: vw)
  case (Cons kv kvs)
  then show ?case 
    by (cases kv)
      (simp add: Let_def socket_passes(1) [OF Cons.prems]
        Cons.IH [OF socket_passes(3,4) [OF socket_passes(1,2) [OF Cons.prems]]])
qed simp

lemma netlinks_pass:
  assumes "counted E p N p n m (snd vw)" and "installed p vw"
  shows "counted E p N p n m (snd (netlinks_loop s k kvs vw)) \<and> installed p (netlinks_loop s k kvs vw)"
  using assms
proof (induction kvs arbitrary: vw)
  case (Cons kv kvs)
  obtain fd i v w where vw: "kv = (fd, i)" "vw = (v, w)" by (cases kv, cases vw)
  have set: "waiting p (put_nl i (SetRecvCallback (capture s k fd (cur_pid w)) nl) w)" for nl
    using counted_pid [of E p N p n m w] Cons.prems(1) vw
    by (auto simp: waiting_def put_nl_def SetRecvCallback_def capture_def)
  show ?case
    unfolding vw netlinks_loop.simps Let_def prod.case
    by (rule Cons.IH) (use Cons.prems vw set in \<open>auto simp: installed_def ready_read_def blocked_def
      put_nl_def split: option.splits if_splits\<close>)
qed simp

lemma answers_select_finish:
  assumes "counted E p N p n m w" and "installed p (v, w)"
  shows "answers d E p N n m (select_finish E s k timeout delay v w)"
proof -
  have w: "waiting p w" if "does_block v" using assms(2) that by (simp add: installed_def)
  have if_store: "answers d E p N n m ((if b then store_to a bs u else (\<lambda>k. k u)) k')"
    if "counted E p N p n m u" and "\<And>u. counted E p N p n m u \<Longrightarrow> answers d E p N n m (k' u)" for b a bs u k'
    using that by (cases b) (auto intro: answers_store_to)
  show ?thesis
    unfolding select_finish_def Let_def
    using assms(1)
    by (intro answer_intros if_store delayed_intros | simp add: counted_pid w)+
qed

lemma answers_select [answer_intros]:
  assumes "counted E p N p n m w"
  shows "answers d E p N n m (HandleSelect E w)"
proof -
  have finish: "answers d E p N n m (case fst r of None \<Rightarrow> Ret SYSC_ERROR (snd r)
      | Some v \<Rightarrow> select_finish E s k tm dl (fst (netlinks_loop s k nls (v, snd r)))
          (snd (netlinks_loop s k nls (v, snd r))))"
    if r: "counted E p N p n m (snd r) \<and> (\<forall>v. fst r = Some v \<longrightarrow> installed p (v, snd r))"
    for r :: "select_vars option \<times> 'a grail" and s k tm dl nls
  proof (cases "fst r")
    case None
    then show ?thesis by (simp add: answer_intros)
  next
    case (Some v)
    have "counted E p N p n m (snd (netlinks_loop s k nls (v, snd r))) \<and> installed p (netlinks_loop s k nls (v, snd r))"
      using r Some by (intro netlinks_pass) simp_all
    then show ?thesis using Some by (simp add: answers_select_finish)
  qed
  have start: "installed p (\<lparr>newreadfds = a, newwritefds = b, may_block = mb, does_block = False, ctx = c\<rparr>, u)"
    for a b mb c and u :: "'a grail" by (simp add: installed_def)
  show ?thesis
    unfolding HandleSelect_def Let_def split_def
    by (intro answers_if answers_done(3) finish sockets_pass) (simp_all add: assms start)
qed

section \<open>The switch\<close>

text \<open>
  The calls for which the protocol holds: \<open>clock_gettime\<close> and \<open>clock_getres\<close> of a real clock
  return with the call still pending, as do \<open>exit\<close> and a wireless query with no such device;
  \<open>clone\<close> schedules the new thread; netlink sockets answer the thread that made them.
\<close>

definition on_netlink :: "int \<Rightarrow> bool" where
  "on_netlink c \<longleftrightarrow> c = SYS_bind \<or> c = SYS_getsockname \<or> c = SYS_sendto \<or> c = SYS_recvmsg \<or> c = SYS_sendmsg"

definition protocol_call :: "int \<Rightarrow> 'x grail \<Rightarrow> bool" where
  "protocol_call c w \<longleftrightarrow>
     c \<noteq> SYS_clock_gettime \<and> c \<noteq> SYS_clock_getres \<and> c \<noteq> SYS_exit \<and> c \<noteq> SYS_clone \<and>
     (c = SYS_ioctl \<longrightarrow> argv 2 w \<noteq> SIOCGIWNAME) \<and>
     (on_netlink c \<longrightarrow> m_netlinks w (c_int (argv 1 w)) = None)"

lemma answers_dispatch:
  assumes "counted E p N p n m w" and "protocol_call c w"
  shows "answers (c = SYS_write \<or> c = SYS_exit_group) E p N n m (dispatch E c w)"
proof -
  have if_open: "answers d E p N n m (if c = k then r else s)"
    if "c = k \<Longrightarrow> answers True E p N n m r" "c \<noteq> k \<Longrightarrow> answers d E p N n m s"
      "k \<in> {SYS_write, SYS_exit_group}" "d = (c = SYS_write \<or> c = SYS_exit_group)" for d k r s
    using that by auto
  show ?thesis
    using assms unfolding dispatch_def protocol_call_def on_netlink_def
    by (intro if_open [where k = SYS_write] if_open [where k = SYS_exit_group] answer_intros
        answers_unanswered | simp)+
qed

section \<open>Closures\<close>

text \<open>
  The closures and events that complete a pending call of \<open>p\<close>, run in the state \<open>w\<close>. The closure
  of a blocking \<open>accept\<close> and that of a \<open>select\<close> on a reader answer the thread at hand, so for
  these it has to be the thread that waits.
\<close>

inductive completion ::
  "'x env \<Rightarrow> pid \<Rightarrow> 'x grail \<Rightarrow> (unit, 'x grail) outcome \<Rightarrow> bool"
  for E :: "'x env" and p :: pid and w :: "'x grail" where
  on_read: "completion E p w (read_callback E p buf l s w)"
| on_recvfrom: "completion E p w (recvfrom_callback E p buf l fl a al s w)"
| on_connected: "completion E p w (connect_success E fd p w)"
| on_refused: "completion E p w (connect_failure E p w)"
| on_accept: "cur_pid w = p \<Longrightarrow> completion E p w (accept_callback E a al p s ad w)"
| on_sleep: "completion E p w (nanosleep_event E p w)"
| on_timeout: "\<not> already_handled w k \<Longrightarrow> completion E p w (select_timeout_event E k p w)"
| on_writable: "sc_pid c = p \<Longrightarrow> \<not> already_handled w (sc_id c) \<Longrightarrow>
    completion E p w (select_send_callback E c s w)"
| on_readable: "sc_pid c = p \<Longrightarrow> cur_pid w = p \<Longrightarrow> \<not> already_handled w (sc_id c) \<Longrightarrow>
    completion E p w (select_recv_callback E c s w)"
| on_connection: "sc_pid c = p \<Longrightarrow> \<not> already_handled w (sc_id c) \<Longrightarrow>
    completion E p w (select_accept_callback E c s ad w)"
| on_reply: "sc_pid c = p \<Longrightarrow> \<not> already_handled w (sc_id c) \<Longrightarrow>
    completion E p w (select_netlink_callback E i c w)"

lemma counted_processed:
  assumes "counted E p N cp n m w" and "res = SYSC_SUCCESS \<or> res = SYSC_FAILURE"
  shows "holds (\<lambda>_. counted E p N cp (Suc n) (Suc m))
    (FAKE4 E p v res w (\<lambda>res w. ProcessStatusCode E res p w))"
  by (rule holds_FAKE4 [OF assms(1)]) (rule resumes_ProcessStatusCode, use assms(2) in auto)

text \<open>A \<open>select\<close> that is answered drops its own timeout from the schedule, and no resumption.\<close>

lemma counted_claim:
  assumes "event_inv w"
  shows "counted E p N cp n m (claim k w) = counted E p N cp n m w"
proof -
  have "filter (\<lambda>e. ev_uid e \<noteq> u \<and> ev_do e = EvHandleSyscallBefore p) (events w) =
      filter (\<lambda>e. ev_do e = EvHandleSyscallBefore p) (events w)" if "timeout_event w k = Some u" for u
  proof (rule filter_cong [OF refl])
    fix e assume "e \<in> set (events w)"
    with assms that have "ev_uid e = u \<Longrightarrow> \<exists>q. ev_do e = EvSelectTimeout k q"
      by (simp add: event_inv_def)
    then show "(ev_uid e \<noteq> u \<and> ev_do e = EvHandleSyscallBefore p) = (ev_do e = EvHandleSyscallBefore p)"
      by auto
  qed
  then show ?thesis
    by (simp add: claim_def Cancel_def counted_def resumes_def conj_commute split: option.split)
qed

lemma counted_select_result:
  assumes "counted E p N cp n m w" and "sc_pid c = p"
  shows "holds (\<lambda>_. counted E p N cp (Suc n) (Suc m)) (select_result E c r t p w)"
  unfolding select_result_def assms(2) store_to_def
  using assms(1) by (simp add: counted_processed split: option.split)

lemma holds_after:
  "holds (\<lambda>_. P) r \<Longrightarrow> (\<And>w. P w \<Longrightarrow> holds (\<lambda>_. P) (k () w)) \<Longrightarrow> holds (\<lambda>_. P) (and_then r k)"
  by (cases r) simp_all

lemma counted_accept:
  assumes "counted E p N p n m w"
  shows "holds (\<lambda>_. counted E p N p (Suc n) (Suc m)) (accept_callback E a al p s ad w)"
proof -
  have answer: "holds (\<lambda>_. counted E p N p (Suc n) (Suc m)) (FAKE2 E q x SYSC_SUCCESS v (\<lambda>res w.
      ProcessStatusCode E res p w))" if "counted E p N p n m v" and "q = p" for x v q
    using counted_processed [OF that(1)] that(2) by (simp add: FAKE2_def FAKE4_def)
  have next_fd: "holds (\<lambda>_. counted E p N p (Suc n) (Suc m)) (and_then (GetNextFD v) (\<lambda>fd w.
      let w1 = enter_connection fd s w in FAKE2 E (cur_pid w1) (c_reg fd) SYSC_SUCCESS w1 (\<lambda>res w.
        ProcessStatusCode E res p w)))" if "counted E p N p n m v" for v
    using counted_helpers(1) [OF that] by (cases "GetNextFD v") (simp_all add: Let_def answer counted_pid)
  show ?thesis
    unfolding accept_callback_def using counted_helpers(3) [OF assms, of ad a al] next_fd
    by (cases "SetBsdAddress E ad a al w") simp_all
qed

lemma completion_counted:
  assumes "completion E p w r" and "event_inv w" and "counted E p N (cur_pid w) n m w"
  shows "holds (\<lambda>_. counted E p N (cur_pid w) (Suc n) (Suc m)) r"
  using assms(1)
proof cases
  case (on_read buf l s)
  then show ?thesis using counted_callbacks(1) [OF assms(3)] by simp
next
  case (on_recvfrom buf l fl a al s)
  then show ?thesis using counted_callbacks(2) [OF assms(3)] by simp
next
  case (on_connected fd)
  then show ?thesis using assms(3) by (simp add: connect_success_def counted_processed)
next
  case on_refused
  then show ?thesis using assms(3) by (simp add: connect_failure_def counted_processed)
next
  case (on_sleep)
  then show ?thesis using assms(3) by (simp add: nanosleep_event_def counted_processed)
next
  case (on_timeout k)
  then show ?thesis using assms(3) by (simp add: select_timeout_event_def counted_processed)
next
  case (on_writable c s)
  then show ?thesis using assms(2,3) unfolding select_send_callback_def
    by (simp add: holds_after counted_select_result counted_claim)
next
  case (on_readable c s)
  then show ?thesis using assms(2,3) unfolding select_recv_callback_def
    by (simp add: holds_after counted_select_result counted_claim)
next
  case (on_connection c s ad)
  then show ?thesis using assms(2,3) unfolding select_accept_callback_def
    by (simp add: Let_def socket_at_def counted_select_result counted_claim split: option.split)
next
  case (on_reply c i)
  then show ?thesis using assms(2,3) unfolding select_netlink_callback_def
    by (simp add: holds_after counted_select_result counted_claim with_nl_def put_nl_def split: option.split)
next
  case (on_accept a al s ad)
  then show ?thesis using counted_accept [of E p N n m w a al s ad] assms(3) by simp
qed

section \<open>Properties\<close>

lemma protocol_call_frame [simp]:
  "protocol_call c (w\<lparr>pollLoopDetector := d\<rparr>) = protocol_call c w"
  by (simp add: protocol_call_def argv_def)

text \<open>A status code that settles the call settles the event.\<close>

lemma accounted_processed:
  assumes "accounted d p N n m res w" and "ProcessStatusCode E res p w = Ret () w'"
  shows "N (xt w') = Suc n \<and> resumes p w' = Suc m \<or>
    N (xt w') = n \<and> resumes p w' = m \<and> (waiting p w' \<or> d)"
  using assms
  by (cases res) (auto simp: accounted_def ProcessStatusCode_def Let_def Schedule_def resumes_def
      split: if_splits)

text \<open>
  (C4) One pass of the program over a stopped call of a thread either answers it or leaves it
  pending, and says so. When the pass returns, the thread has been waited for twice, at the stop
  that began the call and at the stop that ends it, and is scheduled to run on exactly once more
  than before; or it has been waited for once, nothing new resumes it, and a closure or an event
  that names it is installed. Only a blocked \<open>write\<close> and \<open>exit_group\<close> leave a thread that
  nothing will resume.
\<close>

theorem answered_once:
  assumes "counts_waits E p N" and "WaitForSyscall E p (tr w) = Some (0, t)"
    and "protocol_call c (w\<lparr>cur_pid := p, tr := t\<rparr>)" and "c = c_int (get_reg p ORIG_RAX t)"
    and "HandleSyscallBefore E p w = Ret () w'"
  shows "N (xt w') = N (xt w) + 2 \<and> resumes p w' = resumes p w + 1 \<or>
    N (xt w') = N (xt w) + 1 \<and> resumes p w' = resumes p w \<and>
      (waiting p w' \<or> c = SYS_write \<or> c = SYS_exit_group)"
proof -
  define w2 where "w2 = (if m_pollLoopDetection w then w\<lparr>cur_pid := p, tr := t,
    pollLoopDetector := snd (poll_handle (pollLoopDetector w) p c)\<rparr> else w\<lparr>cur_pid := p, tr := t\<rparr>)"
  have run: "and_then (dispatch E c w2) (\<lambda>res w. ProcessStatusCode E res p w) = Ret () w'"
    using assms(2,4,5) by (simp add: HandleSyscallBefore_def Let_def w2_def split: if_splits)
  have "counted E p N p (Suc (N (xt w))) (resumes p w) w2"
    using assms(1) counts_wait [OF assms(1,2)] by (simp add: w2_def counted_def resumes_def)
  moreover have "protocol_call c w2" using assms(3) by (simp add: w2_def)
  ultimately have answered: "answers (c = SYS_write \<or> c = SYS_exit_group) E p N (Suc (N (xt w)))
      (resumes p w) (dispatch E c w2)"
    by (rule answers_dispatch)
  show ?thesis
  proof (cases "dispatch E c w2")
    case (Ret res w3)
    then show ?thesis
      using accounted_processed [of _ p N "Suc (N (xt w))" "resumes p w" res w3 E w'] run answered
      by (auto simp: answers_def)
  qed (use run in simp)
qed


text \<open>A kernel that counts the stops in the simulator's state.\<close>

definition counting_env :: "nat env" where
  "counting_env = demo_env\<lparr>
     k_wait := (\<lambda>p t. (Some 0x857f, (set_reg p RAX 4711 t)\<lparr>ext := Suc (ext t)\<rparr>)),
     e_Random := (\<lambda>x. (0, x))\<rparr>"

lemma counting_wait:
  "WaitForSyscall counting_env p t = Some (0, (set_reg p RAX 4711 t)\<lparr>ext := Suc (ext t)\<rparr>)"
  unfolding WaitForSyscall_def
  by (subst wait_loop_done) (simp_all add: wait_once_def counting_env_def wait_done_def
      syscall_stop_def WIFSTOPPED_def WSTOPSIG_def)

lemma counting_counts: "counts_waits counting_env p (\<lambda>x. x)"
  unfolding counts_waits_def by (simp add: counting_wait) (simp add: counting_env_def demo_env_def)

lemma dispatch_getpid: "dispatch E SYS_getpid w = HandleGetPid E w"
  by (simp add: dispatch_def passed_through_def)

lemma counting_getpid:
  "\<exists>w'. HandleSyscallBefore counting_env 1 (demo_start 39 [0]) = Ret () w' \<and> resumes 1 w' = 1"
  unfolding HandleSyscallBefore_def
  by (simp add: counting_wait demo_start_def GrailApplication_def get_reg_def set_reg_def c_int_def
      dispatch_getpid HandleGetPid_def FAKE_def ProcessStatusCode_def Let_def Schedule_def resumes_def)

theorem answered_once_witness:
  "\<exists>w'. HandleSyscallBefore counting_env 1 (demo_start 39 [0]) = Ret () w' \<and> xt w' = 2 \<and>
    resumes 1 w' = 1"
proof -
  obtain w' where w': "HandleSyscallBefore counting_env 1 (demo_start 39 [0]) = Ret () w'"
    "resumes 1 w' = 1" using counting_getpid by blast
  have start: "resumes 1 (demo_start 39 [0]) = 0" "xt (demo_start 39 [0]) = 0"
    by (simp_all add: demo_start_def GrailApplication_def resumes_def)
  have call: "c_int (get_reg 1 ORIG_RAX (set_reg 1 RAX 4711 (tr (demo_start 39 [0]))\<lparr>ext := e\<rparr>)) = 39" for e
    by (simp add: demo_start_def GrailApplication_def get_reg_def set_reg_def c_int_def)
  have "protocol_call 39 w" for w :: "nat grail" by (simp add: protocol_call_def on_netlink_def)
  from answered_once [OF counting_counts counting_wait this call [symmetric] w'(1)]
  show ?thesis using w' start by auto
qed

lemma counting_start:
  "StartApplication counting_env 1 0 (demo_start 39 [0])
     = HandleSyscallBefore counting_env 1 ((demo_start 39 [0])\<lparr>cur_pid := 1, app_pid := 1\<rparr>)"
  by (simp add: StartApplication_def DoTrace_def NS_ASSERT_def)

lemma counting_sleep: "\<exists>w'. nanosleep_event counting_env 1 w = Ret () w'"
  by (simp add: nanosleep_event_def FAKE4_def counting_wait ProcessStatusCode_def Let_def)


end
