(* ===== verification/Grail_Blocking.thy ===== *)
theory Grail_Blocking
  imports Grail_Dispatch
begin

text \<open>
  Calls on stream sockets across time: what a call that finds data does at once, what a blocked
  one leaves behind, and what the socket's callback does with it later. Two closures that outlive
  their call, those of a blocking \<open>accept\<close> and of a \<open>connect\<close>, are theorems about errors.
\<close>

section \<open>Helper lemmas\<close>

lemma fd_inv_socket_not_random:
  "fd_inv w \<Longrightarrow> m_sockets w fd = Some s \<Longrightarrow> fd \<notin> m_random_fds w"
  unfolding fd_inv_def by blast

lemma socket_emulated: "m_sockets w fd = Some s \<Longrightarrow> FdIsEmulatedSocket fd w"
  by (simp add: FdIsEmulatedSocket_def)

lemma faked_frame [simp]:
  "m_sockets (faked p v w) = m_sockets w" "m_netlinks (faked p v w) = m_netlinks w"
  "m_connectedSockets (faked p v w) = m_connectedSockets w" "events (faked p v w) = events w"
  "availableFDs (faked p v w) = availableFDs w" "cb_accept (faked p v w) = cb_accept w"
  "cb_recv (faked p v w) = cb_recv w" "m_tcpSockets (faked p v w) = m_tcpSockets w"
  "m_random_fds (faked p v w) = m_random_fds w" "cur_pid (faked p v w) = cur_pid w"
  "ev_next (faked p v w) = ev_next w" "m_syscallProcessingTime (faked p v w) = m_syscallProcessingTime w"
  "pollLoopDetector (faked p v w) = pollLoopDetector w"
  by (simp_all add: faked_def)

lemma set_frame [simp]:
  "m_sockets (set_ext x w) = m_sockets w" "events (set_ext x w) = events w"
  "cb_recv (set_ext x w) = cb_recv w" "memory_of (set_ext x w) = memory_of w"
  "xt (set_ext x w) = x" "cb_recv (set_mem m w) = cb_recv w" "events (set_mem m w) = events w"
  by (simp_all add: set_ext_def set_mem_def)

text \<open>The callback of a blocking \<open>read\<close> when the socket has data.\<close>

lemma read_callback_data:
  assumes "getpid_ok E" and "e_Recv E s n (xt w) = ((rlen, bs), x)" and "0 < rlen"
    and "nat rlen \<le> n" and "length bs = nat rlen" and "nat rlen < 2 ^ 63"
    and "mapped (memory_of w) buf (round8 (nat rlen))"
  shows "\<exists>w'. read_callback E p buf n s w = Ret () w' \<and> fetch (memory_of w') buf (nat rlen) = bs \<and>
    get_reg p RAX (tr w') = c_reg rlen \<and> cb_recv w' s = None \<and>
    map ev_do (events w') = map ev_do (events w) @ [EvHandleSyscallBefore p]"
proof -
  have "fetch (store (memory_of w) buf bs) buf (nat rlen) = bs"
    using fetch_store [of bs "memory_of w" buf] assms(5,6) by simp
  then show ?thesis
    using assms
    by (simp add: read_callback_def Let_def copy_to_mapped fakes ProcessStatusCode_def Schedule_def)
qed

section \<open>Properties\<close>





section \<open>Runs on the demo node\<close>

definition demo_tcp :: "sockid \<Rightarrow> 64 word list \<Rightarrow> nat grail" where
  "demo_tcp s xs = (demo_state xs)\<lparr>m_sockets := [100 \<mapsto> s], m_tcpSockets := {100},
     m_connectedSockets := {100}, availableFDs := {101..<200}\<rparr>"

lemma demo_tcp_inv: "fd_inv (demo_tcp s xs)"
  by (auto simp: fd_inv_def demo_tcp_def demo_state_def GrailApplication_def MAX_NUM_FDS_def)

lemma demo_tcp_fields [simp]:
  "m_sockets (demo_tcp s xs) = [100 \<mapsto> s]" "m_tcpSockets (demo_tcp s xs) = {100}"
  "m_connectedSockets (demo_tcp s xs) = {100}" "m_nonblocking_sockets (demo_tcp s xs) = {}"
  "memory_of (demo_tcp s xs) = demo_mem" "cur_pid (demo_tcp s xs) = 1" "xt (demo_tcp s xs) = 0"
  "availableFDs (demo_tcp s xs) = {101..<200}" "events (demo_tcp s xs) = []"
  "m_netlinks (demo_tcp s xs) = Map.empty"
  by (simp_all add: demo_tcp_def demo_state_def GrailApplication_def)

lemma demo_tcp_args: "argv 1 (demo_tcp s (a # xs)) = a" "argv 2 (demo_tcp s (a # b # xs)) = b"
  "argv 3 (demo_tcp s (a # b # c # xs)) = c"
  by (simp_all add: demo_tcp_def demo_state_def GrailApplication_def argv_def arg_def get_reg_def demo_args_def)

lemma demo_mapped_three: "mapped demo_mem 8 (round8 3)"
  by (simp add: demo_mem_def mapped_def round8_def upt_rec)





end
