(* ===== verification/Grail_Waiting.thy ===== *)
theory Grail_Waiting
  imports Grail_Blocking
begin

text \<open>
  \<open>select\<close> when nothing is ready: the loops of \<open>HandleSelect\<close> in closed form, what they leave in
  the slots of the watched sockets, and the wake-up by one of them.
\<close>

section \<open>The loops of a call that blocks\<close>

definition watch_recv ::
  "select_call \<Rightarrow> nat \<Rightarrow> pid \<Rightarrow> fd set \<Rightarrow> fd \<times> sockid \<Rightarrow> (sockid \<Rightarrow> recv_cb option) \<Rightarrow> sockid \<Rightarrow> recv_cb option" where
  "watch_recv s n p L kv r = (if wants_read s (fst kv) \<and> fst kv \<notin> L
     then r(snd kv \<mapsto> RecvSelect (capture s n (fst kv) p)) else r)"

definition watch_accept ::
  "select_call \<Rightarrow> nat \<Rightarrow> pid \<Rightarrow> fd set \<Rightarrow> fd \<times> sockid \<Rightarrow> (sockid \<Rightarrow> accept_cb option) \<Rightarrow> sockid \<Rightarrow> accept_cb option" where
  "watch_accept s n p L kv r = (if wants_read s (fst kv) \<and> fst kv \<in> L
     then r(snd kv \<mapsto> AcceptSelect (capture s n (fst kv) p)) else r)"

lemma sockets_loop_block:
  assumes "writefds s = 0" and "exceptfds s = 0" and "may_block v"
    and "\<forall>(fd, sock)\<in>set kvs. wants_read s fd \<longrightarrow> \<not> sock_readable E w fd sock"
  shows "sockets_loop E s n kvs (v, w) =
    (Some (v\<lparr>does_block := does_block v \<or> (\<exists>kv\<in>set kvs. wants_read s (fst kv))\<rparr>),
     w\<lparr>cb_recv := fold (watch_recv s n (cur_pid w) (m_isListenTcpSocket w)) kvs (cb_recv w),
       cb_accept := fold (watch_accept s n (cur_pid w) (m_isListenTcpSocket w)) kvs (cb_accept w)\<rparr>)"
  using assms(3,4)
proof (induction kvs arbitrary: v w)
  case Nil
  then show ?case by simp
next
  case (Cons kv kvs)
  obtain fd sock where kv: "kv = (fd, sock)" by (cases kv)
  let ?v = "v\<lparr>does_block := does_block v \<or> wants_read s fd\<rparr>"
  let ?w = "w\<lparr>cb_recv := watch_recv s n (cur_pid w) (m_isListenTcpSocket w) kv (cb_recv w),
    cb_accept := watch_accept s n (cur_pid w) (m_isListenTcpSocket w) kv (cb_accept w)\<rparr>"
  have step: "socket_read E s n fd sock (socket_write E s n fd sock (v, w)) = (?v, ?w)"
    using Cons.prems assms(1)
    by (auto simp: kv socket_write_def socket_read_def wants_write_def sock_readable_def blocked_def
        watch_recv_def watch_accept_def)
  have "\<forall>(fd, sock)\<in>set kvs. wants_read s fd \<longrightarrow> \<not> sock_readable E ?w fd sock"
    using Cons.prems(2) by (auto simp: sock_readable_def)
  from Cons.IH [OF _ this, of ?v] show ?case
    using Cons.prems(1) step assms(2)
    by (simp add: kv Let_def wants_except_def disj_assoc)
qed

lemma netlinks_loop_block:
  assumes "may_block v" and "\<forall>(fd, i)\<in>set kvs. wants_read s fd \<longrightarrow> \<not> nl_readable w i"
  shows "\<exists>N d. netlinks_loop s n kvs (v, w) = (v\<lparr>does_block := does_block v \<or> d\<rparr>, w\<lparr>nl_objs := N\<rparr>)"
  using assms
proof (induction kvs arbitrary: v w)
  case Nil
  show ?case by (intro exI [of _ "nl_objs w"] exI [of _ False]) simp
next
  case (Cons kv kvs)
  obtain fd i where kv: "kv = (fd, i)" by (cases kv)
  show ?case
  proof (cases "wants_read s fd \<and> nl_objs w i \<noteq> None")
    case False
    then have "netlinks_loop s n (kv # kvs) (v, w) = netlinks_loop s n kvs (v, w)"
      by (auto simp: kv split: option.split)
    then show ?thesis using Cons by simp
  next
    case True
    then obtain nl where nl: "nl_objs w i = Some nl" by blast
    then have "\<not> HasData nl" using Cons.prems(2) True by (simp add: kv nl_readable_def)
    let ?w = "put_nl i (SetRecvCallback (capture s n fd (cur_pid w)) nl) w"
    have step: "netlinks_loop s n (kv # kvs) (v, w) = netlinks_loop s n kvs (blocked v, ?w)"
      using True nl \<open>\<not> HasData nl\<close> Cons.prems(1) by (simp add: kv)
    have "nl_readable ?w j = nl_readable w j" for j
      using nl by (simp add: nl_readable_def put_nl_def SetRecvCallback_def HasData_def)
    then have "\<forall>(fd, j)\<in>set kvs. wants_read s fd \<longrightarrow> \<not> nl_readable ?w j" using Cons.prems(2) by auto
    moreover have "may_block (blocked v)" using Cons.prems(1) by (simp add: blocked_def)
    ultimately obtain N d where "netlinks_loop s n kvs (blocked v, ?w)
        = ((blocked v)\<lparr>does_block := does_block (blocked v) \<or> d\<rparr>, ?w\<lparr>nl_objs := N\<rparr>)"
      using Cons.IH [of "blocked v" ?w] by blast
    then show ?thesis unfolding step
      by (intro exI [of _ N] exI [of _ True]) (simp add: blocked_def put_nl_def)
  qed
qed

section \<open>The slots of the watched sockets\<close>

lemma fold_watch_recv:
  assumes "\<forall>kv\<in>set kvs. snd kv = sock \<longrightarrow> fst kv = fd"
    and "r sock = Some (RecvSelect (capture s n fd p)) \<or> (fd, sock) \<in> set kvs"
    and "wants_read s fd" and "fd \<notin> L"
  shows "fold (watch_recv s n p L) kvs r sock = Some (RecvSelect (capture s n fd p))"
  using assms(1,2)
proof (induction kvs arbitrary: r)
  case Nil
  then show ?case by simp
next
  case (Cons kv kvs)
  have "watch_recv s n p L kv r sock = Some (RecvSelect (capture s n fd p)) \<or> (fd, sock) \<in> set kvs"
    using Cons.prems assms(3,4) by (cases kv) (auto simp: watch_recv_def)
  then show ?case using Cons.IH [of "watch_recv s n p L kv r"] Cons.prems(1) by simp
qed

lemma pass1_none:
  assumes "writefds s = 0" and "exceptfds s = 0"
    and "\<forall>(fd, sock)\<in>set (map_items (m_sockets w)). wants_read s fd \<longrightarrow> \<not> sock_readable E w fd sock"
    and "\<forall>(fd, i)\<in>set (map_items (m_netlinks w)). wants_read s fd \<longrightarrow> \<not> nl_readable w i"
  shows "pass1 E s w = NoData"
proof -
  have "pass1_sockets E s w kvs = NoData"
    if "\<forall>(fd, sock)\<in>set kvs. wants_read s fd \<longrightarrow> \<not> sock_readable E w fd sock" for kvs
    using that assms(1,2)
    by (induction kvs) (auto simp: wants_write_def wants_except_def sock_readable_def)
  moreover have "pass1_netlinks s w kvs = NoData"
    if "\<forall>(fd, i)\<in>set kvs. wants_read s fd \<longrightarrow> \<not> nl_readable w i" for kvs
    using that assms(2)
    by (induction kvs) (auto simp: wants_except_def nl_readable_def split: option.splits)
  ultimately show ?thesis using assms(3,4) by (simp add: pass1_def)
qed

text \<open>The variables and the state of a blocking call with something to watch.\<close>

definition watching :: "select_call \<Rightarrow> nat \<Rightarrow> 'x grail \<Rightarrow> 'x grail \<Rightarrow> bool" where
  "watching s n w w' \<longleftrightarrow> (\<exists>N. w' = w\<lparr>nl_objs := N,
     cb_recv := fold (watch_recv s n (cur_pid w) (m_isListenTcpSocket w)) (map_items (m_sockets w)) (cb_recv w),
     cb_accept := fold (watch_accept s n (cur_pid w) (m_isListenTcpSocket w)) (map_items (m_sockets w)) (cb_accept w)\<rparr>)"

lemma loops_block:
  assumes "writefds s = 0" and "exceptfds s = 0" and "may_block v" and "fd_inv w"
    and "\<forall>d. wants_read s d \<longrightarrow> \<not> readable E w d"
    and "m_sockets w fd = Some sock" and "wants_read s fd"
  shows "pass1 E s w = NoData" "\<exists>v1 w1 v2 w2. sockets_loop E s n (map_items (m_sockets w)) (v, w) = (Some v1, w1) \<and>
    netlinks_loop s n (map_items (m_netlinks w1)) (v1, w1) = (v2, w2) \<and> may_block v2 \<and> does_block v2 \<and>
    watching s n w w2"
proof -
  have fin: "finite (dom (m_sockets w))" "finite (dom (m_netlinks w))"
    using fd_inv_finite_tables [OF assms(4)] by simp_all
  have no: "\<forall>(fd, sock)\<in>set (map_items (m_sockets w)). wants_read s fd \<longrightarrow> \<not> sock_readable E w fd sock"
    "\<forall>(fd, i)\<in>set (map_items (m_netlinks w)). wants_read s fd \<longrightarrow> \<not> nl_readable w i"
    using assms(5) by (auto simp: map_items_set fin readable_def)
  show "pass1 E s w = NoData" by (rule pass1_none [OF assms(1,2) no])
  let ?L = "m_isListenTcpSocket w" and ?kvs = "map_items (m_sockets w)"
  let ?v1 = "v\<lparr>does_block := does_block v \<or> (\<exists>kv\<in>set ?kvs. wants_read s (fst kv))\<rparr>"
  let ?w1 = "w\<lparr>cb_recv := fold (watch_recv s n (cur_pid w) ?L) ?kvs (cb_recv w),
    cb_accept := fold (watch_accept s n (cur_pid w) ?L) ?kvs (cb_accept w)\<rparr>"
  have s1: "sockets_loop E s n ?kvs (v, w) = (Some ?v1, ?w1)"
    by (rule sockets_loop_block [OF assms(1-3) no(1)])
  have "(fd, sock) \<in> set ?kvs" using assms(6) by (simp add: map_items_set fin)
  then have block: "does_block ?v1" using assms(7) by force
  have "\<forall>(fd, i)\<in>set (map_items (m_netlinks w)). wants_read s fd \<longrightarrow> \<not> nl_readable ?w1 i"
    using no(2) by (auto simp: nl_readable_def)
  then obtain N d where s2: "netlinks_loop s n (map_items (m_netlinks w)) (?v1, ?w1)
      = (?v1\<lparr>does_block := does_block ?v1 \<or> d\<rparr>, ?w1\<lparr>nl_objs := N\<rparr>)"
    using netlinks_loop_block [of ?v1 "map_items (m_netlinks w)" s ?w1 n] assms(3) by auto
  have "m_netlinks ?w1 = m_netlinks w" by simp
  note s2 = s2 [folded this]
  have "watching s n w (?w1\<lparr>nl_objs := N\<rparr>)" unfolding watching_def by (intro exI [of _ N]) simp
  moreover have "may_block (?v1\<lparr>does_block := does_block ?v1 \<or> d\<rparr>)" using assms(3) by simp
  moreover have "does_block (?v1\<lparr>does_block := does_block ?v1 \<or> d\<rparr>)" using block by simp
  ultimately show "\<exists>v1 w1 v2 w2. sockets_loop E s n (map_items (m_sockets w)) (v, w) = (Some v1, w1) \<and>
    netlinks_loop s n (map_items (m_netlinks w1)) (v1, w1) = (v2, w2) \<and> may_block v2 \<and> does_block v2 \<and>
    watching s n w w2"
    using s1 s2 by blast
qed

section \<open>The call and its wake-up\<close>

definition arm_timeout :: "'x env \<Rightarrow> addr \<Rightarrow> int \<Rightarrow> nat \<Rightarrow> 'x grail \<Rightarrow> 'x grail" where
  "arm_timeout E t d n w = (if t = 0 then w else
     (Schedule E d (EvSelectTimeout n (cur_pid w)) w)\<lparr>timeout_event := (timeout_event w)(n \<mapsto> ev_next w)\<rparr>)"

lemma HandleSelect_block:
  assumes "fd_inv w" and "argv 3 w = 0" and "argv 4 w = 0" and "t = argv 5 w"
    and "tv = LoadFromTracee (memory_of w) (replicate 16 0) t"
    and "t = 0 \<or> le_long (take 8 tv) \<noteq> 0 \<or> le_long (drop 8 tv) \<noteq> 0"
    and "s = select_of E w" and "m_sockets w fd = Some sock" and "wants_read s fd"
    and "\<forall>d. wants_read s d \<longrightarrow> \<not> readable E w d"
  shows "\<exists>w1. HandleSelect E w = Ret SYSC_DELAYED (arm_timeout E t
      (le_long (take 8 tv) * 1000000000 + le_long (drop 8 tv) * 1000) (sel_next w) w1) \<and>
    watching s (sel_next w) (fresh_cells w) w1"
proof -
  have w1: "m_sockets (fresh_cells w) = m_sockets w" "fd_inv (fresh_cells w)"
    "readable E (fresh_cells w) d = readable E w d" for d
    using assms(1)
    by (simp_all add: fresh_cells_def readable_def sock_readable_def nl_readable_def)
  have s0: "writefds s = 0" "exceptfds s = 0" using assms(2,3,7) by (simp_all add: select_of_def)
  define v where "v = \<lparr>newreadfds = FD_ZERO, newwritefds = FD_ZERO, may_block = True,
    does_block = False, ctx = 0\<rparr>"
  have mb: "may_block v" by (simp add: v_def)
  have no: "\<forall>d. wants_read s d \<longrightarrow> \<not> readable E (fresh_cells w) d" using assms(10) w1(3) by simp
  have sock: "m_sockets (fresh_cells w) fd = Some sock" using assms(8) w1(1) by simp
  note loops = loops_block [OF s0 mb w1(2) no sock assms(9)]
  obtain v1 w1 v2 w2 where l1: "sockets_loop E s (sel_next w) (map_items (m_sockets (fresh_cells w))) (v, fresh_cells w)
      = (Some v1, w1)"
    and l2: "netlinks_loop s (sel_next w) (map_items (m_netlinks w1)) (v1, w1) = (v2, w2)"
    and fin: "may_block v2" "does_block v2" "watching s (sel_next w) (fresh_cells w) w2"
    using loops(2) [of "sel_next w"] by blast
  have "HandleSelect E w = select_finish E s (sel_next w) t
      (le_long (take 8 tv) * 1000000000 + le_long (drop 8 tv) * 1000) v2 w2"
    using assms(6) loops(1) l1 l2
    unfolding HandleSelect_def Let_def assms(4) [symmetric] assms(5) [symmetric]
      select_of_def [symmetric] assms(7) [symmetric] fresh_cells_def [symmetric] v_def
    by (simp add: disj_imp)
  then show ?thesis using fin by (auto simp: select_finish_def arm_timeout_def Schedule_def Let_def)
qed

lemma watching_frame:
  assumes "watching s n w w'"
  shows "tr w' = tr w" "cur_pid w' = cur_pid w" "events w' = events w" "ev_next w' = ev_next w"
    "already_handled w' = already_handled w" "timeout_event w' = timeout_event w"
  using assms by (auto simp: watching_def)

lemma watching_slot:
  assumes "watching s n w w'" and "fd_inv w" and "m_sockets w fd = Some sock"
    and "\<forall>d. m_sockets w d = Some sock \<longrightarrow> d = fd" and "wants_read s fd" and "fd \<notin> m_isListenTcpSocket w"
  shows "cb_recv w' sock = Some (RecvSelect (capture s n fd (cur_pid w)))"
proof -
  have "finite (dom (m_sockets w))" using fd_inv_finite_tables [OF assms(2)] by simp
  then have set: "set (map_items (m_sockets w)) = {kv. m_sockets w (fst kv) = Some (snd kv)}"
    by (simp add: map_items_set split_def)
  have u: "\<forall>kv\<in>set (map_items (m_sockets w)). snd kv = sock \<longrightarrow> fst kv = fd"
    unfolding set using assms(4) by blast
  have m: "(fd, sock) \<in> set (map_items (m_sockets w))" unfolding set using assms(3) by simp
  have "fold (watch_recv s n (cur_pid w) (m_isListenTcpSocket w)) (map_items (m_sockets w)) (cb_recv w) sock
      = Some (RecvSelect (capture s n fd (cur_pid w)))"
    by (rule fold_watch_recv [OF u disjI2 [OF m] assms(5,6)])
  then show ?thesis using assms(1) by (auto simp: watching_def)
qed

lemma claim_frame [simp]:
  "memory_of (claim n w) = memory_of w" "cur_pid (claim n w) = cur_pid w" "already_handled (claim n w) n"
  "events (claim n w) = filter (\<lambda>e. timeout_event w n \<noteq> Some (ev_uid e)) (events w)"
  by (auto simp: claim_def Cancel_def split: option.split intro: filter_cong)

lemma select_recv_wakes:
  assumes "getpid_ok E" and "\<not> already_handled w (sc_id c)" and "sc_readfds c = r" and "r \<noteq> 0"
    and "sc_writefds c = 0" and "sc_exceptfds c = 0" and "mapped (memory_of w) r 128"
    and "0 \<le> sc_fd c" and "sc_fd c < 1024"
  shows "\<exists>w'. select_recv_callback E c sock w = Ret () w' \<and>
    (\<forall>d. 0 \<le> d \<and> d < 1024 \<longrightarrow> FD_ISSET d (copy_in (memory_of w') r 128) = (d = sc_fd c)) \<and>
    get_reg (cur_pid w) RAX (tr w') = 1 \<and> already_handled w' (sc_id c) \<and> cb_recv w' sock = None \<and>
    map ev_do (events w') = map ev_do (filter (\<lambda>e. timeout_event w (sc_id c) \<noteq> Some (ev_uid e)) (events w))
      @ [EvHandleSyscallBefore (sc_pid c)]"
proof -
  let ?set = "FD_SET (sc_fd c) FD_ZERO"
  define m where "m = store (memory_of w) r ?set"
  have c: "copy_out (memory_of w) r ?set = Some m"
    using assms(7) by (simp add: copy_out_eq round8_def m_def)
  have "copy_in m r 128 = ?set" using tc.round_trip [OF _ c] by simp
  then have "FD_ISSET d (copy_in m r 128) = (d = sc_fd c)" if "0 \<le> d" "d < 1024" for d
    using that assms(8,9) by (simp add: FD_ISSET_SET)
  then show ?thesis
    using assms(1-6) c
    by (simp add: select_recv_callback_def select_result_def store_to_null store_to_def StoreToTracee_def
        fakes ProcessStatusCode_def Schedule_def Let_def)
      (simp add: set_mem_def faked_def)
qed

section \<open>Properties\<close>


section \<open>A run on the demo node\<close>

definition demo_watch :: "nat grail" where
  "demo_watch = set_mem (memory_of demo_select)
     ((demo_state [101, 8, 0, 0, 0])\<lparr>m_sockets := [100 \<mapsto> 5], availableFDs := {101..<200}\<rparr>)"

lemma demo_watch_fields [simp]:
  "argv 2 demo_watch = 8" "argv 3 demo_watch = 0" "argv 4 demo_watch = 0" "argv 5 demo_watch = 0"
  "cur_pid demo_watch = 1" "m_sockets demo_watch = [100 \<mapsto> 5]" "m_netlinks demo_watch = Map.empty"
  "m_isListenTcpSocket demo_watch = {}" "sel_next demo_watch = 0" "memory_of demo_watch = memory_of demo_select"
  "m_fakeAcceptedSockets demo_watch = Map.empty" "events demo_watch = []" "\<not> already_handled demo_watch n"
  by (simp_all add: demo_watch_def set_mem_def demo_state_def GrailApplication_def argv_def arg_def
      get_reg_def demo_args_def)

lemma demo_watch_inv: "fd_inv demo_watch"
  by (auto simp: fd_inv_def demo_watch_def set_mem_def demo_state_def GrailApplication_def MAX_NUM_FDS_def)


end
