(* ===== verification/Grail_Datagram.thy ===== *)
theory Grail_Datagram
  imports Grail_Blocking
begin

text \<open>
  Datagrams: what \<open>recvfrom\<close> leaves in the tracee's memory, what \<open>sendto\<close> takes from it, and the
  exchange of a program that answers whom it heard from.
\<close>

section \<open>Memory\<close>

lemma fetch_store_apart:
  assumes "apart a (length bs) b n"
  shows "fetch (store m a bs) b n = fetch m b n"
proof (rule nth_equalityI)
  fix i assume "i < length (fetch (store m a bs) b n)"
  then have i: "i < n" by simp
  then have "length bs \<le> unat (b + of_nat i - a)" using assms by (simp add: apart_def list_all_iff)
  with i show "fetch (store m a bs) b n ! i = fetch m b n ! i" by (simp add: store_outside)
qed simp

section \<open>recvfrom\<close>

text \<open>The memory after a datagram was delivered: address, length of the address, payload.\<close>

definition delivered :: "addr \<Rightarrow> addr \<Rightarrow> addr \<Rightarrow> byte list \<Rightarrow> ip \<Rightarrow> 16 word \<Rightarrow> memory \<Rightarrow> memory" where
  "delivered a l buf bs ip port m =
     store (store (store m a (sockaddr_in ip port)) l (le_bytes 4 16)) buf bs"

lemma delivered_fetch:
  assumes "length bs < 2 ^ 63" and "apart l 4 a 16" and "apart buf (length bs) a 16"
    and "apart buf (length bs) l 4"
  shows "fetch (delivered a l buf bs ip port m) a 16 = sockaddr_in ip port"
    "fetch (delivered a l buf bs ip port m) l 4 = le_bytes 4 16"
    "fetch (delivered a l buf bs ip port m) buf (length bs) = bs"
proof -
  have "fetch (store m a (sockaddr_in ip port)) a 16 = sockaddr_in ip port"
    using fetch_store [of "sockaddr_in ip port"] by simp
  moreover have "fetch (store m' l (le_bytes 4 16)) l 4 = le_bytes 4 16" for m'
    using fetch_store [of "le_bytes 4 16"] by simp
  ultimately show "fetch (delivered a l buf bs ip port m) a 16 = sockaddr_in ip port"
    "fetch (delivered a l buf bs ip port m) l 4 = le_bytes 4 16"
    "fetch (delivered a l buf bs ip port m) buf (length bs) = bs"
    using assms fetch_store [of bs] by (simp_all add: delivered_def fetch_store_apart)
qed

lemma recvfrom_callback_data:
  assumes "getpid_ok E" and "ip_text_ok E" and "a \<noteq> 0"
    and "e_RecvFrom E s n fl (xt w) = ((rlen, bs, InetSocketAddress ip port), x)"
    and "0 < rlen" and "nat rlen \<le> n" and "length bs = nat rlen" and "nat rlen < 2 ^ 63"
    and "16 \<le> le_nat (copy_in (memory_of w) l 4)" and "mapped (memory_of w) a 16"
    and "mapped (memory_of w) l 8" and "mapped (memory_of w) buf (round8 (nat rlen))"
  shows "\<exists>w'. recvfrom_callback E p buf n fl a l s w = Ret () w' \<and> xt w' = x \<and>
    memory_of w' = delivered a l buf bs ip port (memory_of w) \<and>
    get_reg p RAX (tr w') = c_reg rlen \<and> cb_recv w' s = None \<and>
    map ev_do (events w') = map ev_do (events w) @ [EvHandleSyscallBefore p]"
proof -
  have "SetBsdAddress E (InetSocketAddress ip port) a l (set_ext x w)
      = Ret True (set_mem (with_address a l ip port (memory_of w)) (set_ext x w))"
    using SetBsdAddress_stores [OF assms(2,3), of "set_ext x w"] assms(9-11) by simp
  then show ?thesis
    using assms(1,4-8,12)
    by (simp add: recvfrom_callback_def Let_def copy_to_mapped with_address_def mapped_store fakes
        ProcessStatusCode_def Schedule_def delivered_def)
qed

section \<open>sendto\<close>

lemma HandleSendTo_data:
  assumes "getpid_ok E" and "ip_text_ok E" and "m_sockets w (c_int (argv 1 w)) = Some s"
    and "argv 4 w = 0" and "argv 5 w \<noteq> 0" and "c_uint (argv 6 w) = 16"
    and "mapped (memory_of w) (argv 5 w) 16"
    and "fetch (memory_of w) (argv 5 w) 16 = sockaddr_in ip port"
    and "mapped (memory_of w) (argv 2 w) (round8 (unat (argv 3 w)))"
    and "e_SendTo E s (fetch (memory_of w) (argv 2 w) (unat (argv 3 w))) 0
      (InetSocketAddress ip port) (xt w) = (ret, x)"
  shows "HandleSendTo E cb w = Ret SYSC_SUCCESS (faked (cur_pid w) (c_reg ret) (set_ext x w))"
proof -
  have "copy_in (memory_of w) (argv 5 w) 16 = sockaddr_in ip port"
    using assms(7,8) by (simp add: tc.cin_mapped round8_def)
  then have "GetNs3Address E (argv 5 w) 16 w = Ret (Some (InetSocketAddress ip port)) w"
    by (rule GetNs3Address_sockaddr [OF assms(2)])
  moreover have "cur_pid (set_ext x w) = cur_pid w" by (simp add: set_ext_def)
  ultimately show ?thesis
    unfolding HandleSendTo_def Let_def
    using assms(1,3-6,9,10) by (simp add: tc.cin_mapped fakes del: One_nat_def)
qed

section \<open>Properties\<close>


section \<open>A run on the demo node\<close>

definition demo_udp_env :: "nat env" where
  "demo_udp_env = demo_text_env\<lparr>e_IsTcp := (\<lambda>s x. False)\<rparr>"

definition demo_udp :: "memory \<Rightarrow> 64 word list \<Rightarrow> nat grail" where
  "demo_udp m xs = set_mem m ((demo_state xs)\<lparr>m_sockets := [100 \<mapsto> 7]\<rparr>)"

lemma demo_udp_fields [simp]:
  "m_sockets (demo_udp m xs) = [100 \<mapsto> 7]" "memory_of (demo_udp m xs) = m" "xt (demo_udp m xs) = 0"
  "cur_pid (demo_udp m xs) = 1" "events (demo_udp m xs) = []"
  by (simp_all add: demo_udp_def demo_state_def GrailApplication_def set_mem_def)

lemma demo_udp_args:
  "argv 1 (demo_udp m [b1, b2, b3, b4, b5, b6]) = b1" "argv 2 (demo_udp m [b1, b2, b3, b4, b5, b6]) = b2"
  "argv 3 (demo_udp m [b1, b2, b3, b4, b5, b6]) = b3" "argv 4 (demo_udp m [b1, b2, b3, b4, b5, b6]) = b4"
  "argv 5 (demo_udp m [b1, b2, b3, b4, b5, b6]) = b5" "argv 6 (demo_udp m [b1, b2, b3, b4, b5, b6]) = b6"
  by (simp_all add: demo_udp_def demo_state_def GrailApplication_def set_mem_def argv_def arg_def get_reg_def
      demo_args_def)

lemma demo_udp_ok: "getpid_ok demo_udp_env" "ip_text_ok demo_udp_env"
  using demo_kernel_getpid [of demo_udp_env] demo_text_ok
  by (simp_all add: demo_udp_env_def demo_text_env_def ip_text_ok_def)

lemma demo_udp_mapped:
  "mapped (store demo_mem b bs) 8 16" "mapped (store demo_mem b bs) 32 8"
  "mapped (store demo_mem b bs) 48 (round8 3)"
  by (rule mapped_store, simp add: mapped_def demo_mem_def upt_rec round8_def)+


end
