(* ===== verification/Grail_Connect.thy ===== *)
theory Grail_Connect
  imports Grail_Datagram
begin

text \<open>
  Connections: a \<open>connect\<close> from the call to the answer of the simulator, and the way of an incoming
  connection from \<open>listen\<close> through the default closure of the listening socket to \<open>accept\<close>.
\<close>

section \<open>Properties\<close>


lemma listening_emulated: "fd_inv w \<Longrightarrow> fd \<in> m_isListenTcpSocket w \<Longrightarrow> FdIsEmulatedSocket fd w"
  by (auto simp: fd_inv_def FdIsEmulatedSocket_def)


section \<open>Runs on the demo node\<close>

definition demo_stream :: "memory \<Rightarrow> 64 word list \<Rightarrow> nat grail" where
  "demo_stream m xs = set_mem m ((demo_tcp 5 xs)\<lparr>m_connectedSockets := {}\<rparr>)"

definition demo_listening :: "memory \<Rightarrow> 64 word list \<Rightarrow> nat grail" where
  "demo_listening m xs = (demo_stream m xs)\<lparr>m_isListenTcpSocket := {100},
     m_fakeAcceptedSockets := [100 \<mapsto> (9, InetSocketAddress 0x0a000002 81)]\<rparr>"

lemma demo_stream_fields [simp]:
  "m_sockets (demo_stream m xs) = [100 \<mapsto> 5]" "m_tcpSockets (demo_stream m xs) = {100}"
  "m_isListenTcpSocket (demo_stream m xs) = {}" "memory_of (demo_stream m xs) = m"
  "cur_pid (demo_stream m xs) = 1" "xt (demo_stream m xs) = 0"
  "argv 1 (demo_stream m [b1, b2, b3]) = b1" "argv 2 (demo_stream m [b1, b2, b3]) = b2"
  "argv 3 (demo_stream m [b1, b2, b3]) = b3"
  by (simp_all add: demo_stream_def demo_tcp_def demo_state_def GrailApplication_def set_mem_def
      argv_def arg_def get_reg_def demo_args_def)

lemma demo_listening_fields [simp]:
  "m_isListenTcpSocket (demo_listening m xs) = {100}" "memory_of (demo_listening m xs) = m"
  "m_fakeAcceptedSockets (demo_listening m xs) = [100 \<mapsto> (9, InetSocketAddress 0x0a000002 81)]"
  "availableFDs (demo_listening m xs) = {101..<200}" "cur_pid (demo_listening m xs) = 1"
  "argv 1 (demo_listening m [b1, b2, b3]) = b1" "argv 2 (demo_listening m [b1, b2, b3]) = b2"
  "argv 3 (demo_listening m [b1, b2, b3]) = b3"
  by (simp_all add: demo_listening_def demo_stream_def demo_tcp_def demo_state_def GrailApplication_def
      set_mem_def argv_def arg_def get_reg_def demo_args_def)

lemma demo_listening_inv: "fd_inv (demo_listening m xs)"
  by (auto simp: fd_inv_def demo_listening_def demo_stream_def demo_tcp_def demo_state_def
      GrailApplication_def MAX_NUM_FDS_def set_mem_def)

lemma demo_text_getpid: "getpid_ok demo_text_env"
  using demo_kernel_getpid [of demo_text_env] by (simp add: demo_text_env_def)



end
