(* ===== verification/Grail_Range.thy ===== *)
theory Grail_Range
  imports Grail_Dispatch
begin

text \<open>
  The descriptor tables of \<^verbatim>\<open>src/model/grail.cc\<close> as types. A handler that finds a descriptor in
  one set, say that of the TCP sockets, goes on to look it up with \<open>m_sockets.at(fd)\<close>, which
  throws \<open>std::out_of_range\<close>, and the simulation dies, if the descriptor is no socket. What is
  kept of the sets in every reachable state makes these look-ups safe, with exceptions that are
  listed exactly.
\<close>

section \<open>Handlers that do not throw\<close>

definition in_range :: "('a, 'w) outcome \<Rightarrow> bool" where
  "in_range r = (case r of Ret a w \<Rightarrow> True | Halt h w \<Rightarrow> h \<noteq> OutOfRange)"

named_theorems range_intros "introduction rules for handlers that do not throw"

lemma in_range_simps [simp]: "in_range (Ret a w)" "in_range (Halt h w) \<longleftrightarrow> h \<noteq> OutOfRange"
  by (simp_all add: in_range_def)

lemma in_rangeD: "in_range r \<Longrightarrow> r \<noteq> Halt OutOfRange w"
  by auto

lemma in_range_and_then [range_intros]:
  "in_range r \<Longrightarrow> (\<And>a w. r = Ret a w \<Longrightarrow> in_range (k a w)) \<Longrightarrow> in_range (and_then r k)"
  by (cases r) simp_all

lemma in_range_if [range_intros]:
  "(b \<Longrightarrow> in_range r) \<Longrightarrow> (\<not> b \<Longrightarrow> in_range s) \<Longrightarrow> in_range (if b then r else s)"
  by simp

lemma in_range_option [range_intros]:
  "(x = None \<Longrightarrow> in_range r) \<Longrightarrow> (\<And>y. x = Some y \<Longrightarrow> in_range (s y)) \<Longrightarrow>
   in_range (case x of None \<Rightarrow> r | Some y \<Rightarrow> s y)"
  by (cases x) simp_all

lemma in_range_list [range_intros]:
  "(x = [] \<Longrightarrow> in_range r) \<Longrightarrow> (\<And>y ys. x = y # ys \<Longrightarrow> in_range (s y ys)) \<Longrightarrow>
   in_range (case x of [] \<Rightarrow> r | y # ys \<Rightarrow> s y ys)"
  by (cases x) simp_all

lemma in_range_prod [range_intros]:
  "(\<And>a b. x = (a, b) \<Longrightarrow> in_range (s a b)) \<Longrightarrow> in_range (case x of (a, b) \<Rightarrow> s a b)"
  by (cases x) simp

lemma in_range_NS_ASSERT [range_intros]: "(b \<Longrightarrow> in_range (k w)) \<Longrightarrow> in_range (NS_ASSERT b w k)"
  by (simp add: NS_ASSERT_def)

lemma in_range_FAKE [range_intros]:
  "(\<And>t. in_range (k (w\<lparr>tr := t\<rparr>))) \<Longrightarrow> in_range (FAKE E p v w k)"
  by (simp add: FAKE_def split: option.split)

lemma in_range_FAKE2 [range_intros]:
  "(\<And>r t. in_range (k r (w\<lparr>tr := t\<rparr>))) \<Longrightarrow> in_range (FAKE2 E p v res w k)"
  by (simp add: FAKE2_def split: option.split)

lemma in_range_FAKE4 [range_intros]:
  "(\<And>r t. in_range (k r (w\<lparr>tr := t\<rparr>))) \<Longrightarrow> in_range (FAKE4 E p v res w k)"
  by (simp add: FAKE4_def split: option.split)

lemma in_range_copy_to [range_intros]:
  "(\<And>m. in_range (k (set_mem m w))) \<Longrightarrow> in_range (copy_to a bs w k)"
  by (simp add: copy_to_def split: option.split)

lemma in_range_store_to [range_intros]:
  "(\<And>m. in_range (k (set_mem m w))) \<Longrightarrow> in_range (store_to a bs w k)"
  by (simp add: store_to_def split: option.split)

lemma in_range_with_nl [range_intros]:
  "(\<And>s. nl_objs w n = Some s \<Longrightarrow> in_range (k s)) \<Longrightarrow> in_range (with_nl n w k)"
  by (simp add: with_nl_def split: option.split)

lemma in_range_socket_at [range_intros]:
  "m_sockets w fd \<noteq> None \<Longrightarrow> (\<And>s. in_range (k s)) \<Longrightarrow> in_range (socket_at fd w k)"
  by (auto simp: socket_at_def)

lemma in_range_basic [range_intros]:
  "in_range (HandleSyscallAfter E w)" "in_range (HandleSyscallAfterClone E w)"
  "in_range (ProcessStatusCode E res p w)" "in_range (GetNextFD w)"
  "in_range (GetNs3Address E a n w)" "in_range (SetBsdAddress E ad a l w)"
  "in_range (GetNetDeviceByName E s w)"
  unfolding HandleSyscallAfter_def HandleSyscallAfterClone_def GetNextFD_def GetNs3Address_def
    SetBsdAddress_def GetNetDeviceByName_def Let_def
  by (auto simp: ProcessStatusCode_def Let_def intro!: range_intros
      split: option.split sysc.split address.split)

lemma GetNs3Address_state: "GetNs3Address E a n w = Ret r w' \<Longrightarrow> w' = w"
  by (auto simp: GetNs3Address_def NS_ASSERT_def Let_def split: if_splits)

section \<open>The closures and the netlink sockets\<close>

lemma in_range_select_result [range_intros]: "in_range (select_result E c r t p w)"
  unfolding select_result_def by (intro range_intros)

lemma in_range_netlink_callback [range_intros]: "in_range (select_netlink_callback E n f w)"
  unfolding select_netlink_callback_def by (intro range_intros) simp_all

lemma in_range_closures [range_intros]:
  "in_range (read_callback E p buf n sock w)" "in_range (recvfrom_callback E p buf n fl ad l sock w)"
  "in_range (accept_callback E ad l p sock addr w)" "in_range (fakeAccept fd sock addr w)"
  "in_range (connect_success E fd p w)" "in_range (connect_failure E p w)"
  "in_range (select_send_callback E c sock w)" "in_range (select_recv_callback E c sock w)"
  "in_range (select_timeout_event E k p w)" "in_range (nanosleep_event E p w)"
  unfolding read_callback_def recvfrom_callback_def accept_callback_def fakeAccept_def
    connect_success_def connect_failure_def select_send_callback_def select_recv_callback_def
    select_timeout_event_def nanosleep_event_def Let_def split_def
  by (intro range_intros | simp)+

lemma route_attr_range: "route_attr E b buf cur a \<noteq> Inl OutOfRange"
  by (simp add: route_attr_def Let_def)

lemma rta_loop_range: "rta_loop E b buf cur l a \<noteq> Inl OutOfRange"
proof (induction E b buf cur l a rule: rta_loop.induct)
  case (1 E b buf cur l a)
  then show ?case
    using route_attr_range [of E b buf cur a]
    by (subst rta_loop.simps) (auto simp: Let_def split: sum.split)
qed

lemma GETLINK_loop_range: "GETLINK_loop E x i k c s = (Some h, s1) \<Longrightarrow> h \<noteq> OutOfRange"
  by (induction k arbitrary: i c s) (auto simp: Let_def split: option.splits)

lemma in_range_ROUTE_request [range_intros]: "in_range (ROUTE_request E b n buf off w)"
  unfolding ROUTE_request_def Let_def
  by (intro range_intros)
    (auto split: sum.split option.split dest: rta_loop_range [THEN notE])

lemma in_range_call_back [range_intros]: "in_range (call_back (select_netlink_callback E) n w)"
  unfolding call_back_def by (intro range_intros) (simp_all add: range_intros)

lemma in_range_ProcessNlmsghdr [range_intros]:
  "in_range (ProcessNlmsghdr E (select_netlink_callback E) n buf off w)"
  unfolding ProcessNlmsghdr_def Let_def
  by (intro range_intros) (auto dest: GETLINK_loop_range)

lemma in_range_nlmsg_loop:
  assumes "nlmsg_loop E (select_netlink_callback E) n buf off rem w = Some r"
  shows "in_range r"
proof -
  have "select_netlink_callback E = select_netlink_callback E \<longrightarrow> in_range r"
  proof (rule nlmsg_loop.raw_induct [where P = "\<lambda>E cb n buf off rem w r.
      cb = select_netlink_callback E \<longrightarrow> in_range r", OF _ assms])
    fix loop E and cb :: "nat \<Rightarrow> select_capture \<Rightarrow> 'a grail \<Rightarrow> (unit, 'a grail) outcome"
      and n buf off rem w r
    assume "\<And>E cb n buf off rem w r. loop E cb n buf off rem w = Some r \<Longrightarrow>
        cb = select_netlink_callback E \<longrightarrow> in_range r"
      and "(let nlmsg_len = le_nat (take 4 (drop off buf)) in
        if e_nlmsg_ok E nlmsg_len rem then
          (case ProcessNlmsghdr E cb n buf off w of
             Ret _ w1 \<Rightarrow> loop E cb n buf (off + fst (e_nlmsg_next E nlmsg_len rem))
               (snd (e_nlmsg_next E nlmsg_len rem)) w1
           | Halt h w1 \<Rightarrow> Some (Halt h w1))
        else Some (Ret rem w)) = Some r"
    then show "cb = select_netlink_callback E \<longrightarrow> in_range r"
      using in_range_ProcessNlmsghdr [of E n buf off w]
      by (auto simp: Let_def split: if_splits outcome.splits)
  qed
  then show ?thesis by simp
qed

lemma in_range_run_nlmsgs [range_intros]:
  "in_range (run_nlmsgs E (select_netlink_callback E) n buf rem w)"
  by (simp add: run_nlmsgs_def in_range_nlmsg_loop split: option.split)

lemma in_range_iov_loop [range_intros]:
  "in_range (iov_loop E (select_netlink_callback E) n p k t w)"
  by (induction k arbitrary: p t w) (auto simp: Let_def intro!: range_intros)

lemma in_range_nl_handlers [range_intros]:
  "in_range (nl_HandleBind E n a w)" "in_range (nl_HandleGetSockName E n a l w)"
  "in_range (nl_HandleRecvMsg E n a w)"
  "in_range (nl_HandleSendMsg E (select_netlink_callback E) n a w)"
  "in_range (nl_HandleSendTo E (select_netlink_callback E) n a len fl w)"
  unfolding nl_HandleBind_def nl_HandleGetSockName_def nl_HandleRecvMsg_def nl_HandleSendMsg_def
    nl_HandleSendTo_def Let_def
  by (intro range_intros | simp)+

section \<open>The handlers\<close>

lemma in_range_files [range_intros]:
  "in_range (HandleGetPid E w)" "in_range (HandlePipe2 E w)" "in_range (HandleGetRUsage E w)"
  "in_range (HandleGetRandom E w)" "in_range (HandleFcntl E w)" "in_range (HandleRead E w)"
  "in_range (HandleOpen E w)" "in_range (HandleOpenAt E w)" "in_range (HandleClose E w)"
  unfolding HandleGetPid_def HandlePipe2_def HandleGetRUsage_def HandleGetRandom_def HandleFcntl_def
    HandleRead_def HandleOpen_def HandleOpenAt_def open_path_def HandleClose_def Let_def split_def
  by (intro range_intros | simp)+

lemma in_range_times [range_intros]:
  "in_range (HandleNanoSleep E w)" "in_range (HandleAlarm E w)" "in_range (HandleTime E w)"
  "in_range (HandleGetTimeOfDay E w)" "in_range (HandleClockGetTime E w)"
  "in_range (HandleClockGetRes E w)" "in_range (HandleFutex E w)" "in_range (HandleExit E w)"
  "in_range (HandleClone E w)"
  unfolding HandleNanoSleep_def HandleAlarm_def HandleTime_def HandleGetTimeOfDay_def
    HandleClockGetTime_def HandleClockGetRes_def HandleFutex_def HandleExit_def HandleClone_def Let_def
  by (intro range_intros | simp)+

lemma in_range_ioctl [range_intros]: "in_range (HandleIoctl E w)"
  unfolding HandleIoctl_def device_request_def fake_failure_def wifi_by_name_def Let_def
  by (intro range_intros | simp)+

lemma in_range_select_finish [range_intros]: "in_range (select_finish E s n t d v w)"
  unfolding select_finish_def Let_def by (cases "t = 0") (simp_all add: range_intros)

lemma in_range_select [range_intros]: "in_range (HandleSelect E w)"
  unfolding HandleSelect_def Let_def split_def by (intro range_intros | simp)+

lemma in_range_transfer [range_intros]:
  "in_range (HandleSocket E w)" "in_range (HandleBind E w)" "in_range (HandleRecvFrom E w)"
  "in_range (HandleGetSockName E w)" "in_range (HandleRecvMsg E w)" "in_range (HandlePoll E w)"
  "in_range (HandleSendMsg E (select_netlink_callback E) w)"
  "in_range (HandleSendTo E (select_netlink_callback E) w)"
  unfolding HandleSocket_def HandleBind_def HandleRecvFrom_def HandleGetSockName_def
    HandleRecvMsg_def HandlePoll_def HandleSendMsg_def HandleSendTo_def Let_def split_def
  by (intro range_intros | simp)+

text \<open>A socket in \<open>m_tcpSockets\<close>, listening or not, is in \<open>m_sockets\<close>.\<close>

lemma fd_inv_tcp: "fd_inv w \<Longrightarrow> fd \<in> m_tcpSockets w \<Longrightarrow> m_sockets w fd \<noteq> None"
  "fd_inv w \<Longrightarrow> fd \<in> m_isListenTcpSocket w \<Longrightarrow> m_sockets w fd \<noteq> None"
  unfolding fd_inv_def by blast+

lemma in_range_listen: "fd_inv w \<Longrightarrow> in_range (HandleListen E w)"
  unfolding HandleListen_def Let_def split_def
  by (intro range_intros) (simp_all add: set_ext_def fd_inv_tcp)

lemma in_range_connect: "in_range (HandleConnect E w)"
  unfolding HandleConnect_def Let_def
  by (intro range_intros) (auto dest: GetNs3Address_state)

lemma in_range_accept: "fd_inv w \<Longrightarrow> in_range (HandleAccept E w)"
  unfolding HandleAccept_def Let_def
  by (intro range_intros) (simp_all add: fd_inv_tcp)

lemma in_range_getpeername: "fd_inv w \<Longrightarrow> in_range (HandleGetPeerName E w)"
  unfolding HandleGetPeerName_def Let_def
  by (intro range_intros) (simp_all add: fd_inv_tcp)

text \<open>
  The look-ups that no set guards. \<open>write\<close> looks up a descriptor that is marked as connected, a
  mark that a late connection sets on a descriptor closed in between; the socket options look
  up any emulated descriptor, so also netlink sockets and random devices.
\<close>

definition unguarded :: "int \<Rightarrow> fd \<Rightarrow> 'x grail \<Rightarrow> bool" where
  "unguarded syscall fd w \<longleftrightarrow> m_sockets w fd = None \<and>
     (syscall = SYS_write \<and> fd \<in> m_connectedSockets w
      \<or> (syscall = SYS_getsockopt \<or> syscall = SYS_setsockopt) \<and> FdIsEmulatedSocket fd w)"

lemma in_range_write: "\<not> unguarded SYS_write (c_int (argv 1 w)) w \<Longrightarrow> in_range (HandleWrite E w)"
  unfolding HandleWrite_def Let_def split_def
  by (intro range_intros | simp add: unguarded_def)+

lemma in_range_sockopts:
  "\<not> unguarded SYS_getsockopt (c_int (argv 1 w)) w \<Longrightarrow> in_range (HandleGetSockOpt E w)"
  "\<not> unguarded SYS_setsockopt (c_int (argv 1 w)) w \<Longrightarrow> in_range (HandleSetSockOpt E w)"
  unfolding HandleGetSockOpt_def HandleSetSockOpt_def reply_attribute_def reply_opt_def Let_def
  by (intro range_intros | simp add: unguarded_def)+

lemma in_range_dispatch:
  assumes "fd_inv w" and "\<not> unguarded c (c_int (argv 1 w)) w"
  shows "in_range (dispatch E c w)"
  unfolding dispatch_def
  by (intro in_range_if range_intros in_range_listen in_range_connect in_range_accept
      in_range_getpeername in_range_write in_range_sockopts)
    (use assms in simp_all)

lemma in_range_HandleSyscallBefore:
  assumes "fd_inv w" and "\<And>t. WaitForSyscall E p (tr w) = Some (0, t) \<Longrightarrow>
    \<not> unguarded (c_int (get_reg p ORIG_RAX t)) (c_int (arg 1 p t)) w"
  shows "in_range (HandleSyscallBefore E p w)"
proof -
  have "in_range (dispatch E (c_int (get_reg p ORIG_RAX t)) v)"
    if "WaitForSyscall E p (tr w) = Some (0, t)" and "tr v = t" and "cur_pid v = p"
      and "fd_fields v = fd_fields w" and "m_connectedSockets v = m_connectedSockets w" for t v
    using that assms(2) [of t] fd_inv_fields [OF that(4) assms(1)]
    by (intro in_range_dispatch)
      (auto simp: unguarded_def FdIsEmulatedSocket_def argv_def fd_fields_def)
  then show ?thesis
    unfolding HandleSyscallBefore_def Let_def
    by (intro range_intros) (auto simp: fd_fields_def split: prod.split intro!: range_intros)
qed

lemma in_range_notify:
  "in_range (notify_recv E sock w)" "in_range (notify_send E sock w)"
  "in_range (notify_connect E sock ok w)"
  "(\<And>c. cb_accept w sock = Some (AcceptSelect c) \<Longrightarrow> m_sockets w (sc_fd c) \<noteq> None) \<Longrightarrow>
   in_range (notify_accept E sock newSock newAddr w)"
  unfolding notify_recv_def notify_send_def notify_connect_def notify_accept_def
    select_accept_callback_def Let_def
  by (auto intro!: range_intros simp: claim_def Cancel_def
      split: option.split recv_cb.split send_cb.split accept_cb.split connect_cb.split)

section \<open>Properties\<close>

text \<open>
  (C6) Descriptors are well typed: in every reachable state no system call and no closure dies
  of a descriptor that is missing from \<open>m_sockets\<close>, except \<open>write\<close> to a descriptor closed while its
  connection was pending, the socket options of netlink sockets and random devices, and the
  accept closure of a \<open>select\<close> whose descriptor was closed.
\<close>

theorem reachable_in_range:
  assumes "reachable E (fst (GrailApplication t0 a b c d e)) w"
    and "\<forall>t. WaitForSyscall E p (tr w) = Some (0, t) \<longrightarrow>
      \<not> unguarded (c_int (get_reg p ORIG_RAX t)) (c_int (arg 1 p t)) w"
    and "\<forall>c. cb_accept w sock = Some (AcceptSelect c) \<longrightarrow> m_sockets w (sc_fd c) \<noteq> None"
  shows "HandleSyscallBefore E p w \<noteq> Halt OutOfRange w' \<and>
    notify_recv E sock w \<noteq> Halt OutOfRange w' \<and> notify_send E sock w \<noteq> Halt OutOfRange w' \<and>
    notify_connect E sock ok w \<noteq> Halt OutOfRange w' \<and>
    notify_accept E sock newSock newAddr w \<noteq> Halt OutOfRange w'"
proof -
  have "fd_inv w" by (rule fdr.reachable_keeps [OF assms(1) fd_inv_init])
  then show ?thesis using assms(2,3)
    by (intro conjI in_rangeD in_range_HandleSyscallBefore in_range_notify) simp_all
qed

theorem reachable_in_range_witness:
  "\<exists>w. reachable demo_env (demo_start 41 [2, 1, 0]) w \<and> m_sockets w = [100 \<mapsto> 5] \<and>
    (\<forall>w'. HandleSyscallBefore demo_env 1 w \<noteq> Halt OutOfRange w')"
proof -
  obtain w where w: "StartApplication demo_env 1 0 (demo_start 41 [2, 1, 0]) = Ret () w"
    and s: "m_sockets w = [100 \<mapsto> 5]" "m_connectedSockets w = {}" "m_netlinks w = Map.empty"
      "m_random_fds w = {}" "cb_accept w = (\<lambda>_. None)"
    using demo_socket_start by blast
  have r: "reachable demo_env (demo_start 41 [2, 1, 0]) w" by (rule reachable.start [OF w])
  have "\<not> unguarded c fd w" for c fd
    by (simp add: unguarded_def FdIsEmulatedSocket_def s)
  then have "HandleSyscallBefore demo_env 1 w \<noteq> Halt OutOfRange w'" for w'
    using reachable_in_range [OF r [unfolded demo_start_def], of 1 5] s(5) by simp
  then show ?thesis using r s(1) by blast
qed

text \<open>The exceptions are real: a \<open>getsockopt\<close> on a netlink socket stops the simulation.\<close>

lemma getsockopt_on_netlink_throws:
  assumes "fd_inv w" and "m_netlinks w (c_int (argv 1 w)) \<noteq> None" and "argv 4 w \<noteq> 0"
    and "c_int (argv 2 w) = SOL_SOCKET" and "c_int (argv 3 w) = SO_SNDBUF"
  shows "HandleGetSockOpt E w = Halt OutOfRange w"
proof -
  have "m_sockets w (c_int (argv 1 w)) = None" using assms(1,2) unfolding fd_inv_def by blast
  then show ?thesis using assms(2-)
    by (simp add: HandleGetSockOpt_def NS_ASSERT_def FdIsEmulatedSocket_def socket_at_def)
qed

end
