(* ===== verification/Netlink_Dump.thy ===== *)
theory Netlink_Dump
  imports Netlink
begin

text \<open>
  What the dumps of \<^verbatim>\<open>src/model/netlink.cc\<close> leave in the queue of replies: one message per
  device, in the order of the devices, and a final one. The names of the interfaces are given in
  closed form and are pairwise different.
\<close>

section \<open>Names of interfaces\<close>

definition kind_prefix :: "device \<Rightarrow> string" where
  "kind_prefix d = (case d of LoopbackNetDevice \<Rightarrow> ''lo'' | WifiNetDevice \<Rightarrow> ''wlan''
     | PointToPointNetDevice \<Rightarrow> ''eth'' | OtherDevice \<Rightarrow> [])"

text \<open>How many of the devices before the \<open>i\<close>-th are of a kind.\<close>

definition kind_count :: "'x env \<Rightarrow> 'x \<Rightarrow> nat \<Rightarrow> device \<Rightarrow> nat" where
  "kind_count E x i d = length (filter (\<lambda>j. e_Device E j x = d) [0..<i])"

definition ifname :: "'x env \<Rightarrow> 'x \<Rightarrow> nat \<Rightarrow> string" where
  "ifname E x i = kind_prefix (e_Device E i x) @ to_string (kind_count E x i (e_Device E i x))"

lemma kind_count_Suc:
  "kind_count E x (Suc i) d = (if e_Device E i x = d then Suc (kind_count E x i d) else kind_count E x i d)"
  by (simp add: kind_count_def)

lemma kind_count_mono: "i \<le> j \<Longrightarrow> kind_count E x i d \<le> kind_count E x j d"
  by (induction j rule: dec_induct) (auto simp: kind_count_Suc intro: le_SucI)

lemma ifname_distinct:
  assumes "i < j" and "e_Device E i x \<noteq> OtherDevice" and "e_Device E j x \<noteq> OtherDevice"
  shows "ifname E x i \<noteq> ifname E x j"
proof (cases "e_Device E i x = e_Device E j x")
  case True
  have "kind_count E x (Suc i) (e_Device E i x) \<le> kind_count E x j (e_Device E i x)"
    using assms(1) by (intro kind_count_mono) simp
  then show ?thesis using True by (simp add: ifname_def kind_count_Suc)
next
  case False
  then show ?thesis
    using assms(2,3) by (cases "e_Device E i x"; cases "e_Device E j x") (simp_all add: ifname_def kind_prefix_def)
qed

section \<open>The loops\<close>

definition counters :: "'x env \<Rightarrow> 'x \<Rightarrow> nat \<Rightarrow> if_counters" where
  "counters E x i = \<lparr>loi = kind_count E x i LoopbackNetDevice, wlani = kind_count E x i WifiNetDevice,
     ethi = kind_count E x i PointToPointNetDevice\<rparr>"

lemma next_ifname_eq:
  "e_Device E i x \<noteq> OtherDevice \<Longrightarrow>
   next_ifname (e_Device E i x) (counters E x i) = Some (ifname E x i, counters E x (Suc i))"
  by (cases "e_Device E i x")
    (simp_all add: next_ifname_def counters_def ifname_def kind_prefix_def kind_count_Suc)

definition push_all :: "nl_msg list \<Rightarrow> netlink_socket \<Rightarrow> netlink_socket" where
  "push_all ms s = s\<lparr>reply_queue := reply_queue s @ ms\<rparr>"

lemma push_all_Nil [simp]: "push_all [] s = s"
  by (simp add: push_all_def)

lemma push_all_push [simp]: "push_all ms (push_reply m s) = push_all (m # ms) s"
  by (simp add: push_all_def push_reply_def)

definition dump_tail :: "nat \<Rightarrow> nl_msg list" where
  "dump_tail k = (if k = 0 then [] else [done_msg])"

lemma GETLINK_loop_eq:
  "(\<And>j. i \<le> j \<Longrightarrow> j < i + k \<Longrightarrow> e_Device E j x \<noteq> OtherDevice) \<Longrightarrow>
   GETLINK_loop E x i k (counters E x i) s =
     (None, push_all (map (\<lambda>j. link_reply E j (ifname E x j)) [i..<i + k] @ dump_tail k) s)"
proof (induction k arbitrary: i s)
  case 0
  then show ?case by (simp add: dump_tail_def)
next
  case (Suc k)
  have "[i..<i + Suc k] = i # [Suc i..<Suc i + k]" by (simp add: upt_conv_Cons)
  moreover have "e_Device E i x \<noteq> OtherDevice" using Suc.prems by simp
  ultimately show ?case
    using Suc.IH [of "Suc i"] Suc.prems by (simp add: next_ifname_eq Let_def dump_tail_def)
qed

lemma GETADDR_loop_eq:
  "GETADDR_loop E x i k s = push_all (map (addr_reply E x) [i..<i + k] @ dump_tail k) s"
proof (induction k arbitrary: i s)
  case 0
  then show ?case by (simp add: dump_tail_def)
next
  case (Suc k)
  have "[i..<i + Suc k] = i # [Suc i..<Suc i + k]" by (simp add: upt_conv_Cons)
  then show ?case using Suc.IH [of "Suc i"] by (simp add: Let_def dump_tail_def)
qed

lemma GETLINK_request:
  assumes "nl_objs w n = Some s" and "\<not> has_recv_callback s"
    and "u16_at buf (off + 4) = RTM_GETLINK"
    and "(of_nat (u16_at buf (off + 6)) :: 32 word) AND NLM_F_ROOT \<noteq> 0"
    and "N = e_NDevices E (xt w)" and "0 < N"
    and "\<forall>i < N. e_Device E i (xt w) \<noteq> OtherDevice"
  shows "ProcessNlmsghdr E cb n buf off w = Ret () (put_nl n
    (push_all (map (\<lambda>i. link_reply E i (ifname E (xt w) i)) [0..<N] @ [done_msg]) s) w)"
proof -
  have c0: "\<lparr>loi = 0, wlani = 0, ethi = 0\<rparr> = counters E (xt w) 0"
    by (simp add: counters_def kind_count_def)
  have "GETLINK_loop E (xt w) 0 N \<lparr>loi = 0, wlani = 0, ethi = 0\<rparr> s =
      (None, push_all (map (\<lambda>i. link_reply E i (ifname E (xt w) i)) [0..<N] @ [done_msg]) s)"
    using GETLINK_loop_eq [of 0 N E "xt w" s] assms(6,7) unfolding c0 by (simp add: dump_tail_def)
  then show ?thesis
    using assms(1-5)
    by (simp add: ProcessNlmsghdr_def Let_def NS_ASSERT_def with_nl_def call_back_def put_nl_def push_all_def)
qed

section \<open>Properties\<close>

text \<open>
  (C28) A request for the links, on a node whose devices are all of a known kind: one reply per
  device, in order, with the index and the name of the device, is queued behind the pending
  replies, then the end of the dump; no two interfaces have the same name.
\<close>

theorem GETLINK_dump:
  assumes "nl_objs w n = Some s" and "\<not> has_recv_callback s"
    and "u16_at buf (off + 4) = RTM_GETLINK"
    and "(of_nat (u16_at buf (off + 6)) :: 32 word) AND NLM_F_ROOT \<noteq> 0"
    and "N = e_NDevices E (xt w)" and "0 < N"
    and "\<forall>i < N. e_Device E i (xt w) \<noteq> OtherDevice"
  shows "\<exists>s'. ProcessNlmsghdr E cb n buf off w = Ret () (put_nl n s' w) \<and>
    reply_queue s' = reply_queue s
      @ map (\<lambda>i. link_reply E i (ifname E (xt w) i)) [0..<N] @ [done_msg] \<and>
    distinct (map (ifname E (xt w)) [0..<N])"
proof -
  have "distinct (map (ifname E (xt w)) [0..<N])"
    unfolding distinct_map
    using assms(7) ifname_distinct [of _ _ E "xt w"] by (auto simp: inj_on_def) (metis nat_neq_iff)
  then show ?thesis
    using GETLINK_request [OF assms, of cb]
    by (intro exI [of _ "push_all (map (\<lambda>i. link_reply E i (ifname E (xt w) i)) [0..<N] @ [done_msg]) s"])
      (simp add: push_all_def)
qed

text \<open>On the demo node: a loopback and a WiFi device.\<close>

theorem GETLINK_dump_witness:
  "\<exists>s'. ProcessNlmsghdr demo_env (\<lambda>n f. Ret ()) 0 (replicate 4 0 @ [18, 0, 0, 1]) 0 demo_nl = Ret () (put_nl 0 s' demo_nl) \<and>
    reply_queue s' = [link_reply demo_env 0 ''lo0'', link_reply demo_env 1 ''wlan0'', done_msg]"
proof -
  let ?buf = "replicate 4 0 @ [18, 0, 0, 1] :: byte list"
  have n: "ifname demo_env x 0 = ''lo0''" "ifname demo_env x 1 = ''wlan0''" for x
    by (simp_all add: ifname_def kind_prefix_def kind_count_def demo_env_def to_string.simps char_of_def bit_Suc_0_iff)
  have h: "\<not> has_recv_callback (NetlinkSocket demo_text_env 1 0)" "u16_at ?buf (0 + 4) = RTM_GETLINK"
    "(of_nat (u16_at ?buf (0 + 6)) :: 32 word) AND NLM_F_ROOT \<noteq> 0"
    "2 = e_NDevices demo_env (xt demo_nl)" "(0 :: nat) < 2"
    "\<forall>i < 2. e_Device demo_env i (xt demo_nl) \<noteq> OtherDevice"
    by (simp_all add: NetlinkSocket_def u16_at_def demo_env_def)
  obtain s' where r: "ProcessNlmsghdr demo_env (\<lambda>n f. Ret ()) 0 ?buf 0 demo_nl = Ret () (put_nl 0 s' demo_nl)"
    and q: "reply_queue s' = reply_queue (NetlinkSocket demo_text_env 1 0)
      @ map (\<lambda>i. link_reply demo_env i (ifname demo_env (xt demo_nl) i)) [0..<2] @ [done_msg]"
    using GETLINK_dump [OF demo_nl_state(1) h, of "\<lambda>n f. Ret ()"] by (elim exE conjE) (rule that)
  have "[0..<2] = [0, 1 :: nat]" by (simp add: upt_rec)
  then have "reply_queue s' = [link_reply demo_env 0 ''lo0'', link_reply demo_env 1 ''wlan0'', done_msg]"
    using q by (simp add: n NetlinkSocket_def del: One_nat_def)
  with r show ?thesis by blast
qed

end
