(* ===== verification/Netlink_Dialogue.thy ===== *)
theory Netlink_Dialogue
  imports Netlink_Dump Grail_Socket
begin

text \<open>
  The dialogue of a process with the netlink socket: a request, then as many \<open>recvmsg\<close> calls as
  there are replies, with the process running in between. What the process reads out of its
  buffers is the queue of replies, in order and byte for byte.
\<close>

section \<open>Reading the replies\<close>

text \<open>The first \<open>iovec\<close> of the \<open>msghdr\<close> at \<open>message\<close>.\<close>

definition first_iov :: "memory \<Rightarrow> addr \<Rightarrow> byte list" where
  "first_iov m message = copy_in m (bytes_word (take 8 (drop 16 (copy_in m message 56)))) 16"

definition buffer_of :: "memory \<Rightarrow> addr \<Rightarrow> addr" where
  "buffer_of m message = bytes_word (take 8 (first_iov m message))"

definition room_of :: "memory \<Rightarrow> addr \<Rightarrow> nat" where
  "room_of m message = le_nat (drop 8 (first_iov m message))"

text \<open>
  A process that calls \<open>recvmsg\<close> again and again. Each call comes with the tracee as it is then:
  between two calls the process may change its registers and its memory at will. The
  result is what the process finds in its buffer, as many bytes as the call returned.
\<close>

fun receive_all ::
  "'x env \<Rightarrow> nat \<Rightarrow> pid \<Rightarrow> ('x tracee \<times> addr) list \<Rightarrow> 'x grail \<Rightarrow> byte list list option \<times> 'x grail" where
  "receive_all E n p [] w = (Some [], w)"
| "receive_all E n p ((t, message) # calls) w =
     (case nl_HandleRecvMsg E n message (w\<lparr>tr := t\<rparr>) of
        Ret SYSC_SUCCESS w1 \<Rightarrow>
          let got = fetch (memory_of w1) (buffer_of (mem t) message) (unat (get_reg p RAX (tr w1)));
              (more, w2) = receive_all E n p calls w1
          in (map_option ((#) got) more, w2)
      | Ret _ w1 \<Rightarrow> (None, w1)
      | Halt h w1 \<Rightarrow> (None, w1))"

text \<open>libnl: the length field of a finished message is its length.\<close>

definition hdr_ok :: "'x env \<Rightarrow> nl_msg \<Rightarrow> bool" where
  "hdr_ok E m \<longleftrightarrow> le_nat (take 4 (e_nlmsg_hdr E m)) = length (e_nlmsg_hdr E m) \<and>
     length (e_nlmsg_hdr E m) < 2 ^ 63"

definition fits :: "'x env \<Rightarrow> nl_msg \<Rightarrow> 'x tracee \<times> addr \<Rightarrow> bool" where
  "fits E m call \<longleftrightarrow> (case call of (t, message) \<Rightarrow>
     length (e_nlmsg_hdr E m) \<le> room_of (mem t) message \<and>
     mapped (mem t) (buffer_of (mem t) message) (round8 (length (e_nlmsg_hdr E m))))"

lemma recvmsg_reply:
  assumes "getpid_ok E" and "nl_objs w n = Some s" and "reply_queue s = m # rest"
    and "hdr_ok E m" and "fits E m (tr w, message)"
  shows "\<exists>w'. nl_HandleRecvMsg E n message w = Ret SYSC_SUCCESS w' \<and>
    nl_objs w' n = Some (s\<lparr>reply_queue := rest\<rparr>) \<and>
    fetch (memory_of w') (buffer_of (memory_of w) message) (length (e_nlmsg_hdr E m)) = e_nlmsg_hdr E m \<and>
    unat (get_reg (nl_owner s) RAX (tr w')) = length (e_nlmsg_hdr E m)"
proof -
  let ?h = "e_nlmsg_hdr E m"
  have "unat (of_nat (length ?h) :: 64 word) = length ?h"
    using assms(4) by (simp add: unsigned_of_nat take_bit_nat_eq_self hdr_ok_def)
  moreover have "fetch (store (memory_of w) (buffer_of (memory_of w) message) ?h)
      (buffer_of (memory_of w) message) (length ?h) = ?h"
    using assms(4) by (intro fetch_store) (simp add: hdr_ok_def)
  ultimately show ?thesis
    using assms
    by (simp add: nl_HandleRecvMsg_def with_nl_def Let_def NS_ASSERT_def hdr_ok_def fits_def room_of_def
        buffer_of_def first_iov_def copy_to_mapped fakes faked_def put_nl_def set_mem_def)
qed

lemma receive_all_queue:
  assumes "getpid_ok E" and "nl_objs w n = Some s" and "reply_queue s = ms @ rest"
    and "length calls = length ms" and "list_all (hdr_ok E) ms" and "list_all2 (fits E) ms calls"
    and "p = nl_owner s"
  shows "\<exists>w'. receive_all E n p calls w = (Some (map (e_nlmsg_hdr E) ms), w') \<and>
    nl_objs w' n = Some (s\<lparr>reply_queue := rest\<rparr>)"
  using assms
proof (induction ms arbitrary: calls w s)
  case Nil
  then show ?case by simp
next
  case (Cons m ms)
  obtain t message more where calls: "calls = (t, message) # more"
    using Cons.prems(4) by (cases calls) auto
  let ?w = "w\<lparr>tr := t\<rparr>"
  have "\<exists>w'. nl_HandleRecvMsg E n message ?w = Ret SYSC_SUCCESS w' \<and>
      nl_objs w' n = Some (s\<lparr>reply_queue := ms @ rest\<rparr>) \<and>
      fetch (memory_of w') (buffer_of (memory_of ?w) message) (length (e_nlmsg_hdr E m)) = e_nlmsg_hdr E m \<and>
      unat (get_reg (nl_owner s) RAX (tr w')) = length (e_nlmsg_hdr E m)"
    using Cons.prems calls by (intro recvmsg_reply) simp_all
  then obtain w1 where w1: "nl_HandleRecvMsg E n message ?w = Ret SYSC_SUCCESS w1"
    "nl_objs w1 n = Some (s\<lparr>reply_queue := ms @ rest\<rparr>)"
    "fetch (memory_of w1) (buffer_of (mem t) message) (length (e_nlmsg_hdr E m)) = e_nlmsg_hdr E m"
    "unat (get_reg p RAX (tr w1)) = length (e_nlmsg_hdr E m)"
    using Cons.prems(7) by auto
  have "\<exists>w'. receive_all E n p more w1 = (Some (map (e_nlmsg_hdr E) ms), w') \<and>
      nl_objs w' n = Some (s\<lparr>reply_queue := ms @ rest, reply_queue := rest\<rparr>)"
    using Cons.prems calls w1(2) by (intro Cons.IH) simp_all
  then show ?case using w1 by (auto simp: calls Let_def split_def)
qed

section \<open>Properties\<close>


text \<open>On the demo node, with a process whose \<open>msghdr\<close> at 64 names a buffer of 64 bytes at 256.\<close>

definition demo_msg_env :: "nat env" where
  "demo_msg_env = demo_env\<lparr>e_nlmsg_hdr := (\<lambda>m. le_bytes 4 16 @ le_bytes 2 (nm_type m) @ replicate 10 0)\<rparr>"

definition demo_reader :: "nat tracee" where
  "demo_reader = \<lparr>regs = (\<lambda>p. demo_args []), mem = (\<lambda>a. if a < 512 then Some
     (if a = 80 then 128 else if a = 129 then 1 else if a = 136 then 64 else 0) else None), ext = 0\<rparr>"

lemma demo_reader_mapped: "mapped (mem demo_reader) 64 56" "mapped (mem demo_reader) 128 16"
  "mapped (mem demo_reader) 256 16"
  by (simp_all add: mapped_def demo_reader_def upt_rec)

lemma demo_reader_buffer: "buffer_of (mem demo_reader) 64 = 256" "room_of (mem demo_reader) 64 = 64"
proof -
  have "copy_in (mem demo_reader) 64 56 = fetch (mem demo_reader) 64 56"
    using demo_reader_mapped(1) by (simp add: tc.cin_mapped round8_def)
  then have "take 8 (drop 16 (copy_in (mem demo_reader) 64 56)) = [128, 0, 0, 0, 0, 0, 0, 0]"
    by (simp add: fetch_def demo_reader_def upt_rec)
  then have "first_iov (mem demo_reader) 64 = copy_in (mem demo_reader) 128 16"
    by (simp add: first_iov_def bytes_word_def)
  also have "\<dots> = fetch (mem demo_reader) 128 16"
    using demo_reader_mapped(2) by (simp add: tc.cin_mapped round8_def)
  also have "\<dots> = [0, 1, 0, 0, 0, 0, 0, 0, 64, 0, 0, 0, 0, 0, 0, 0]"
    by (simp add: fetch_def demo_reader_def upt_rec)
  finally have iov: "first_iov (mem demo_reader) 64 = [0, 1, 0, 0, 0, 0, 0, 0, 64, 0, 0, 0, 0, 0, 0, 0]" .
  show "buffer_of (mem demo_reader) 64 = 256" "room_of (mem demo_reader) 64 = 64"
    by (simp_all add: buffer_of_def room_of_def iov bytes_word_def)
qed

lemma demo_msg_ok: "hdr_ok demo_msg_env m" "fits demo_msg_env m (demo_reader, 64)"
  using demo_reader_buffer demo_reader_mapped(3)
  by (simp_all add: hdr_ok_def fits_def demo_msg_env_def le_nat_le_bytes round8_def)


end
