(* ===== verification/Syscname.thy ===== *)
theory Syscname
  imports Platform
begin

text \<open>
  \<^verbatim>\<open>src/model/syscname.h\<close>: the names under which system calls, requests, options and message
  types appear in the log. Every function is a switch whose cases return the text of their
  label, and prints the number where there is no case. The library shows that a name stands
  for one number: no two numbers have the same text.
\<close>

section \<open>A switch with a default\<close>

text \<open>\<open>std::stringstream << n\<close> for an \<open>int\<close>.\<close>

definition int_text :: "int \<Rightarrow> string" where
  "int_text n = (if n < 0 then CHR ''-'' # to_string (nat (- n)) else to_string (nat n))"

definition name_of :: "(int \<times> string) list \<Rightarrow> int \<Rightarrow> string" where
  "name_of cases n = (case map_of cases n of Some s \<Rightarrow> s | None \<Rightarrow> int_text n)"

definition is_letter :: "char \<Rightarrow> bool" where
  "is_letter c \<longleftrightarrow> 65 \<le> (of_char c :: nat) \<and> (of_char c :: nat) \<le> 90"

lemma int_text_inject: "int_text m = int_text n \<Longrightarrow> m = n"
proof -
  have no_minus: "CHR ''-'' # xs \<noteq> to_string k" for xs k
  proof
    assume "CHR ''-'' # xs = to_string k"
    then have "CHR ''-'' \<in> set (to_string k)" by (metis list.set_intros(1))
    from to_string_digits [OF this] obtain d :: nat where "d < 10" "CHR ''-'' = char_of (48 + d)" by blast
    then have "(of_char CHR ''-'' :: nat) = 48 + d" by simp
    then show False by simp
  qed
  assume "int_text m = int_text n"
  then show ?thesis
    using no_minus no_minus [symmetric] by (auto simp: int_text_def split: if_splits)
qed

lemma int_text_no_letter: "int_text n = c # s \<Longrightarrow> \<not> is_letter c"
proof
  assume n: "int_text n = c # s" and c: "is_letter c"
  show False
  proof (cases "n < 0")
    case True
    then show False using n c by (auto simp: int_text_def is_letter_def)
  next
    case False
    then have "c \<in> set (to_string (nat n))" using n by (simp add: int_text_def)
    from to_string_digits [OF this] obtain d :: nat where "d < 10" "c = char_of (48 + d)" by blast
    then show False using c by (simp add: is_letter_def)
  qed
qed

text \<open>What makes a table of cases unambiguous.\<close>

locale name_table =
  fixes cases :: "(int \<times> string) list"
  assumes names_distinct: "distinct (map snd cases)"
    and names_letters: "list_all (\<lambda>s. s \<noteq> [] \<and> is_letter (hd s)) (map snd cases)"
begin

lemma name_starts_with_letter: "(n, s) \<in> set cases \<Longrightarrow> s \<noteq> int_text m"
proof
  assume "(n, s) \<in> set cases" and m: "s = int_text m"
  then have "s \<noteq> []" "is_letter (hd s)" using names_letters by (auto simp: list_all_iff)
  then show False using int_text_no_letter [of m "hd s" "tl s"] m by simp
qed

lemma name_inject: "name_of cases m = name_of cases n \<Longrightarrow> m = n"
proof -
  assume eq: "name_of cases m = name_of cases n"
  have mem: "(k, s) \<in> set cases" if "map_of cases k = Some s" for k s using that by (rule map_of_SomeD)
  show ?thesis
  proof (cases "map_of cases m"; cases "map_of cases n")
    fix s t
    assume "map_of cases m = Some s" and "map_of cases n = Some t"
    then have a: "(m, s) \<in> set cases" and b: "(n, s) \<in> set cases" using mem eq by (auto simp: name_of_def)
    have "inj_on snd (set cases)" using names_distinct by (simp add: distinct_map)
    from inj_onD [OF this _ a b] show ?thesis by simp
  qed (use eq mem name_starts_with_letter int_text_inject in \<open>fastforce simp: name_of_def\<close>)+
qed

lemma name_eq_iff: "name_of cases m = name_of cases n \<longleftrightarrow> m = n"
  using name_inject by blast

end

section \<open>The functions\<close>

definition syscname_cases :: "(int \<times> string) list" where
  "syscname_cases =
     [(SYS_execve, ''SYS_execve''), (SYS_brk, ''SYS_brk''), (SYS_mprotect, ''SYS_mprotect''),
      (SYS_getpid, ''SYS_getpid''), (SYS_fstat, ''SYS_fstat''), (SYS_access, ''SYS_access''),
      (SYS_open, ''SYS_open''), (SYS_mmap, ''SYS_mmap''), (SYS_munmap, ''SYS_munmap''),
      (SYS_getrlimit, ''SYS_getrlimit''), (SYS_getcwd, ''SYS_getcwd''),
      (SYS_lseek, ''SYS_lseek''), (SYS_readahead, ''SYS_readahead''),
      (SYS_set_tid_address, ''SYS_set_tid_address''),
      (SYS_set_robust_list, ''SYS_set_robust_list''),
      (SYS_get_robust_list, ''SYS_get_robust_list''), (SYS_arch_prctl, ''SYS_arch_prctl''),
      (SYS_rt_sigaction, ''SYS_rt_sigaction''), (SYS_rt_sigprocmask, ''SYS_rt_sigprocmask''),
      (SYS_futex, ''SYS_futex''), (SYS_gettid, ''SYS_gettid''), (SYS_tgkill, ''SYS_tgkill''),
      (SYS_uname, ''SYS_uname''), (SYS_close, ''SYS_close''), (SYS_ioctl, ''SYS_ioctl''),
      (SYS_dup, ''SYS_dup''), (SYS_read, ''SYS_read''), (SYS_stat, ''SYS_stat''),
      (SYS_fcntl, ''SYS_fcntl''), (SYS_exit_group, ''SYS_exit_group''),
      (SYS_getsockname, ''SYS_getsockname''), (SYS_write, ''SYS_write''),
      (SYS_socket, ''SYS_socket''), (SYS_sendto, ''SYS_sendto''),
      (SYS_recvfrom, ''SYS_recvfrom''), (SYS_recvmsg, ''SYS_recvmsg''),
      (SYS_sendmsg, ''SYS_sendmsg''), (SYS_nanosleep, ''SYS_nanosleep''),
      (SYS_bind, ''SYS_bind''), (SYS_poll, ''SYS_poll''), (SYS_getrandom, ''SYS_getrandom''),
      (SYS_getuid, ''SYS_getuid''), (SYS_geteuid, ''SYS_geteuid''), (SYS_getgid, ''SYS_getgid''),
      (SYS_getegid, ''SYS_getegid''), (SYS_setsockopt, ''SYS_setsockopt''),
      (SYS_select, ''SYS_select''), (SYS_pipe2, ''SYS_pipe2''), (SYS_clone, ''SYS_clone''),
      (SYS_time, ''SYS_time''), (SYS_gettimeofday, ''SYS_gettimeofday''),
      (SYS_prlimit64, ''SYS_prlimit64''), (SYS_listen, ''SYS_listen''),
      (SYS_clock_gettime, ''SYS_clock_gettime''), (SYS_getrusage, ''SYS_getrusage''),
      (SYS_connect, ''SYS_connect''), (SYS_getsockopt, ''SYS_getsockopt''),
      (SYS_accept, ''SYS_accept''), (SYS_getpeername, ''SYS_getpeername''),
      (SYS_unlink, ''SYS_unlink''), (SYS_ftruncate, ''SYS_ftruncate''),
      (SYS_openat, ''SYS_openat''), (SYS_clock_getres, ''SYS_clock_getres''),
      (SYS_readlink, ''SYS_readlink'')]"

definition syscname :: "int \<Rightarrow> string" where
  "syscname n = name_of syscname_cases n"

definition ioctlname_cases :: "(int \<times> string) list" where
  "ioctlname_cases =
     [(35091, ''SIOCGIFFLAGS''), (35092, ''SIOCSIFFLAGS''), (35585, ''SIOCGIWNAME''),
      (35093, ''SIOCGIFADDR''), (35097, ''SIOCGIFBRDADDR''), (35105, ''SIOCGIFMTU'')]"

definition ioctlname :: "int \<Rightarrow> string" where
  "ioctlname n = name_of ioctlname_cases n"

definition sockoptname_cases :: "(int \<times> string) list" where
  "sockoptname_cases =
     [(SO_PRIORITY, ''SO_PRIORITY''), (1, ''SO_DEBUG''), (SO_REUSEADDR, ''SO_REUSEADDR''),
      (3, ''SO_TYPE''), (4, ''SO_ERROR''), (5, ''SO_DONTROUTE''),
      (SO_BROADCAST, ''SO_BROADCAST''), (SO_RCVBUF, ''SO_RCVBUF''), (SO_SNDBUF, ''SO_SNDBUF''),
      (9, ''SO_KEEPALIVE''), (10, ''SO_OOBINLINE''), (13, ''SO_LINGER''), (15, ''SO_REUSEPORT''),
      (18, ''SO_RCVLOWAT''), (19, ''SO_SNDLOWAT''), (20, ''SO_RCVTIMEO''), (21, ''SO_SNDTIMEO''),
      (SO_BINDTODEVICE, ''SO_BINDTODEVICE''), (30, ''SO_ACCEPTCONN'')]"

definition sockoptname :: "int \<Rightarrow> string" where
  "sockoptname n = name_of sockoptname_cases n"

definition tcpsockoptname_cases :: "(int \<times> string) list" where
  "tcpsockoptname_cases =
     [(TCP_CONGESTION, ''TCP_CONGESTION''), (TCP_MAXSEG, ''TCP_MAXSEG''),
      (TCP_INFO, ''TCP_INFO'')]"

definition tcpsockoptname :: "int \<Rightarrow> string" where
  "tcpsockoptname n = name_of tcpsockoptname_cases n"

definition fcntlname_cases :: "(int \<times> string) list" where
  "fcntlname_cases =
     [(0, ''F_DUPFD''), (1030, ''F_DUPFD_CLOEXEC''), (1, ''F_GETFD''), (2, ''F_SETFD''),
      (F_GETFL, ''F_GETFL''), (F_SETFL, ''F_SETFL''), (6, ''F_SETLK''), (7, ''F_SETLKW'')]"

definition fcntlname :: "int \<Rightarrow> string" where
  "fcntlname n = name_of fcntlname_cases n"

definition socksendflagname_cases :: "(int \<times> string) list" where
  "socksendflagname_cases =
     [(2048, ''MSG_CONFIRM''), (MSG_DONTROUTE, ''MSG_DONTROUTE''), (64, ''MSG_DONTWAIT''),
      (128, ''MSG_EOR''), (32768, ''MSG_MORE''), (16384, ''MSG_NOSIGNAL''), (1, ''MSG_OOB'')]"

definition socksendflagname :: "int \<Rightarrow> string" where
  "socksendflagname n = name_of socksendflagname_cases n"

definition netlinkname_cases :: "(int \<times> string) list" where
  "netlinkname_cases =
     [(18, ''RTM_GETLINK''), (16, ''RTM_NEWLINK''), (17, ''RTM_DELLINK''),
      (26, ''RTM_GETROUTE''), (24, ''RTM_NEWROUTE''), (25, ''RTM_DELROUTE''),
      (22, ''RTM_GETADDR''), (20, ''RTM_NEWADDR''), (21, ''RTM_DELADDR''), (3, ''NLMSG_DONE''),
      (2, ''NLMSG_ERROR'')]"

definition netlinkname :: "int \<Rightarrow> string" where
  "netlinkname n = name_of netlinkname_cases n"

definition afname_cases :: "(int \<times> string) list" where
  "afname_cases =
     [(AF_INET, ''AF_INET''), (1, ''AF_UNIX''), (AF_NETLINK, ''AF_NETLINK''), (10, ''AF_INET6''),
      (4, ''AF_IPX''), (17, ''AF_PACKET'')]"

definition afname :: "int \<Rightarrow> string" where
  "afname n = name_of afname_cases n"

definition rttypename_cases :: "(int \<times> string) list" where
  "rttypename_cases =
     [(0, ''RTN_UNSPEC''), (1, ''RTN_UNICAST''), (2, ''RTN_LOCAL''), (3, ''RTN_BROADCAST''),
      (4, ''RTN_ANYCAST''), (5, ''RTN_MULTICAST''), (6, ''RTN_BLACKHOLE''),
      (7, ''RTN_UNREACHABLE''), (8, ''RTN_PROHIBIT''), (9, ''RTN_THROW''), (10, ''RTN_NAT''),
      (11, ''RTN_XRESOLVE'')]"

definition rttypename :: "int \<Rightarrow> string" where
  "rttypename n = name_of rttypename_cases n"

definition rtaname_cases :: "(int \<times> string) list" where
  "rtaname_cases =
     [(0, ''RTA_UNSPEC''), (1, ''RTA_DST''), (2, ''RTA_SRC''), (3, ''RTA_IIF''),
      (4, ''RTA_OIF''), (5, ''RTA_GATEWAY''), (6, ''RTA_PRIORITY''), (7, ''RTA_PREFSRC''),
      (8, ''RTA_METRICS''), (9, ''RTA_MULTIPATH''), (10, ''RTA_PROTOINFO''), (11, ''RTA_FLOW''),
      (12, ''RTA_CACHEINFO'')]"

definition rtaname :: "int \<Rightarrow> string" where
  "rtaname n = name_of rtaname_cases n"

definition rttablename_cases :: "(int \<times> string) list" where
  "rttablename_cases =
     [(0, ''RT_TABLE_UNSPEC''), (253, ''RT_TABLE_DEFAULT''), (254, ''RT_TABLE_MAIN''),
      (255, ''RT_TABLE_LOCAL'')]"

definition rttablename :: "int \<Rightarrow> string" where
  "rttablename n = name_of rttablename_cases n"

definition rtprotoname_cases :: "(int \<times> string) list" where
  "rtprotoname_cases =
     [(0, ''RTPROT_UNSPEC''), (1, ''RTPROT_REDIRECT''), (2, ''RTPROT_KERNEL''),
      (3, ''RTPROT_BOOT''), (4, ''RTPROT_STATIC'')]"

definition rtprotoname :: "int \<Rightarrow> string" where
  "rtprotoname n = name_of rtprotoname_cases n"

definition rtscopename_cases :: "(int \<times> string) list" where
  "rtscopename_cases =
     [(0, ''RT_SCOPE_UNIVERSE''), (200, ''RT_SCOPE_SITE''), (253, ''RT_SCOPE_LINK''),
      (254, ''RT_SCOPE_HOST''), (255, ''RT_SCOPE_NOWHERE'')]"

definition rtscopename :: "int \<Rightarrow> string" where
  "rtscopename n = name_of rtscopename_cases n"

section \<open>No two numbers have the same name\<close>

interpretation syscname_names: name_table syscname_cases
  by unfold_locales (simp_all add: syscname_cases_def is_letter_def)

interpretation ioctlname_names: name_table ioctlname_cases
  by unfold_locales (simp_all add: ioctlname_cases_def is_letter_def)

interpretation sockoptname_names: name_table sockoptname_cases
  by unfold_locales (simp_all add: sockoptname_cases_def is_letter_def)

interpretation tcpsockoptname_names: name_table tcpsockoptname_cases
  by unfold_locales (simp_all add: tcpsockoptname_cases_def is_letter_def)

interpretation fcntlname_names: name_table fcntlname_cases
  by unfold_locales (simp_all add: fcntlname_cases_def is_letter_def)

interpretation socksendflagname_names: name_table socksendflagname_cases
  by unfold_locales (simp_all add: socksendflagname_cases_def is_letter_def)

interpretation netlinkname_names: name_table netlinkname_cases
  by unfold_locales (simp_all add: netlinkname_cases_def is_letter_def)

interpretation afname_names: name_table afname_cases
  by unfold_locales (simp_all add: afname_cases_def is_letter_def)

interpretation rttypename_names: name_table rttypename_cases
  by unfold_locales (simp_all add: rttypename_cases_def is_letter_def)

interpretation rtaname_names: name_table rtaname_cases
  by unfold_locales (simp_all add: rtaname_cases_def is_letter_def)

interpretation rttablename_names: name_table rttablename_cases
  by unfold_locales (simp_all add: rttablename_cases_def is_letter_def)

interpretation rtprotoname_names: name_table rtprotoname_cases
  by unfold_locales (simp_all add: rtprotoname_cases_def is_letter_def)

interpretation rtscopename_names: name_table rtscopename_cases
  by unfold_locales (simp_all add: rtscopename_cases_def is_letter_def)

lemma names_inject:
  "syscname m = syscname n \<longleftrightarrow> m = n"
  "ioctlname m = ioctlname n \<longleftrightarrow> m = n"
  "sockoptname m = sockoptname n \<longleftrightarrow> m = n"
  "tcpsockoptname m = tcpsockoptname n \<longleftrightarrow> m = n"
  "fcntlname m = fcntlname n \<longleftrightarrow> m = n"
  "socksendflagname m = socksendflagname n \<longleftrightarrow> m = n"
  "netlinkname m = netlinkname n \<longleftrightarrow> m = n"
  "afname m = afname n \<longleftrightarrow> m = n"
  "rttypename m = rttypename n \<longleftrightarrow> m = n"
  "rtaname m = rtaname n \<longleftrightarrow> m = n"
  "rttablename m = rttablename n \<longleftrightarrow> m = n"
  "rtprotoname m = rtprotoname n \<longleftrightarrow> m = n"
  "rtscopename m = rtscopename n \<longleftrightarrow> m = n"
    by (simp_all add: syscname_def syscname_names.name_eq_iff ioctlname_def
    ioctlname_names.name_eq_iff sockoptname_def sockoptname_names.name_eq_iff tcpsockoptname_def
    tcpsockoptname_names.name_eq_iff fcntlname_def fcntlname_names.name_eq_iff
    socksendflagname_def socksendflagname_names.name_eq_iff netlinkname_def
    netlinkname_names.name_eq_iff afname_def afname_names.name_eq_iff rttypename_def
    rttypename_names.name_eq_iff rtaname_def rtaname_names.name_eq_iff rttablename_def
    rttablename_names.name_eq_iff rtprotoname_def rtprotoname_names.name_eq_iff rtscopename_def
    rtscopename_names.name_eq_iff)

text \<open>The calls the switch of \<open>HandleSyscallBefore\<close> knows but that are logged by number.\<close>

lemma unnamed_calls:
  "map syscname [SYS_alarm, SYS_exit, SYS_madvise, SYS_umask] = [''37'', ''60'', ''28'', ''95'']"
  by (simp add: syscname_def name_of_def syscname_cases_def int_text_def to_string.simps char_of_def
      bit_Suc_0_iff)

end
