(* ===== verification/Spec2Isabelle.thy ===== *)
theory Spec2Isabelle
  imports Grail_Dispatch Grail_Start Grail_Table Grail_Isolation Grail_Protocol Grail_Blocking
    Grail_Waiting Grail_Datagram Grail_Connect Grail_Range Netlink_Dump Netlink_Dialogue Syscname
begin

text \<open>
  A verification library for gRaIL, an ns-3 module that runs unmodified Linux programs inside a
  network simulation. gRaIL starts a program under \<open>ptrace\<close>, stops it at every system call, and
  either lets the kernel run the call or answers it from the simulation: sockets, time, sleeping,
  random numbers, the list of interfaces and the routing table are the simulated node's.

  \<^bold>\<open>How the program works.\<close> \<open>GrailApplication::Priv\<close> (\<^verbatim>\<open>src/model/grail.cc\<close>) keeps the state of one
  traced process. \<open>HandleSyscallBefore\<close> resumes a thread until its next stop
  (\<open>WaitForSyscall\<close>, \<^verbatim>\<open>src/model/ptrace-utils.h\<close>), feeds the poll-loop detector
  (\<^verbatim>\<open>src/model/poll-detector.h\<close>), and switches over the call's number. A handler reads the
  arguments from the registers, copies memory from and to the tracee, and ends in one of three
  ways: the call is faked (it is turned into \<open>getpid\<close> and the result register is overwritten), it
  is passed to the kernel, or it stays pending, and a closure registered with a simulated socket
  or with the scheduler will answer it. \<open>ProcessStatusCode\<close> schedules the thread's next
  call. Netlink sockets (\<^verbatim>\<open>src/model/netlink.cc\<close>) answer the requests for interfaces and
  addresses and change the routing table (\<^verbatim>\<open>src/model/route.cc\<close>), which routes the simulated
  node's packets.

  \<^bold>\<open>The theories.\<close>
  \<^item> \<open>Grail_Prelude\<close>: the integer types of the code at their widths, little-endian bytes, the
    tracee's memory, decimal strings, outcomes (a value, or the way the program ends), and the
    collection of introduction rules for invariants.
  \<^item> \<open>Platform\<close>: the numbers of system calls, errors, options and message types on amd64 Linux.
  \<^item> \<open>Ptrace_Utils\<close>: \<^verbatim>\<open>ptrace-utils.h\<close>. Registers, \<open>read_args\<close>, the word-wise copies,
    \<open>WaitForSyscall\<close>. The copies implement a byte-wise store and fetch (locale \<open>tracee_copy\<close>).
  \<^item> \<open>Poll_Detector\<close>: \<^verbatim>\<open>poll-detector.h\<close>, on 32-bit counters (locale \<open>poll_loop\<close>).
  \<^item> \<open>Route\<close>: \<^verbatim>\<open>route.h\<close>, \<^verbatim>\<open>route.cc\<close>. The table is a list; it implements a finite map
    (locale \<open>route_table\<close>), and lookup is longest prefix.
  \<^item> \<open>Grail_State\<close>: \<open>struct Priv\<close>, its closures and events, the constructor, \<open>FAKE\<close>, \<open>FAKE2\<close>,
    \<open>FAKE4\<close>, \<open>HandleSyscallAfter\<close>, \<open>ProcessStatusCode\<close>, \<open>GetNextFD\<close>.
  \<^item> \<open>Grail_Contract\<close>: the interface between invariants and these operations (locale
    \<open>priv_invariant\<close>), with the invariants of the descriptor table and of the netlink objects.
  \<^item> \<open>Grail_Demo\<close>: a concrete kernel, simulator and state, on which the witnesses run.
  \<^item> \<open>Grail_File\<close>, \<open>Grail_Time\<close>, \<open>Grail_Address\<close>, \<open>Grail_Socket\<close>, \<open>Grail_Ioctl\<close>, \<open>Grail_Select\<close>: the
    handlers of \<^verbatim>\<open>grail.cc\<close> with their closures, one definition per handler, named as in the code.
  \<^item> \<open>Netlink\<close>: \<^verbatim>\<open>netlink.h\<close>, \<^verbatim>\<open>netlink.cc\<close> (locale \<open>netlink_invariant\<close>).
  \<^item> \<open>Grail_Dispatch\<close>: the switch, start-up, and the program as a step relation over scheduled
    events and socket callbacks; invariants of all reachable states (locales
    \<open>frame_invariant\<close>, \<open>program_invariant\<close>, \<open>run_invariant\<close>).
  \<^item> \<open>Grail_Start\<close>: \<open>Setup\<close>, both sides of the \<open>fork\<close>, the choice of the routing protocol, and the
    preloaded library of \<^verbatim>\<open>src/novdso.c\<close>.
  \<^item> \<open>Grail_Table\<close>: the descriptors against one abstract table of open files, which every step of
    the program simulates.
  \<^item> \<open>Grail_Range\<close>: the tables as types of descriptors, which make the look-ups in \<open>m_sockets\<close> safe,
    and the look-ups that are not.
  \<^item> \<open>Grail_Isolation\<close>: two kernels that agree on \<open>getpid\<close> cannot be told apart by an emulated call.
  \<^item> \<open>Grail_Events\<close>: the identifiers of scheduled events, which are never used twice.
  \<^item> \<open>Grail_Protocol\<close>: how often a thread is let through and scheduled, by the handlers and by the
    closures that complete a pending call; rules in the style of a program logic.
  \<^item> \<open>Grail_Blocking\<close>: calls on stream sockets across time, at once and by their callbacks.
  \<^item> \<open>Grail_Waiting\<close>: a \<open>select\<close> that blocks, in closed form, and its wake-up.
  \<^item> \<open>Grail_Datagram\<close>: \<open>recvfrom\<close> and \<open>sendto\<close> on datagram sockets.
  \<^item> \<open>Grail_Connect\<close>: connections, from \<open>connect\<close> to its answer and from \<open>listen\<close> to \<open>accept\<close>.
  \<^item> \<open>Netlink_Dump\<close>: the replies of a dump in closed form, and the names of the interfaces.
  \<^item> \<open>Netlink_Dialogue\<close>: a request and the \<open>recvmsg\<close> calls that read its replies.
  \<^item> \<open>Syscname\<close>: \<^verbatim>\<open>syscname.h\<close>, the names used in the log; a name stands for one number (locale
    \<open>name_table\<close>).
  \<^item> this theory: what spans components, a route installed over netlink and the packets it routes,
    a polling process and the simulated clock.

  \<^bold>\<open>State and effects.\<close> A handler is a function from the state to an \<open>outcome\<close>: \<open>Ret\<close> with the
  status code and the new state, or \<open>Halt\<close> for \<open>exit(1)\<close>, a failed assertion, an exception, a
  null pointer, an access outside an array, or no return at all. Handlers are composed by
  \<open>and_then\<close>; the macros that may return from the enclosing function take the rest of it as a
  continuation. C++ closures are datatype values holding what they capture, and the callback
  slots of the simulator's sockets are maps of the state, so that a closure left behind in a slot
  is visible. Cells shared between closures are stores indexed by an identity.

  \<^bold>\<open>What is a parameter.\<close> \<open>env\<close> holds the code that is not in the repository: what a resumed
  process does until its next stop, the simulator's sockets, devices, interfaces, clock and
  random numbers, libnl and uninitialised memory. The simulator's own state is the
  type parameter. Theorems hold for all of these, or name what they rely on: \<open>getpid_ok\<close> (a
  faked call stops again at its exit), \<open>ip_text_ok\<close> (printing and parsing of addresses agree),
  \<open>nl_lib_ok\<close> (the message iterator of libnl makes progress), \<open>counts_waits\<close> (a counter outside
  the program counts the returns of \<open>WaitForSyscall\<close> for one thread; it states no property of the
  kernel, any kernel can be given such a counter).

  \<^bold>\<open>What the lemmas show.\<close> Refinement of byte-wise memory and of the route map; round trips through
  the tracee's memory; longest-prefix routing, and agreement of forwarding with local output;
  closed form, bounds and wrap-around of the poll delay; the effect of opening, reading, writing
  and closing descriptors, of the clocks, of sleeping, of \<open>clone\<close> and of \<open>select\<close>; at most one
  closure of a \<open>select\<close> call acts; the message loop of netlink ends; the invariants hold in every
  reachable state; the descriptor table simulates an abstract one; no call but three kinds that are
  listed dies of a missing descriptor; the emulated calls are isolated from the kernel; a call is answered exactly once, at once or by the closure that
  completes it; a \<open>select\<close> cancels no event but its timeout; a blocked \<open>read\<close> completes, a
  blocked \<open>select\<close> wakes up, connections are made and accepted, an answer reaches the sender of a
  datagram, a process reads the replies of netlink in order; a polling process lets
  time advance. Errors of the code are theorems as well: hanging on a killed tracee, reading
  past a netlink message, the wrong netmask, a connection that is lost, a status that is lost.

  \<^bold>\<open>Loops and bounds.\<close> No fuel is used. The copies and the address loops are total functions with a
  measure; the loops that depend on the kernel or on libnl are partial functions into an option,
  and their results are proved to exist where a theorem speaks about them.

  \<^bold>\<open>Not modelled.\<close> The registration of attributes (\<open>GetTypeId\<close>), logging, and the lambda wrappers,
  which only adapt C++ types: they call the simulator and keep no state. The programs under
  \<^verbatim>\<open>src/mt\<close>, \<^verbatim>\<open>src/examples\<close> and \<^verbatim>\<open>src/test\<close> are experiments and inputs of gRaIL, not part of it.
\<close>

section \<open>Routing and netlink\<close>

lemma longest_is_used:
  assumes "e \<in> set es" and "rt_matches N dst e" and "on_link N I (rt_gw e) ia"
    and "\<forall>x\<in>set es. rt_matches N dst x \<longrightarrow> x \<noteq> e \<longrightarrow> rt_len x < rt_len e"
  shows "\<exists>r. RouteOutput N I es dst = Some r \<and> r_gateway r = rt_gw e \<and> r_destination r = dst"
proof -
  obtain xs ys where es: "es = xs @ e # ys" and x: "e \<notin> set xs"
    using split_list_first [OF assms(1)] by blast
  have "\<forall>y\<in>set xs. rt_matches N dst y \<longrightarrow> rt_len y < rt_len e"
    and "\<forall>y\<in>set ys. rt_matches N dst y \<longrightarrow> rt_len y \<le> rt_len e"
    using assms(4) x unfolding es by (auto dest: less_imp_le)
  then have "is_best N dst es e" unfolding is_best_def using assms(2) es by blast
  then have out: "RouteOutput N I es dst =
      map_option (make_route I dst (rt_gw e)) (iface_loop N I (rt_gw e) 0)"
    by (simp add: RouteOutput_def best_entry_is_best)
  have "iface_loop N I (rt_gw e) 0 \<noteq> None" using assms(3) iface_loop_None_iff by blast
  then show ?thesis by (auto simp: out make_route_def)
qed

text \<open>
  (C13) A route the application installs is the route its packets take: after a well-formed
  netlink request for a new route, a packet whose destination it matches, and matches more
  precisely than any other entry, goes to its gateway, if that gateway is on a link.
\<close>

theorem installed_route_is_used:
  assumes "nl_objs w n = Some s" and "rt_inv (rt_entries w)"
    and "list_all good_attr tds" and "28 + length (concat (map rta_encode tds)) < 2 ^ 32"
    and "fold (apply_attr E) tds \<lparr>ra_dst = None, ra_gw = None\<rparr> = \<lparr>ra_dst = Some d, ra_gw = Some g\<rparr>"
    and "rt_matches N dst (RtEntry d len g)"
    and "\<forall>e\<in>set (rt_entries w). rt_matches N dst e \<longrightarrow> rt_key e = (d, len) \<or> rt_len e < len"
    and "on_link N I g ia"
  shows "\<exists>w' r. ProcessNlmsghdr E cb n (route_msg True len tds) 0 w = Ret () w' \<and>
    RouteOutput N I (rt_entries w') dst = Some r \<and> r_gateway r = g \<and> r_destination r = dst"
proof -
  let ?es = "AddRoute d len g (rt_entries w)" and ?e = "RtEntry d len g"
  have es: "?es = filter (\<lambda>x. rt_key x \<noteq> (d, len)) (rt_entries w) @ [?e]"
    by (simp add: AddRoute_def Let_def find_erase_filter [OF assms(2)])
  have "\<exists>r. RouteOutput N I ?es dst = Some r \<and> r_gateway r = rt_gw ?e \<and> r_destination r = dst"
    using assms(6-8) unfolding es
    by (intro longest_is_used) (auto simp: RtEntry_def)
  then show ?thesis
    unfolding ROUTE_entries [OF assms(1,3-5)] by (auto simp: put_nl_def)
qed

theorem installed_route_is_used_witness:
  "\<exists>w' r. ProcessNlmsghdr demo_text_env (\<lambda>n f. Ret ()) 0 (route_msg True 24 demo_route) 0 demo_nl = Ret () w' \<and>
     RouteOutput demo_net demo_ipv4 (rt_entries w') 0x0a000205 = Some r \<and> r_gateway r = 0x0a000001"
proof -
  have len: "28 + length (concat (map rta_encode demo_route)) < 2 ^ 32" by (simp add: length_demo_route)
  have m: "rt_matches demo_net 0x0a000205 (RtEntry 0x0a000200 24 0x0a000001)"
    by (simp add: rt_matches_def demo_net_def RtEntry_def)
  have l: "on_link demo_net demo_ipv4 0x0a000001 (0, 0)"
    by (simp add: on_link_def demo_net_def demo_ipv4_def)
  have e: "\<forall>e\<in>set (rt_entries demo_nl). rt_matches demo_net 0x0a000205 e \<longrightarrow>
      rt_key e = (0x0a000200, 24) \<or> rt_len e < 24"
    by (simp add: demo_nl_state)
  show ?thesis
    using installed_route_is_used [OF demo_nl_state(1,3) demo_route_good len demo_route_fold m e l,
        of "\<lambda>n f. Ret ()"] by (elim exE conjE) blast
qed

section \<open>Poll loops and the clock\<close>


text \<open>A process that asks for the time, over and over.\<close>

definition demo_polling :: "nat grail" where
  "demo_polling = (demo_start (c_reg SYS_gettimeofday) [8, 0])\<lparr>pollLoopDetector := (True, 3)\<rparr>"


end
